(* ===== verification/Prelude.thy ===== *)
theory Prelude
  imports Main "HOL-Library.Word" "HOL-Library.Monad_Syntax" "HOL-Library.Multiset"
begin

text \<open>
  Shared vocabulary of the development: the machine types of the C++ sources as
  \<^typ>\<open>'a word\<close>, the \<open>Result\<close> variant of \<open>core/result.h\<close>, the ctype functions in the
  C locale (the program never calls \<open>setlocale\<close>), bounds-checked buffer reads, and the
  generic list and word lemmas the components use.
\<close>

unbundle bit_operations_syntax

named_theorems scan_simps \<open>equations of the character scanners\<close>
named_theorems codec_simps \<open>equations of the wire codec\<close>
named_theorems pool_defs \<open>definitions of the pool handlers\<close>

section \<open>Machine types\<close>

type_synonym u8 = "8 word"
type_synonym u16 = "16 word"
type_synonym u32 = "32 word"
type_synonym u64 = "64 word"
type_synonym bytes = "u8 list"

text \<open>
  A \<open>double\<close> is kept as its IEEE-754 bit pattern: the sources only store and copy doubles.
\<close>

type_synonym double = "64 word"

section \<open>Result\<close>

text \<open>
  \<open>Result<T, E>\<close> is \<open>std::variant<T, E>\<close>, index 0 the value and index 1 the error.
  \<open>get_value\<close> and \<open>get_error\<close> are \<open>std::get\<close>, which throws \<open>bad_variant_access\<close> on the
  other alternative: \<^const>\<open>None\<close>.
\<close>

datatype ('t, 'e) result = Ok 't | Err 'e

fun is_ok :: "('t, 'e) result \<Rightarrow> bool" where
  "is_ok (Ok _) = True"
| "is_ok (Err _) = False"

fun is_err :: "('t, 'e) result \<Rightarrow> bool" where
  "is_err (Ok _) = False"
| "is_err (Err _) = True"

fun get_value :: "('t, 'e) result \<Rightarrow> 't option" where
  "get_value (Ok v) = Some v"
| "get_value (Err _) = None"

fun get_error :: "('t, 'e) result \<Rightarrow> 'e option" where
  "get_error (Ok _) = None"
| "get_error (Err e) = Some e"

lemma is_err_iff: "is_err r \<longleftrightarrow> \<not> is_ok r"
  by (cases r) simp_all

lemma is_ok_get_value: "is_ok r \<longleftrightarrow> (\<exists>v. get_value r = Some v \<and> r = Ok v)"
  by (cases r) simp_all

section \<open>ctype in the C locale\<close>

definition isspace :: "char \<Rightarrow> bool" where
  "isspace c = (let n = of_char c :: nat in n = 32 \<or> 9 \<le> n \<and> n \<le> 13)"

definition isupper :: "char \<Rightarrow> bool" where
  "isupper c = (let n = of_char c :: nat in 65 \<le> n \<and> n \<le> 90)"

definition islower :: "char \<Rightarrow> bool" where
  "islower c = (let n = of_char c :: nat in 97 \<le> n \<and> n \<le> 122)"

definition isalpha :: "char \<Rightarrow> bool" where
  "isalpha c = (isupper c \<or> islower c)"

definition isdigit :: "char \<Rightarrow> bool" where
  "isdigit c = (let n = of_char c :: nat in 48 \<le> n \<and> n \<le> 57)"

definition isalnum :: "char \<Rightarrow> bool" where
  "isalnum c = (isalpha c \<or> isdigit c)"

definition tolower :: "char \<Rightarrow> char" where
  "tolower c = (if isupper c then char_of ((of_char c :: nat) + 32) else c)"

definition toupper :: "char \<Rightarrow> char" where
  "toupper c = (if islower c then char_of ((of_char c :: nat) - 32) else c)"

lemma of_char_tolower:
  "(of_char (tolower c) :: nat) = (if isupper c then of_char c + 32 else of_char c)"
  by (auto simp: tolower_def isupper_def Let_def)

lemma isupper_tolower [simp]: "\<not> isupper (tolower c)"
  by (auto simp: isupper_def Let_def of_char_tolower)

lemma tolower_idem [simp]: "tolower (tolower c) = tolower c"
  by (simp add: tolower_def [of "tolower c"])

lemma isspace_tolower [simp]: "isspace (tolower c) = isspace c"
  by (auto simp: isspace_def isupper_def Let_def of_char_tolower)

lemma isdigit_tolower [simp]: "isdigit (tolower c) = isdigit c"
  by (auto simp: isdigit_def isupper_def Let_def of_char_tolower)

lemma isalpha_tolower [simp]: "isalpha (tolower c) = isalpha c"
  by (auto simp: isalpha_def islower_def isupper_def Let_def of_char_tolower)

lemma isalnum_tolower [simp]: "isalnum (tolower c) = isalnum c"
  by (simp add: isalnum_def)

text \<open>Case folding moves no character into or out of the non-letters.\<close>

lemma tolower_eq_nonalpha: "\<not> isalpha d \<Longrightarrow> tolower c = d \<longleftrightarrow> c = d"
  by (metis isalpha_def isalpha_tolower tolower_def)

text \<open>Code equations on the bits of a character, for evaluation.\<close>

lemma isspace_code [code]:
  "isspace (Char b0 b1 b2 b3 b4 b5 b6 b7) \<longleftrightarrow>
     \<not> b7 \<and> \<not> b6 \<and> \<not> b4 \<and> (if b5 then \<not> b3 \<and> \<not> b2 \<and> \<not> b1 \<and> \<not> b0 else b3 \<and> (b2 \<or> b1 \<or> b0) \<and> \<not> (b2 \<and> b1))"
  by (cases b0; cases b1; cases b2; cases b3; cases b4; cases b5; cases b6; cases b7) (simp_all add: isspace_def)

lemma isupper_code [code]:
  "isupper (Char b0 b1 b2 b3 b4 b5 b6 b7) \<longleftrightarrow>
     \<not> b7 \<and> b6 \<and> \<not> b5 \<and> (b4 \<or> b3 \<or> b2 \<or> b1 \<or> b0) \<and> \<not> (b4 \<and> b3 \<and> (b2 \<or> b1 \<and> b0))"
  by (cases b0; cases b1; cases b2; cases b3; cases b4; cases b5; cases b6; cases b7) (simp_all add: isupper_def)

lemma islower_code [code]:
  "islower (Char b0 b1 b2 b3 b4 b5 b6 b7) \<longleftrightarrow>
     \<not> b7 \<and> b6 \<and> b5 \<and> (b4 \<or> b3 \<or> b2 \<or> b1 \<or> b0) \<and> \<not> (b4 \<and> b3 \<and> (b2 \<or> b1 \<and> b0))"
  by (cases b0; cases b1; cases b2; cases b3; cases b4; cases b5; cases b6; cases b7) (simp_all add: islower_def)

lemma isdigit_code [code]:
  "isdigit (Char b0 b1 b2 b3 b4 b5 b6 b7) \<longleftrightarrow> \<not> b7 \<and> \<not> b6 \<and> b5 \<and> b4 \<and> \<not> (b3 \<and> (b2 \<or> b1))"
  by (cases b0; cases b1; cases b2; cases b3; cases b4; cases b5; cases b6; cases b7) (simp_all add: isdigit_def)

lemma tolower_code [code]:
  "tolower (Char b0 b1 b2 b3 b4 b5 b6 b7) =
     (let c = Char b0 b1 b2 b3 b4 b5 b6 b7 in if isupper c then Char b0 b1 b2 b3 b4 True b6 b7 else c)"
proof -
  have "tolower c = Char b0 b1 b2 b3 b4 True b6 b7" if "c = Char b0 b1 b2 b3 b4 b5 b6 b7" "isupper c" for c
  proof -
    from that have "\<not> b5" by (simp add: isupper_code)
    then have "(of_char (tolower c) :: nat) = of_char (Char b0 b1 b2 b3 b4 True b6 b7)"
      using that by (simp add: of_char_tolower)
    then show ?thesis by (metis char_of_char)
  qed
  then show ?thesis by (simp add: Let_def tolower_def)
qed

text \<open>\<open>std::to_string\<close> of an unsigned number.\<close>

fun to_digits :: "nat \<Rightarrow> string" where
  "to_digits n = (if n < 10 then [char_of (48 + n)] else to_digits (n div 10) @ [char_of (48 + n mod 10)])"

declare to_digits.simps [simp del]

section \<open>Invariants of transition systems\<close>

text \<open>
  A component whose handlers run one at a time is a transition system; an inductive invariant
  holds in every reachable state.
\<close>

locale inductive_invariant =
  fixes init :: "'s \<Rightarrow> bool" and step :: "'s \<Rightarrow> 's \<Rightarrow> bool" and inv :: "'s \<Rightarrow> bool"
  assumes init_inv: "init s \<Longrightarrow> inv s"
    and step_inv: "inv s \<Longrightarrow> step s t \<Longrightarrow> inv t"
begin

lemma reachable_inv: "init s \<Longrightarrow> step\<^sup>*\<^sup>* s t \<Longrightarrow> inv t"
proof -
  assume "step\<^sup>*\<^sup>* s t" "init s"
  then show "inv t" by (induction rule: rtranclp_induct) (auto intro: init_inv step_inv)
qed

end

end
