(* ===== verification/Types.thy ===== *)
theory Types
  imports Prelude
begin

text \<open>
  The enumerations and identifiers of \<open>core/types.h\<close>, \<open>routing/errors.h\<close> and
  \<open>pool/types.h\<close>, with their helper functions. Enumerators keep the source's names; those
  that several enumerations share carry the name of the enumeration as a prefix.
\<close>

section \<open>Identifiers\<close>

type_synonym BackendID = string
type_synonym SchemaName = string
type_synonym NodeID = string
type_synonym TenantID = string

text \<open>
  \<open>SessionID\<close>: the UUID type, its generator, its printer and its hash are Boost's and parameters; \<open>gen\<close> is the
  generator of a thread with its state.
\<close>

datatype 'u SessionID = SessionID (sid_value: 'u)

definition sid_generate :: "('g \<Rightarrow> 'u \<times> 'g) \<Rightarrow> 'g \<Rightarrow> 'u SessionID \<times> 'g" where
  "sid_generate gen g = (let (u, g') = gen g in (SessionID u, g'))"

definition sid_to_string :: "('u \<Rightarrow> string) \<Rightarrow> 'u SessionID \<Rightarrow> string" where
  "sid_to_string print i = print (sid_value i)"

definition sid_eq :: "'u SessionID \<Rightarrow> 'u SessionID \<Rightarrow> bool" where
  "sid_eq a b \<longleftrightarrow> sid_value a = sid_value b"

definition sid_ne :: "'u SessionID \<Rightarrow> 'u SessionID \<Rightarrow> bool" where
  "sid_ne a b \<longleftrightarrow> sid_value a \<noteq> sid_value b"

definition sid_hash :: "('u \<Rightarrow> u64) \<Rightarrow> 'u SessionID \<Rightarrow> u64" where
  "sid_hash hash i = hash (sid_value i)"

text \<open>\<open>operator<\<close> makes session ids a linear order when the UUIDs are one.\<close>

instantiation SessionID :: (linorder) linorder
begin

definition less_eq_SessionID :: "'a SessionID \<Rightarrow> 'a SessionID \<Rightarrow> bool" where
  "less_eq_SessionID a b \<longleftrightarrow> sid_value a \<le> sid_value b"

definition less_SessionID :: "'a SessionID \<Rightarrow> 'a SessionID \<Rightarrow> bool" where
  "less_SessionID a b \<longleftrightarrow> sid_value a < sid_value b"

instance
  by intro_classes (auto simp: less_eq_SessionID_def less_SessionID_def intro: SessionID.expand)

end

lemma sid_eq_iff: "sid_eq a b \<longleftrightarrow> a = b" "sid_ne a b \<longleftrightarrow> a \<noteq> b"
  by (auto simp: sid_eq_def sid_ne_def intro: SessionID.expand)

lemma sid_hash_eq: "sid_eq a b \<Longrightarrow> sid_hash hash a = sid_hash hash b"
  by (simp add: sid_eq_def sid_hash_def)

text \<open>\<open>n\<close> ids of one thread: they and their texts differ when the generator's UUIDs do.\<close>

primrec sid_run :: "('g \<Rightarrow> 'u \<times> 'g) \<Rightarrow> 'g \<Rightarrow> nat \<Rightarrow> 'u SessionID list" where
  "sid_run gen g 0 = []"
| "sid_run gen g (Suc n) = (let (i, g') = sid_generate gen g in i # sid_run gen g' n)"

primrec uuid_run :: "('g \<Rightarrow> 'u \<times> 'g) \<Rightarrow> 'g \<Rightarrow> nat \<Rightarrow> 'u list" where
  "uuid_run gen g 0 = []"
| "uuid_run gen g (Suc n) = (let (u, g') = gen g in u # uuid_run gen g' n)"

lemma sid_run_map: "sid_run gen g n = map SessionID (uuid_run gen g n)"
  by (induction n arbitrary: g) (auto simp: sid_generate_def Let_def split: prod.splits)

lemma sid_texts_distinct:
  assumes "distinct (uuid_run gen g n)" "inj print"
  shows "distinct (map (sid_to_string print) (sid_run gen g n))"
  using assms by (auto simp: sid_run_map sid_to_string_def distinct_map inj_on_def)

section \<open>Enumerations of core/types.h\<close>

datatype QueryType =
    SELECT | INSERT | UPDATE | DELETE | DDL | CALL
  | BEGIN | COMMIT | ROLLBACK | SET | USE | UNKNOWN

definition is_read :: "QueryType \<Rightarrow> bool" where
  "is_read t = (t = SELECT)"

definition is_write :: "QueryType \<Rightarrow> bool" where
  "is_write t = (t = INSERT \<or> t = UPDATE \<or> t = DELETE \<or> t = DDL \<or> t = CALL)"

datatype BackendType =
  MYSQL | MARIADB | POSTGRES | RDS_MYSQL | RDS_MARIADB | RDS_POSTGRES

datatype BackendRole = PRIMARY | REPLICA

datatype BackendState = HEALTHY | DEGRADED | FAILED | RECOVERING | DRAINING

datatype RecoveryMode = STATELESS | BASIC | ADVANCED | STRICT

datatype AffinityMode = Affinity_NONE | Affinity_SCHEMA | Affinity_BACKEND | Affinity_TRANSACTION

datatype RoutingPolicy =
    ROUND_ROBIN | WEIGHTED | LEAST_CONNECTIONS | LATENCY | RANDOM
  | FAILOVER | CONSISTENT_HASHING

datatype NodeMode = STANDALONE | CLUSTER

datatype FailoverPolicy = IMMEDIATE | GRACEFUL | MANUAL

lemma is_read_not_write: "is_read t \<Longrightarrow> \<not> is_write t"
  by (simp add: is_read_def is_write_def)

section \<open>Errors of the routing pipeline and of the pool\<close>

datatype RoutingError =
    NO_SCHEMA_CONFIG | NO_BACKEND_AVAILABLE | BACKEND_DISCONNECTED
  | FIREWALL_BLOCKED | RATE_LIMITED | POOL_QUEUE_FULL

fun routing_error_str :: "RoutingError \<Rightarrow> string" where
  "routing_error_str NO_SCHEMA_CONFIG = ''no_schema_config''"
| "routing_error_str NO_BACKEND_AVAILABLE = ''no_backend_available''"
| "routing_error_str BACKEND_DISCONNECTED = ''backend_disconnected''"
| "routing_error_str FIREWALL_BLOCKED = ''firewall_blocked''"
| "routing_error_str RATE_LIMITED = ''rate_limited''"
| "routing_error_str POOL_QUEUE_FULL = ''pool_queue_full''"

datatype PoolError =
    POOL_EXHAUSTED | CONNECT_FAILED | BACKEND_UNAVAILABLE
  | QUEUE_FULL | TIMED_OUT | POOL_SHUTDOWN

datatype ConnectionState = IDLE | IN_USE | VALIDATING | CLOSED

fun pool_error_str :: "PoolError \<Rightarrow> string" where
  "pool_error_str POOL_EXHAUSTED = ''pool_exhausted''"
| "pool_error_str CONNECT_FAILED = ''connect_failed''"
| "pool_error_str BACKEND_UNAVAILABLE = ''backend_unavailable''"
| "pool_error_str QUEUE_FULL = ''queue_full''"
| "pool_error_str TIMED_OUT = ''timed_out''"
| "pool_error_str POOL_SHUTDOWN = ''pool_shutdown''"

end
