(* ===== verification/Constants.thy ===== *)
theory Constants
  imports Types
begin

text \<open>
  \<open>protocol/mysql/constants.h\<close>: capability flags, commands, status flags, column types, packet
  headers and error codes, with the namespace of the source as a prefix.
\<close>

section \<open>Capability flags\<close>

definition caps_LONG_PASSWORD :: u32 where
  "caps_LONG_PASSWORD = 0x00000001"

definition caps_FOUND_ROWS :: u32 where
  "caps_FOUND_ROWS = 0x00000002"

definition caps_LONG_FLAG :: u32 where
  "caps_LONG_FLAG = 0x00000004"

definition caps_CONNECT_WITH_DB :: u32 where
  "caps_CONNECT_WITH_DB = 0x00000008"

definition caps_NO_SCHEMA :: u32 where
  "caps_NO_SCHEMA = 0x00000010"

definition caps_PROTOCOL_41 :: u32 where
  "caps_PROTOCOL_41 = 0x00000200"

definition caps_INTERACTIVE :: u32 where
  "caps_INTERACTIVE = 0x00000400"

definition caps_SSL :: u32 where
  "caps_SSL = 0x00000800"

definition caps_TRANSACTIONS :: u32 where
  "caps_TRANSACTIONS = 0x00002000"

definition caps_SECURE_CONNECTION :: u32 where
  "caps_SECURE_CONNECTION = 0x00008000"

definition caps_MULTI_STATEMENTS :: u32 where
  "caps_MULTI_STATEMENTS = 0x00010000"

definition caps_MULTI_RESULTS :: u32 where
  "caps_MULTI_RESULTS = 0x00020000"

definition caps_PS_MULTI_RESULTS :: u32 where
  "caps_PS_MULTI_RESULTS = 0x00040000"

definition caps_PLUGIN_AUTH :: u32 where
  "caps_PLUGIN_AUTH = 0x00080000"

definition caps_CONNECT_ATTRS :: u32 where
  "caps_CONNECT_ATTRS = 0x00100000"

definition caps_PLUGIN_AUTH_LENENC :: u32 where
  "caps_PLUGIN_AUTH_LENENC = 0x00200000"

definition caps_CAN_HANDLE_EXPIRED :: u32 where
  "caps_CAN_HANDLE_EXPIRED = 0x00400000"

definition caps_SESSION_TRACK :: u32 where
  "caps_SESSION_TRACK = 0x00800000"

definition caps_DEPRECATE_EOF :: u32 where
  "caps_DEPRECATE_EOF = 0x01000000"

definition caps_SERVER_FLAGS :: u32 where
  "caps_SERVER_FLAGS =
     caps_LONG_PASSWORD OR caps_FOUND_ROWS OR caps_LONG_FLAG OR caps_CONNECT_WITH_DB OR caps_PROTOCOL_41 OR caps_TRANSACTIONS OR caps_SECURE_CONNECTION OR caps_MULTI_STATEMENTS OR caps_MULTI_RESULTS OR caps_PS_MULTI_RESULTS OR caps_PLUGIN_AUTH"

section \<open>Command bytes\<close>

definition cmd_SLEEP :: u8 where
  "cmd_SLEEP = 0x00"

definition cmd_QUIT :: u8 where
  "cmd_QUIT = 0x01"

definition cmd_INIT_DB :: u8 where
  "cmd_INIT_DB = 0x02"

definition cmd_QUERY :: u8 where
  "cmd_QUERY = 0x03"

definition cmd_FIELD_LIST :: u8 where
  "cmd_FIELD_LIST = 0x04"

definition cmd_PING :: u8 where
  "cmd_PING = 0x0E"

definition cmd_STATISTICS :: u8 where
  "cmd_STATISTICS = 0x09"

definition cmd_SET_OPTION :: u8 where
  "cmd_SET_OPTION = 0x1B"

definition cmd_STMT_PREPARE :: u8 where
  "cmd_STMT_PREPARE = 0x16"

definition cmd_STMT_EXECUTE :: u8 where
  "cmd_STMT_EXECUTE = 0x17"

definition cmd_STMT_CLOSE :: u8 where
  "cmd_STMT_CLOSE = 0x19"

definition cmd_STMT_RESET :: u8 where
  "cmd_STMT_RESET = 0x1A"

section \<open>Status flags\<close>

definition status_IN_TRANSACTION :: u16 where
  "status_IN_TRANSACTION = 0x0001"

definition status_AUTOCOMMIT :: u16 where
  "status_AUTOCOMMIT = 0x0002"

definition status_MORE_RESULTS :: u16 where
  "status_MORE_RESULTS = 0x0008"

definition status_NO_GOOD_INDEX :: u16 where
  "status_NO_GOOD_INDEX = 0x0010"

definition status_NO_INDEX :: u16 where
  "status_NO_INDEX = 0x0020"

definition status_CURSOR_EXISTS :: u16 where
  "status_CURSOR_EXISTS = 0x0040"

definition status_LAST_ROW_SENT :: u16 where
  "status_LAST_ROW_SENT = 0x0080"

section \<open>Column types\<close>

definition col_type_DECIMAL :: u8 where
  "col_type_DECIMAL = 0x00"

definition col_type_TINY :: u8 where
  "col_type_TINY = 0x01"

definition col_type_SHORT :: u8 where
  "col_type_SHORT = 0x02"

definition col_type_LONG :: u8 where
  "col_type_LONG = 0x03"

definition col_type_FLOAT :: u8 where
  "col_type_FLOAT = 0x04"

definition col_type_DOUBLE :: u8 where
  "col_type_DOUBLE = 0x05"

definition col_type_LONGLONG :: u8 where
  "col_type_LONGLONG = 0x08"

definition col_type_VARCHAR :: u8 where
  "col_type_VARCHAR = 0x0F"

definition col_type_VAR_STRING :: u8 where
  "col_type_VAR_STRING = 0xFD"

definition col_type_STRING :: u8 where
  "col_type_STRING = 0xFE"

section \<open>Character sets\<close>

definition charset_UTF8MB4 :: u8 where
  "charset_UTF8MB4 = 0x2D"

definition charset_BINARY :: u8 where
  "charset_BINARY = 0x3F"

definition OK_PACKET :: u8 where
  "OK_PACKET = 0x00"

definition ERR_PACKET :: u8 where
  "ERR_PACKET = 0xFF"

definition EOF_PACKET :: u8 where
  "EOF_PACKET = 0xFE"

definition NATIVE_PASSWORD :: string where
  "NATIVE_PASSWORD = ''mysql_native_password''"

definition CACHING_SHA2 :: string where
  "CACHING_SHA2 = ''caching_sha2_password''"

section \<open>Error codes\<close>

definition err_CON_COUNT_ERROR :: u16 where
  "err_CON_COUNT_ERROR = 1040"

definition err_DBACCESS_DENIED :: u16 where
  "err_DBACCESS_DENIED = 1044"

definition err_ACCESS_DENIED :: u16 where
  "err_ACCESS_DENIED = 1045"

definition err_NOT_ALLOWED_COMMAND :: u16 where
  "err_NOT_ALLOWED_COMMAND = 1148"

definition err_UNKNOWN_COM_ERROR :: u16 where
  "err_UNKNOWN_COM_ERROR = 1047"

definition err_NO_DB_ERROR :: u16 where
  "err_NO_DB_ERROR = 1046"

section \<open>Bundles\<close>

lemmas caps_defs =
  caps_LONG_PASSWORD_def caps_FOUND_ROWS_def caps_LONG_FLAG_def caps_CONNECT_WITH_DB_def
  caps_NO_SCHEMA_def caps_PROTOCOL_41_def caps_INTERACTIVE_def caps_SSL_def caps_TRANSACTIONS_def
  caps_SECURE_CONNECTION_def caps_MULTI_STATEMENTS_def caps_MULTI_RESULTS_def
  caps_PS_MULTI_RESULTS_def caps_PLUGIN_AUTH_def caps_CONNECT_ATTRS_def caps_PLUGIN_AUTH_LENENC_def
  caps_CAN_HANDLE_EXPIRED_def caps_SESSION_TRACK_def caps_DEPRECATE_EOF_def

lemmas header_defs =
  OK_PACKET_def ERR_PACKET_def EOF_PACKET_def

text \<open>The flags that DBMesh advertises, as one number; \<open>DEPRECATE_EOF\<close> is not among them.\<close>

lemma SERVER_FLAGS_eq: "caps_SERVER_FLAGS = 0xFA20F"
  by (simp add: caps_SERVER_FLAGS_def caps_defs)

lemma no_deprecate_eof: "caps_SERVER_FLAGS AND caps_DEPRECATE_EOF = 0"
  by (simp add: SERVER_FLAGS_eq caps_DEPRECATE_EOF_def)

end
