(* ===== verification/Codec.thy ===== *)
theory Codec
  imports Constants
begin

text \<open>
  \<open>protocol/mysql/codec.h\<close>: the little-endian, NUL-terminated and length-encoded fields of the
  wire format. A buffer is a list of bytes and a position a natural number. A read that would
  leave the buffer, an invalid iterator range and a string longer than \<open>max_size()\<close> have no
  normal result in C++: they are \<^const>\<open>None\<close>, so a theorem that a reader is not \<^const>\<open>None\<close> is
  memory safety. Sums with a 64-bit length from the wire are taken modulo \<open>2 ^ 64\<close>, as
  \<open>std::size_t\<close> does; other sums of a position and a small constant cannot wrap, as no buffer has
  \<open>2 ^ 64 - 32\<close> bytes.
\<close>

section \<open>Characters and bytes\<close>

definition byte_of :: "char \<Rightarrow> u8" where
  "byte_of c = word_of_nat (of_char c)"

definition char_at :: "u8 \<Rightarrow> char" where
  "char_at b = char_of (unat b)"

lemma unat_byte_of [simp]: "unat (byte_of c) = of_char c"
  using nat_of_char_less_256 [of c] by (simp add: byte_of_def unat_of_nat)

lemma char_at_byte_of [simp]: "char_at (byte_of c) = c"
  by (simp add: char_at_def)

lemma byte_of_char_at [simp]: "byte_of (char_at b) = b"
  using unsigned_less [of b, where 'a = nat] by (simp add: byte_of_def char_at_def)

lemma map_char_at_byte_of [simp]: "map (char_at \<circ> byte_of) s = s"
  by (simp add: comp_def)

lemma byte_of_eq_iff [simp]: "byte_of c = byte_of d \<longleftrightarrow> c = d"
  by (metis char_at_byte_of)

section \<open>Write helpers\<close>

definition write_u8 :: "bytes \<Rightarrow> u8 \<Rightarrow> bytes" where
  "write_u8 buf v = buf @ [v]"

definition write_u16_le :: "bytes \<Rightarrow> u16 \<Rightarrow> bytes" where
  "write_u16_le buf v = buf @ [ucast (v AND 0xFF), ucast (drop_bit 8 v AND 0xFF)]"

definition write_u24_le :: "bytes \<Rightarrow> u32 \<Rightarrow> bytes" where
  "write_u24_le buf v =
     buf @ [ucast (v AND 0xFF), ucast (drop_bit 8 v AND 0xFF), ucast (drop_bit 16 v AND 0xFF)]"

definition write_u32_le :: "bytes \<Rightarrow> u32 \<Rightarrow> bytes" where
  "write_u32_le buf v =
     buf @ [ucast (v AND 0xFF), ucast (drop_bit 8 v AND 0xFF), ucast (drop_bit 16 v AND 0xFF),
            ucast (drop_bit 24 v AND 0xFF)]"

definition write_bytes :: "bytes \<Rightarrow> bytes \<Rightarrow> bytes" where
  "write_bytes buf data = buf @ data"

definition write_null_str :: "bytes \<Rightarrow> string \<Rightarrow> bytes" where
  "write_null_str buf s = buf @ map byte_of s @ [0x00]"

definition write_lenenc_int :: "bytes \<Rightarrow> u64 \<Rightarrow> bytes" where
  "write_lenenc_int buf v =
     (if v < 251 then buf @ [ucast v]
      else if v < 65536 then write_u16_le (buf @ [0xFC]) (ucast v)
      else if v < 16777216 then write_u24_le (buf @ [0xFD]) (ucast v)
      else buf @ [0xFE] @ map (\<lambda>i. ucast (drop_bit (8 * i) v AND 0xFF)) [0..<8])"

definition write_lenenc_str :: "bytes \<Rightarrow> string \<Rightarrow> bytes" where
  "write_lenenc_str buf s = write_lenenc_int buf (word_of_nat (length s)) @ map byte_of s"

section \<open>Read helpers\<close>

definition rd :: "bytes \<Rightarrow> nat \<Rightarrow> u8 option" where
  "rd data i = (if i < length data then Some (data ! i) else None)"

definition read_u16_le :: "bytes \<Rightarrow> nat \<Rightarrow> u16 option" where
  "read_u16_le data p = do {
     b0 \<leftarrow> rd data p; b1 \<leftarrow> rd data (p + 1);
     Some (ucast b0 OR push_bit 8 (ucast b1)) }"

definition read_u24_le :: "bytes \<Rightarrow> nat \<Rightarrow> u32 option" where
  "read_u24_le data p = do {
     b0 \<leftarrow> rd data p; b1 \<leftarrow> rd data (p + 1); b2 \<leftarrow> rd data (p + 2);
     Some (ucast b0 OR push_bit 8 (ucast b1) OR push_bit 16 (ucast b2)) }"

definition read_u32_le :: "bytes \<Rightarrow> nat \<Rightarrow> u32 option" where
  "read_u32_le data p = do {
     b0 \<leftarrow> rd data p; b1 \<leftarrow> rd data (p + 1); b2 \<leftarrow> rd data (p + 2); b3 \<leftarrow> rd data (p + 3);
     Some (ucast b0 OR push_bit 8 (ucast b1) OR push_bit 16 (ucast b2) OR push_bit 24 (ucast b3)) }"

text \<open>The loop over the eight bytes of a 64-bit integer.\<close>

fun read_u64_loop :: "bytes \<Rightarrow> nat \<Rightarrow> nat \<Rightarrow> nat \<Rightarrow> u64 \<Rightarrow> (u64 \<times> nat) option" where
  "read_u64_loop data pos i 0 v = Some (v, pos)"
| "read_u64_loop data pos i (Suc n) v = do {
     b \<leftarrow> rd data pos;
     read_u64_loop data (pos + 1) (i + 1) n (v OR push_bit (8 * i) (ucast b)) }"

definition read_lenenc_int :: "bytes \<Rightarrow> nat \<Rightarrow> (u64 \<times> nat) option" where
  "read_lenenc_int data pos =
     (let size = length data in
      if pos \<ge> size then Some (0, pos)
      else do {
        first \<leftarrow> rd data pos;
        let pos = pos + 1;
        if first < 0xFB then Some (ucast first, pos)
        else if first = 0xFC then
          (if pos + 2 > size then Some (0, pos)
           else do { v \<leftarrow> read_u16_le data pos; Some (ucast v, pos + 2) })
        else if first = 0xFD then
          (if pos + 3 > size then Some (0, pos)
           else do { v \<leftarrow> read_u24_le data pos; Some (ucast v, pos + 3) })
        else if pos + 8 > size then Some (0, pos)
        else read_u64_loop data pos 0 8 0 })"

function read_null_loop :: "bytes \<Rightarrow> nat \<Rightarrow> string \<Rightarrow> string \<times> nat" where
  "read_null_loop data pos s =
     (if pos < length data \<and> data ! pos \<noteq> 0x00
      then read_null_loop data (pos + 1) (s @ [char_at (data ! pos)])
      else (s, pos))"
  by pat_completeness auto
termination
  by (relation "measure (\<lambda>(data, pos, s). length data - pos)") auto

declare read_null_loop.simps [simp del]

definition read_null_str :: "bytes \<Rightarrow> nat \<Rightarrow> string \<times> nat" where
  "read_null_str data pos =
     (let (s, p) = read_null_loop data pos [] in (s, if p < length data then p + 1 else p))"

text \<open>
  \<open>std::string(data + pos, len)\<close> reads \<open>len\<close> bytes: it throws or leaves the buffer unless they
  are all there.
\<close>

definition take_bytes :: "bytes \<Rightarrow> nat \<Rightarrow> nat \<Rightarrow> bytes option" where
  "take_bytes data pos len =
     (if pos + len \<le> length data then Some (take len (drop pos data)) else None)"

definition read_lenenc_str :: "bytes \<Rightarrow> nat \<Rightarrow> (string \<times> nat) option" where
  "read_lenenc_str data pos = do {
     (len, pos) \<leftarrow> read_lenenc_int data pos;
     if (pos + unat len) mod 2 ^ 64 > length data then Some ([], pos)
     else do {
       s \<leftarrow> take_bytes data pos (unat len);
       Some (map char_at s, (pos + unat len) mod 2 ^ 64) } }"

section \<open>The contract of a field codec\<close>

text \<open>
  A writer appends to the buffer and never looks at it; a reader started where a valid value was
  written returns that value and the position behind it, whatever surrounds it.
\<close>

locale field_codec =
  fixes wr :: "bytes \<Rightarrow> 'a \<Rightarrow> bytes"
    and re :: "bytes \<Rightarrow> nat \<Rightarrow> ('a \<times> nat) option"
    and valid :: "'a \<Rightarrow> bool"
  assumes wr_append: "wr buf v = buf @ wr [] v"
    and re_wr: "valid v \<Longrightarrow> length pre + length (wr [] v) + length post < 2 ^ 64 \<Longrightarrow>
      re (pre @ wr [] v @ post) (length pre) = Some (v, length pre + length (wr [] v))"
begin

lemma re_wr_at:
  assumes "valid v" "length (wr buf v @ post) < 2 ^ 64"
  shows "re (wr buf v @ post) (length buf) = Some (v, length (wr buf v))"
  using assms re_wr [of v buf post] by (simp add: wr_append [of buf])

text \<open>A reader for a sequence of \<open>n\<close> fields.\<close>

primrec re_n :: "nat \<Rightarrow> bytes \<Rightarrow> nat \<Rightarrow> ('a list \<times> nat) option" where
  "re_n 0 data pos = Some ([], pos)"
| "re_n (Suc n) data pos = do {
     (v, p) \<leftarrow> re data pos;
     (vs, q) \<leftarrow> re_n n data p;
     Some (v # vs, q) }"

lemma fold_wr_append: "fold (\<lambda>v b. wr b v) vs buf = buf @ fold (\<lambda>v b. wr b v) vs []"
proof (induction vs arbitrary: buf)
  case (Cons v vs)
  show ?case
    using Cons.IH [of "wr buf v"] Cons.IH [of "wr [] v"] by (simp add: wr_append [of buf])
qed simp

lemma re_n_fold:
  assumes "list_all valid vs" "length (fold (\<lambda>v b. wr b v) vs buf @ post) < 2 ^ 64"
  shows "re_n (length vs) (fold (\<lambda>v b. wr b v) vs buf @ post) (length buf) =
    Some (vs, length (fold (\<lambda>v b. wr b v) vs buf))"
  using assms
proof (induction vs arbitrary: buf)
  case (Cons v vs)
  let ?b = "wr buf v" and ?r = "fold (\<lambda>v b. wr b v) vs []"
  have eq: "fold (\<lambda>v b. wr b v) vs ?b @ post = ?b @ (?r @ post)"
    by (simp add: fold_wr_append [of _ ?b])
  have "re (?b @ (?r @ post)) (length buf) = Some (v, length ?b)"
    using Cons.prems eq by (intro re_wr_at) simp_all
  moreover have "re_n (length vs) (?b @ (?r @ post)) (length ?b) =
      Some (vs, length (fold (\<lambda>v b. wr b v) vs ?b))"
    using Cons.IH [of ?b] Cons.prems eq by simp
  ultimately show ?case using eq by simp
qed simp

end

section \<open>Fields at a position\<close>

lemma rd_append [simp]: "length pre \<le> i \<Longrightarrow> rd (pre @ data) i = rd data (i - length pre)"
  by (auto simp: rd_def nth_append)

lemma rd_Cons [simp]: "rd (b # data) 0 = Some b" "rd (b # data) (Suc i) = rd data i"
    "rd (b # data) (numeral k) = rd data (pred_numeral k)"
  by (simp_all add: rd_def numeral_eq_Suc)

lemma low_byte: "ucast (w AND 0xFF) = (ucast w :: u8)" for w :: "'a::len word"
proof -
  have "w AND 0xFF = take_bit 8 w" by (simp add: take_bit_eq_mask mask_eq_exp_minus_1)
  then show ?thesis by (auto intro: bit_word_eqI simp: bit_simps)
qed

lemma byte_back: "ucast (ucast w :: u8) = take_bit 8 w" for w :: "'a::len word"
  by (rule bit_word_eqI) (auto simp: bit_simps)

lemma take_bit_word_width: "take_bit LENGTH('a) v = v" for v :: "'a::len word"
  by (rule bit_word_eqI) (auto simp: bit_simps)

lemma take_bit_u16 [simp]: "take_bit 16 v = v" for v :: u16 using take_bit_word_width [of v] by simp
lemma take_bit_u32 [simp]: "take_bit 32 v = v" for v :: u32 using take_bit_word_width [of v] by simp
lemma take_bit_u64 [simp]: "take_bit 64 v = v" for v :: u64 using take_bit_word_width [of v] by simp

lemma take_bit_join: "take_bit k v OR push_bit k (take_bit m (drop_bit k v)) = take_bit (k + m) v" for v :: "'a::len word"
  by (rule bit_word_eqI) (auto simp: bit_simps)

lemma le16: "ucast (ucast (v AND 0xFF) :: u8) OR push_bit 8 (ucast (ucast (drop_bit 8 v AND 0xFF) :: u8)) = (v :: u16)"
  by (simp add: low_byte byte_back take_bit_join)

lemma le24: "ucast (ucast (v AND 0xFF) :: u8) OR push_bit 8 (ucast (ucast (drop_bit 8 v AND 0xFF) :: u8)) 
  OR push_bit 16 (ucast (ucast (drop_bit 16 v AND 0xFF) :: u8)) = take_bit 24 (v :: u32)"
  by (simp add: low_byte byte_back take_bit_join flip: or.assoc)

lemma le32: "ucast (ucast (v AND 0xFF) :: u8) OR push_bit 8 (ucast (ucast (drop_bit 8 v AND 0xFF) :: u8)) 
  OR push_bit 16 (ucast (ucast (drop_bit 16 v AND 0xFF) :: u8)) OR push_bit 24 (ucast (ucast (drop_bit 24 v AND 0xFF) :: u8)) = (v :: u32)"
  by (simp add: low_byte byte_back take_bit_join flip: or.assoc)

lemma u16_at:
  "read_u16_le (pre @ write_u16_le [] v @ post) (length pre) = Some v"
  by (simp add: read_u16_le_def write_u16_le_def le16)

lemma u24_at:
  "read_u24_le (pre @ write_u24_le [] v @ post) (length pre) = Some (take_bit 24 v)"
  by (simp add: read_u24_le_def write_u24_le_def le24)

lemma u32_at:
  "read_u32_le (pre @ write_u32_le [] v @ post) (length pre) = Some v"
  by (simp add: read_u32_le_def write_u32_le_def le32)

lemma take_bit_small: "unat v < 2 ^ n \<Longrightarrow> take_bit n v = v" for v :: "'a::len word"
  by (rule unsigned_word_eqI [where 'a = nat]) (simp add: unsigned_take_bit_eq take_bit_nat_eq_self)

lemma ucast_back16: "ucast (ucast v :: u16) = take_bit 16 v" for v :: u64
  by (rule bit_word_eqI) (auto simp: bit_simps)

lemma ucast_back24: "ucast (take_bit 24 (ucast v :: u32)) = take_bit 24 v" for v :: u64
  by (rule bit_word_eqI) (auto simp: bit_simps)

lemma u64_loop_at:
  "read_u64_loop (pre @ map (\<lambda>i. ucast (drop_bit (8 * i) v AND 0xFF)) [i..<i + n] @ post) (length pre) i n
     (take_bit (8 * i) v) = Some (take_bit (8 * (i + n)) v, length pre + n)"
proof (induction n arbitrary: pre i)
  case (Suc n)
  let ?f = "\<lambda>i. ucast (drop_bit (8 * i) v AND 0xFF) :: u8"
  have "map ?f [i..<i + Suc n] = ?f i # map ?f [Suc i..<Suc i + n]"
    by (subst upt_conv_Cons) simp_all
  moreover have "take_bit (8 * i) v OR push_bit (8 * i) (ucast (?f i)) = take_bit (8 * Suc i) v"
    by (simp add: low_byte byte_back take_bit_join add.commute)
  ultimately show ?case
    using Suc.IH [of "pre @ [?f i]" "Suc i"] by simp
qed simp

lemma lenenc_at:
  "read_lenenc_int (pre @ write_lenenc_int [] v @ post) (length pre) =
   Some (v, length pre + length (write_lenenc_int [] v))"
proof -
  consider "v < 251" | "\<not> v < 251" "v < 65536" | "\<not> v < 65536" "v < 16777216" | "\<not> v < 16777216"
    by blast
  then show ?thesis
  proof cases
    case 1
    then have "unat v < 251" by (simp add: word_less_nat_alt)
    then have "(ucast v :: u8) < 0xFB" "ucast (ucast v :: u8) = v"
      by (simp_all add: word_less_nat_alt unsigned_ucast_eq take_bit_nat_eq_self byte_back take_bit_small)
    with 1 show ?thesis by (simp add: read_lenenc_int_def write_lenenc_int_def)
  next
    case 2
    then have "take_bit 16 v = v" by (simp add: take_bit_small word_less_nat_alt)
    with 2 u16_at [of "pre @ [0xFC]" "ucast v" post] show ?thesis
      by (simp add: read_lenenc_int_def write_lenenc_int_def write_u16_le_def ucast_back16)
  next
    case 3
    then have "take_bit 24 v = v" "\<not> v < 251" by (simp_all add: take_bit_small word_less_nat_alt)
    with 3 u24_at [of "pre @ [0xFD]" "ucast v" post] show ?thesis
      by (simp add: read_lenenc_int_def write_lenenc_int_def write_u24_le_def ucast_back24)
  next
    case 4
    then have "\<not> v < 251" "\<not> v < 65536" by (simp_all add: word_less_nat_alt)
    with 4 u64_loop_at [of "pre @ [0xFE]" v 0 8 post] show ?thesis
      by (simp add: read_lenenc_int_def write_lenenc_int_def)
  qed
qed

lemma null_loop_at:
  "0 \<notin> set (map byte_of s) \<Longrightarrow>
   read_null_loop (pre @ map byte_of s @ 0 # post) (length pre) acc = (acc @ s, length pre + length s)"
proof (induction s arbitrary: pre acc)
  case Nil
  show ?case by (simp add: read_null_loop.simps [of "pre @ _"])
next
  case (Cons c s)
  show ?case
    using Cons.IH [of "pre @ [byte_of c]" "acc @ [c]"] Cons.prems
    by (simp add: read_null_loop.simps [of "pre @ _" "length pre"])
qed

lemma byte_of_0: "byte_of c = 0 \<longleftrightarrow> c = CHR 0x00"
proof -
  have "byte_of (CHR 0x00) = 0" by (simp add: byte_of_def)
  then show ?thesis using byte_of_eq_iff [of c "CHR 0x00"] by simp
qed

lemma null_str_at:
  assumes "CHR 0x00 \<notin> set s"
  shows "read_null_str (pre @ write_null_str [] s @ post) (length pre) =
    (s, length pre + length (write_null_str [] s))"
proof -
  have "0 \<notin> set (map byte_of s)" using assms byte_of_0 by (auto simp: image_iff)
  then show ?thesis by (simp add: read_null_str_def write_null_str_def null_loop_at)
qed

lemma lenenc_str_at:
  assumes "length pre + length (write_lenenc_str [] s) + length post < 2 ^ 64"
  shows "read_lenenc_str (pre @ write_lenenc_str [] s @ post) (length pre) = 
     Some (s, length pre + length (write_lenenc_str [] s))"
proof -
  have len: "unat (word_of_nat (length s) :: u64) = length s"
    using assms by (simp add: write_lenenc_str_def unat_of_nat)
  have "take_bytes (pre @ w @ map byte_of s @ post) (length pre + length w) (length s) = Some (map byte_of s)" for w
    by (simp add: take_bytes_def)
  with lenenc_at [of pre "word_of_nat (length s)" "map byte_of s @ post"] len assms show ?thesis
    by (simp add: read_lenenc_str_def write_lenenc_str_def)
qed

lemma write_lenenc_int_append: "write_lenenc_int buf v = buf @ write_lenenc_int [] v"
  by (simp add: write_lenenc_int_def write_u16_le_def write_u24_le_def)


lemma write_lenenc_str_append: "write_lenenc_str buf v = buf @ write_lenenc_str [] v"
  by (simp add: write_lenenc_str_def write_lenenc_int_append [of buf])

lemma write_null_str_append: "write_null_str buf v = buf @ write_null_str [] v"
  by (simp add: write_null_str_def)

section \<open>The fields are codecs\<close>

interpretation u16c: field_codec write_u16_le "\<lambda>d p. map_option (\<lambda>v. (v, p + 2)) (read_u16_le d p)" "\<lambda>_. True"
  by unfold_locales (simp_all only: u16_at, simp_all add: write_u16_le_def)

interpretation u24c: field_codec write_u24_le "\<lambda>d p. map_option (\<lambda>v. (v, p + 3)) (read_u24_le d p)" "\<lambda>v. unat v < 2 ^ 24"
  by unfold_locales (simp_all only: u24_at take_bit_small, simp_all add: write_u24_le_def)

interpretation u32c: field_codec write_u32_le "\<lambda>d p. map_option (\<lambda>v. (v, p + 4)) (read_u32_le d p)" "\<lambda>_. True"
  by unfold_locales (simp_all only: u32_at, simp_all add: write_u32_le_def)

interpretation leni: field_codec write_lenenc_int read_lenenc_int "\<lambda>_. True"
  by unfold_locales (rule write_lenenc_int_append, rule lenenc_at)

interpretation nstr: field_codec write_null_str "\<lambda>d p. Some (read_null_str d p)" "\<lambda>s. CHR 0x00 \<notin> set s"
  by unfold_locales (rule write_null_str_append, simp add: null_str_at)

interpretation lens: field_codec write_lenenc_str read_lenenc_str "\<lambda>_. True"
  by unfold_locales (rule write_lenenc_str_append, rule lenenc_str_at)

section \<open>Memory safety\<close>

lemma rd_in: "i < length data \<Longrightarrow> rd data i \<noteq> None"
  by (simp add: rd_def)

lemma read_u16_in: "p + 2 \<le> length data \<Longrightarrow> \<exists>v. read_u16_le data p = Some v"
  by (simp add: read_u16_le_def rd_def)

lemma read_u24_in: "p + 3 \<le> length data \<Longrightarrow> \<exists>v. read_u24_le data p = Some v"
  by (simp add: read_u24_le_def rd_def)

lemma read_u32_in: "p + 4 \<le> length data \<Longrightarrow> \<exists>v. read_u32_le data p = Some v"
  by (simp add: read_u32_le_def rd_def)

lemma read_u64_loop_in:
  "p + n \<le> length data \<Longrightarrow> \<exists>w. read_u64_loop data p i n v = Some (w, p + n)"
proof (induction n arbitrary: p i v)
  case (Suc n)
  then show ?case using Suc.IH [of "Suc p"] by (simp add: rd_def)
qed simp

lemma read_lenenc_int_in:
  "\<exists>v q. read_lenenc_int data p = Some (v, q) \<and> p \<le> q \<and> q \<le> max p (length data)"
proof (cases "p < length data")
  case True
  have bnd: "q \<le> max p (length data)" if "q \<le> length data" for q using that by simp
  show ?thesis
    using True read_u16_in [of "p + 1" data] read_u24_in [of "p + 1" data] read_u64_loop_in [of "p + 1" 8 data 0 0]
    by (cases "data ! p < 0xFB"; cases "data ! p = 0xFC"; cases "data ! p = 0xFD")
       (simp add: read_lenenc_int_def rd_def Let_def del: max_def; force)+
qed (simp add: read_lenenc_int_def)

lemma read_null_loop_in:
  "read_null_loop data p s = (t, q) \<Longrightarrow> p \<le> q \<and> q \<le> max p (length data)"
proof (induction data p s rule: read_null_loop.induct)
  case (1 data p s)
  then show ?case
    by (cases "p < length data \<and> data ! p \<noteq> 0") (auto simp: read_null_loop.simps [of data p s])
qed

lemma read_null_str_in:
  "read_null_str data p = (t, q) \<Longrightarrow> p \<le> q \<and> q \<le> max p (length data)"
  using read_null_loop_in [of data p "[]"] by (auto simp: read_null_str_def split: prod.splits if_splits)

section \<open>Properties\<close>

text \<open>A length-encoded integer of any 64-bit value reads back as itself wherever it stands in a
  packet, and the position moves exactly behind it.\<close>

lemma lenenc_int_roundtrip:
  "read_lenenc_int (pre @ write_lenenc_int [] v @ post) (length pre) =
   Some (v, length pre + length (write_lenenc_int [] v))"
  by (rule lenenc_at)

text \<open>Decoding a length-encoded integer never reads outside the packet, whatever the bytes and
  the position, and the position it leaves is inside the packet when it started there.\<close>

lemma read_lenenc_int_safe:
  "\<exists>v q. read_lenenc_int data p = Some (v, q) \<and> p \<le> q \<and> q \<le> max p (length data)"
  by (rule read_lenenc_int_in)

text \<open>The bound check of \<open>read_lenenc_str\<close> wraps: nine bytes that announce a length of
  \<open>2 ^ 64 - 1\<close> pass it, and the string constructor has no normal result.\<close>

lemma read_lenenc_str_wraps:
  "read_lenenc_int (0xFE # replicate 8 0xFF) 0 = Some (- 1, 9) \<and>
   (9 + unat (- 1 :: u64)) mod 2 ^ 64 \<le> length ((0xFE :: u8) # replicate 8 0xFF) \<and>
   read_lenenc_str (0xFE # replicate 8 0xFF) 0 = None"
proof -
  have "read_lenenc_int (0xFE # replicate 8 0xFF) 0 = Some (- 1, 9)" by code_simp
  then show ?thesis
    by (simp add: read_lenenc_str_def take_bytes_def unsigned_minus_1_eq_mask mask_eq_exp_minus_1)
qed

end
