(* ===== verification/Packets.thy ===== *)
theory Packets
  imports Codec
begin

text \<open>
  \<open>protocol/mysql/packets.h\<close>: the builders of OK, ERR and EOF packets and of text result sets.
\<close>

section \<open>Builders\<close>

definition make_ok :: "u64 \<Rightarrow> u64 \<Rightarrow> u16 \<Rightarrow> u16 \<Rightarrow> bytes" where
  "make_ok affected_rows last_insert_id status_flags warnings =
     (let buf = write_u8 [] OK_PACKET;
          buf = write_lenenc_int buf affected_rows;
          buf = write_lenenc_int buf last_insert_id;
          buf = write_u16_le buf status_flags
      in write_u16_le buf warnings)"

definition pad_state :: "string \<Rightarrow> string" where
  "pad_state sql_state = (let state = take 5 sql_state in state @ replicate (5 - length state) (CHR ''0''))"

definition make_err :: "u16 \<Rightarrow> string \<Rightarrow> string \<Rightarrow> bytes" where
  "make_err error_code sql_state message =
     (let buf = write_u8 [] ERR_PACKET;
          buf = write_u16_le buf error_code;
          buf = write_u8 buf (byte_of (CHR ''#''));
          buf = buf @ map byte_of (pad_state sql_state)
      in buf @ map byte_of message)"

definition make_eof :: "u16 \<Rightarrow> u16 \<Rightarrow> bytes" where
  "make_eof warnings status_flags =
     write_u16_le (write_u16_le (write_u8 [] EOF_PACKET) warnings) status_flags"

definition make_column_count :: "u64 \<Rightarrow> bytes" where
  "make_column_count n = write_lenenc_int [] n"

definition make_column_def :: "string \<Rightarrow> u8 \<Rightarrow> u32 \<Rightarrow> u16 \<Rightarrow> u8 \<Rightarrow> bytes" where
  "make_column_def col_name col_type col_length col_flags col_charset =
     (let buf = write_lenenc_str [] ''def'';
          buf = write_lenenc_str buf [];
          buf = write_lenenc_str buf [];
          buf = write_lenenc_str buf [];
          buf = write_lenenc_str buf col_name;
          buf = write_lenenc_str buf [];
          buf = write_u8 buf 0x0C;
          buf = write_u8 buf col_charset;
          buf = write_u8 buf 0x00;
          buf = write_u32_le buf col_length;
          buf = write_u8 buf col_type;
          buf = write_u16_le buf col_flags;
          buf = write_u8 buf 0x00
      in write_u16_le buf 0x0000)"

definition make_text_row :: "string list \<Rightarrow> bytes" where
  "make_text_row values =
     fold (\<lambda>v buf. if v = [] then write_u8 buf 0xFB else write_lenenc_str buf v) values []"

section \<open>Reading rows back\<close>

text \<open>
  A client reads a cell of a text row as NULL when it starts with \<open>0xFB\<close> and as a
  length-encoded string otherwise.
\<close>

definition write_cell :: "bytes \<Rightarrow> string option \<Rightarrow> bytes" where
  "write_cell buf c = (case c of None \<Rightarrow> write_u8 buf 0xFB | Some s \<Rightarrow> write_lenenc_str buf s)"

definition read_cell :: "bytes \<Rightarrow> nat \<Rightarrow> (string option \<times> nat) option" where
  "read_cell data pos = do {
     b \<leftarrow> rd data pos;
     if b = 0xFB then Some (None, pos + 1)
     else map_option (\<lambda>(s, p). (Some s, p)) (read_lenenc_str data pos) }"

fun read_row :: "nat \<Rightarrow> bytes \<Rightarrow> nat \<Rightarrow> string option list option" where
  "read_row 0 data pos = Some []"
| "read_row (Suc n) data pos = do {
     (c, p) \<leftarrow> read_cell data pos;
     cs \<leftarrow> read_row n data p;
     Some (c # cs) }"

lemma lenenc_int_head:
  "\<exists>b bs. write_lenenc_int [] v = b # bs \<and> b \<noteq> 0xFB"
proof (cases "v < 251")
  case True
  then have "unat v < 251" by (simp add: word_less_nat_alt)
  then have "unat (ucast v :: u8) < 251" by (simp add: unsigned_ucast_eq take_bit_nat_eq_self)
  then have "(ucast v :: u8) \<noteq> 0xFB" by auto
  with True show ?thesis by (simp add: write_lenenc_int_def)
qed (simp add: write_lenenc_int_def write_u16_le_def write_u24_le_def)

interpretation cell: field_codec write_cell read_cell "\<lambda>_. True"
proof unfold_locales
  show "write_cell buf v = buf @ write_cell [] v" for buf v
    by (simp add: write_cell_def write_u8_def write_lenenc_str_append [of buf] split: option.splits)
next
  fix v :: "string option" and pre post :: bytes
  assume len: "length pre + length (write_cell [] v) + length post < 2 ^ 64"
  show "read_cell (pre @ write_cell [] v @ post) (length pre) = Some (v, length pre + length (write_cell [] v))"
  proof (cases v)
    case None
    then show ?thesis by (simp add: read_cell_def write_cell_def write_u8_def)
  next
    case (Some s)
    obtain b bs where "write_lenenc_int [] (word_of_nat (length s)) = b # bs" "b \<noteq> 0xFB"
      using lenenc_int_head by blast
    with Some len lenenc_str_at [of pre s post] show ?thesis
      by (simp add: read_cell_def write_cell_def write_lenenc_str_def)
  qed
qed

lemma make_text_row_cells:
  "make_text_row values = fold (\<lambda>c b. write_cell b c) (map (\<lambda>v. if v = [] then None else Some v) values) []"
  unfolding make_text_row_def fold_map comp_def write_cell_def
  by (rule fold_cong) auto

lemma read_row_n: "read_row n data pos = map_option fst (cell.re_n n data pos)"
  by (induction n arbitrary: pos) (auto split: bind_splits prod.splits)

text \<open>A text row of \<open>n\<close> values reads back as \<open>n\<close> cells in order; an empty value reads back as
  NULL, every other value as itself.\<close>

lemma text_row_roundtrip:
  assumes "length (make_text_row values) < 2 ^ 64"
  shows "read_row (length values) (make_text_row values) 0 =
    Some (map (\<lambda>v. if v = [] then None else Some v) values)"
  using cell.re_n_fold [of "map (\<lambda>v. if v = [] then None else Some v) values" "[]" "[]"] assms
  by (simp add: read_row_n make_text_row_cells list_all_iff)

text \<open>An ERR packet carries the code, the marker, exactly five state bytes and the message: a
  short SQL state is padded with zeros and a long one cut, so the message always starts at byte 9.\<close>

lemma make_err_layout:
  "take 1 (make_err code st msg) = [ERR_PACKET] \<and>
   read_u16_le (make_err code st msg) 1 = Some code \<and>
   map char_at (drop 9 (make_err code st msg)) = msg \<and>
   map char_at (take 5 (drop 4 (make_err code st msg))) = take 5 (st @ ''00000'')"
proof -
  have split: "make_err code st msg = [ERR_PACKET] @ write_u16_le [] code @ byte_of (CHR ''#'') # map byte_of (pad_state st) @ map byte_of msg"
    by (simp add: make_err_def write_u8_def write_u16_le_def)
  have len: "length (pad_state st) = 5" by (simp add: pad_state_def Let_def)
  have "''00000'' = replicate 5 (CHR ''0'')" by (simp add: numeral_eq_Suc)
  then have five: "pad_state st = take 5 st @ take (5 - length st) ''00000''"
    by (simp only: take_replicate) (simp add: pad_state_def Let_def)
  show ?thesis
    using u16_at [of "[ERR_PACKET]" code] len
    by (simp add: split five [symmetric] write_u16_le_def)
qed

end
