(* ===== verification/PacketFramer.thy ===== *)
theory PacketFramer
  imports Packets
begin

text \<open>
  \<open>protocol/mysql/packet_framer.cpp\<close>: framing of logical packets. The socket is a parameter: \<open>recv
  s n\<close> is \<open>asio::async_read\<close> into a buffer of \<open>n\<close> bytes and \<open>send s bs\<close> is \<open>asio::async_write\<close>, each
  with the error code as a result and the socket's state threaded. The two loops may run for
  ever, so they are \<open>partial_function (option)\<close> and \<^const>\<open>None\<close> means that they do not return.
\<close>

section \<open>Definitions\<close>

record MySqlPacket =
  pk_length :: u32
  pk_sequence :: u8
  pk_payload :: bytes

datatype IoError = READ_FAILED | WRITE_FAILED | PACKET_TOO_LARGE | CONNECTION_CLOSED

definition MAX_PACKET_SIZE :: nat where
  "MAX_PACKET_SIZE = 0xFFFFFF"

definition encode :: "bytes \<Rightarrow> u8 \<Rightarrow> bytes" where
  "encode payload sequence =
     (let len = word_of_nat (length payload) :: u32;
          frame = write_u24_le [] len;
          frame = write_u8 frame sequence
      in frame @ payload)"

definition decode :: "bytes \<Rightarrow> (MySqlPacket, IoError) result option" where
  "decode data =
     (let size = length data in
      if size < 4 then Some (Err READ_FAILED)
      else do {
        len \<leftarrow> read_u24_le data 0;
        sequence \<leftarrow> rd data 3;
        if unat (4 + len) > size then Some (Err READ_FAILED)
        else do {
          payload \<leftarrow> take_bytes data 4 (unat len);
          Some (Ok \<lparr>pk_length = len, pk_sequence = sequence, pk_payload = payload\<rparr>) } })"

text \<open>A zero-initialised buffer of \<open>n\<close> bytes that a read has filled.\<close>

definition fill :: "nat \<Rightarrow> bytes \<Rightarrow> bytes" where
  "fill n bs = take n (bs @ replicate n 0)"

partial_function (option) read_chain ::
  "('s \<Rightarrow> nat \<Rightarrow> bytes option \<times> 's) \<Rightarrow> 's \<Rightarrow> u32 \<Rightarrow> u8 \<Rightarrow> bytes
    \<Rightarrow> ((MySqlPacket, IoError) result \<times> 's) option" where
  "read_chain recv s len sequence payload =
     (if unat len = MAX_PACKET_SIZE
      then (case recv s 4 of
              (None, s1) \<Rightarrow> Some (Err READ_FAILED, s1)
            | (Some h, s1) \<Rightarrow> do {
                chunk_len \<leftarrow> read_u24_le (fill 4 h) 0;
                sequence \<leftarrow> rd (fill 4 h) 3;
                if chunk_len > 0
                then (case recv s1 (unat chunk_len) of
                        (None, s2) \<Rightarrow> Some (Err READ_FAILED, s2)
                      | (Some bs, s2) \<Rightarrow>
                          read_chain recv s2 chunk_len sequence (payload @ fill (unat chunk_len) bs))
                else read_chain recv s1 chunk_len sequence payload })
      else Some (Ok \<lparr>pk_length = word_of_nat (length payload), pk_sequence = sequence, pk_payload = payload\<rparr>, s))"

definition read_packet ::
  "('s \<Rightarrow> nat \<Rightarrow> bytes option \<times> 's) \<Rightarrow> 's \<Rightarrow> ((MySqlPacket, IoError) result \<times> 's) option" where
  "read_packet recv s =
     (case recv s 4 of
        (None, s1) \<Rightarrow> Some (Err READ_FAILED, s1)
      | (Some h, s1) \<Rightarrow> do {
          len \<leftarrow> read_u24_le (fill 4 h) 0;
          sequence \<leftarrow> rd (fill 4 h) 3;
          if unat len > MAX_PACKET_SIZE then Some (Err PACKET_TOO_LARGE, s1)
          else if len > 0
          then (case recv s1 (unat len) of
                  (None, s2) \<Rightarrow> Some (Err READ_FAILED, s2)
                | (Some bs, s2) \<Rightarrow> read_chain recv s2 len sequence (fill (unat len) bs))
          else read_chain recv s1 len sequence [] })"

definition chunk_header :: "nat \<Rightarrow> u8 \<Rightarrow> bytes" where
  "chunk_header chunk seq =
     (let c = word_of_nat chunk :: u64 in
      [ucast (c AND 0xFF), ucast (drop_bit 8 c AND 0xFF), ucast (drop_bit 16 c AND 0xFF), seq])"

partial_function (option) write_loop ::
  "('s \<Rightarrow> bytes \<Rightarrow> bool \<times> 's) \<Rightarrow> 's \<Rightarrow> bytes \<Rightarrow> nat \<Rightarrow> u8 \<Rightarrow> ((unit, IoError) result \<times> u8 \<times> 's) option" where
  "write_loop send s payload offset seq =
     (let chunk = min (length payload - offset) MAX_PACKET_SIZE;
          hdr = chunk_header chunk seq;
          seq = seq + 1
      in case send s (hdr @ take chunk (drop offset payload)) of
           (ok, s1) \<Rightarrow>
             (if \<not> ok then Some (Err WRITE_FAILED, seq, s1) else
              let offset = offset + chunk in
              if offset < length payload \<or>
                 length payload > 0 \<and> length payload mod MAX_PACKET_SIZE = 0
              then write_loop send s1 payload offset seq
              else Some (Ok (), seq, s1)))"

definition write_packet ::
  "('s \<Rightarrow> bytes \<Rightarrow> bool \<times> 's) \<Rightarrow> 's \<Rightarrow> bytes \<Rightarrow> u8 \<Rightarrow> ((unit, IoError) result \<times> u8 \<times> 's) option" where
  "write_packet send s payload seq = write_loop send s payload 0 seq"

section \<open>Headers\<close>

lemma chunk_header_eq: "chunk_header n seq = write_u24_le [] (word_of_nat n) @ [seq]"
proof -
  have "ucast (drop_bit k (word_of_nat n :: u64)) = (ucast (drop_bit k (word_of_nat n :: u32)) :: u8)" if "k \<le> 16" for k
    using that by (intro bit_word_eqI) (auto simp: bit_simps)
  from this [of 0] this [of 8] this [of 16] show ?thesis
    by (simp add: chunk_header_def write_u24_le_def low_byte)
qed

lemma length_chunk_header [simp]: "length (chunk_header n seq) = 4"
  by (simp add: chunk_header_def Let_def)

lemma fill_exact: "length bs = n \<Longrightarrow> fill n bs = bs"
  by (simp add: fill_def)

lemma header_len:
  assumes "n \<le> MAX_PACKET_SIZE"
  shows "read_u24_le (chunk_header n seq) 0 = Some (word_of_nat n)" "rd (chunk_header n seq) 3 = Some seq"
    "unat (word_of_nat n :: u32) = n"
proof -
  have n: "unat (word_of_nat n :: u32) = n"
    using assms by (simp add: MAX_PACKET_SIZE_def unat_of_nat)
  then have "take_bit 24 (word_of_nat n :: u32) = word_of_nat n"
    using assms by (intro take_bit_small) (simp add: MAX_PACKET_SIZE_def)
  with u24_at [of "[]" "word_of_nat n" "[seq]"]
  show "read_u24_le (chunk_header n seq) 0 = Some (word_of_nat n)" "rd (chunk_header n seq) 3 = Some seq"
    by (simp_all add: chunk_header_eq write_u24_le_def)
  show "unat (word_of_nat n :: u32) = n" by (rule n)
qed

lemma encode_eq: "length p \<le> MAX_PACKET_SIZE \<Longrightarrow> encode p seq = chunk_header (length p) seq @ p"
  by (simp add: encode_def write_u8_def chunk_header_eq)

lemma length_encode [simp]: "length (encode p seq) = 4 + length p"
  by (simp add: encode_def Let_def write_u8_def write_u24_le_def)

section \<open>The chunks of a logical packet\<close>

function wire :: "u8 \<Rightarrow> bytes \<Rightarrow> bytes" where
  "wire seq p =
     (if length p < MAX_PACKET_SIZE then encode p seq
      else encode (take MAX_PACKET_SIZE p) seq @ wire (seq + 1) (drop MAX_PACKET_SIZE p))"
  by pat_completeness auto
termination
  by (relation "measure (\<lambda>(seq, p). length p)") (auto simp: MAX_PACKET_SIZE_def)

declare wire.simps [simp del]

definition reliable_recv :: "('s \<Rightarrow> nat \<Rightarrow> bytes option \<times> 's) \<Rightarrow> ('s \<Rightarrow> bytes) \<Rightarrow> bool" where
  "reliable_recv recv inflight \<longleftrightarrow>
     (\<forall>s n. n \<le> length (inflight s) \<longrightarrow>
       (\<exists>s'. recv s n = (Some (take n (inflight s)), s') \<and> inflight s' = drop n (inflight s)))"

definition reliable_send :: "('s \<Rightarrow> bytes \<Rightarrow> bool \<times> 's) \<Rightarrow> ('s \<Rightarrow> bytes) \<Rightarrow> bool" where
  "reliable_send send inflight \<longleftrightarrow>
     (\<forall>s bs. \<exists>s'. send s bs = (True, s') \<and> inflight s' = inflight s @ bs)"

lemma recv_take:
  assumes "reliable_recv recv inflight" "inflight s = bs @ rest" "n = length bs"
  obtains s' where "recv s n = (Some bs, s')" "inflight s' = rest"
proof -
  have "n \<le> length (inflight s)" using assms by simp
  with assms(1) obtain s' where "recv s n = (Some (take n (inflight s)), s')" "inflight s' = drop n (inflight s)"
    unfolding reliable_recv_def by blast
  with assms(2,3) that show thesis by simp
qed

lemma read_frame:
  assumes r: "reliable_recv recv inflight" and s: "inflight s = encode p seq @ rest" and n: "length p \<le> MAX_PACKET_SIZE"
  obtains s1 s2 where "recv s 4 = (Some (chunk_header (length p) seq), s1)" "inflight s1 = p @ rest"
    "recv s1 (length p) = (Some p, s2)" "inflight s2 = rest"
proof -
  have "inflight s = chunk_header (length p) seq @ (p @ rest)" using s n by (simp add: encode_eq)
  from recv_take [OF r this, of 4] obtain s1
    where 1: "recv s 4 = (Some (chunk_header (length p) seq), s1)" "inflight s1 = p @ rest" by auto
  from recv_take [OF r 1(2) refl] obtain s2 where "recv s1 (length p) = (Some p, s2)" "inflight s2 = rest" .
  with 1 that show thesis by blast
qed

lemma read_chain_step:
  assumes r: "reliable_recv recv inflight" and s: "inflight s = encode p seq @ rest" and n: "length p \<le> MAX_PACKET_SIZE"
  obtains s' where "inflight s' = rest"
    "read_chain recv s (word_of_nat MAX_PACKET_SIZE) q acc = read_chain recv s' (word_of_nat (length p)) seq (acc @ p)"
proof -
  from read_frame [OF r s n] obtain s1 s2 where 1: "recv s 4 = (Some (chunk_header (length p) seq), s1)"
    "inflight s1 = p @ rest" "recv s1 (length p) = (Some p, s2)" "inflight s2 = rest" .
  note h = header_len(1,2) [OF n, of seq] header_len(3) [OF n]
  have 2: "word_of_nat (length p) > (0 :: u32) \<longleftrightarrow> p \<noteq> []"
    using h(3) by (simp add: word_less_nat_alt)
  show thesis
  proof (rule that [of "if p = [] then s1 else s2"])
    show "inflight (if p = [] then s1 else s2) = rest" using 1 by simp
    show "read_chain recv s (word_of_nat MAX_PACKET_SIZE) q acc =
        read_chain recv (if p = [] then s1 else s2) (word_of_nat (length p)) seq (acc @ p)"
      using 1 h 2 by (subst read_chain.simps) (simp add: header_len(3) fill_exact)
  qed
qed

lemma read_chain_wire:
  assumes "reliable_recv recv inflight" "inflight s = wire seq p @ rest"
  shows "\<exists>s'. inflight s' = rest \<and>
    read_chain recv s (word_of_nat MAX_PACKET_SIZE) q acc =
    Some (Ok \<lparr>pk_length = word_of_nat (length (acc @ p)),
              pk_sequence = seq + word_of_nat (length p div MAX_PACKET_SIZE), pk_payload = acc @ p\<rparr>, s')"
  using assms(2)
proof (induction seq p arbitrary: s q acc rule: wire.induct)
  case (1 seq p)
  show ?case
  proof (cases "length p < MAX_PACKET_SIZE")
    case True
    then have "inflight s = encode p seq @ rest" using "1.prems" by (simp add: wire.simps [of seq p])
    from read_chain_step [OF assms(1) this] True obtain s' where "inflight s' = rest"
      "read_chain recv s (word_of_nat MAX_PACKET_SIZE) q acc = read_chain recv s' (word_of_nat (length p)) seq (acc @ p)"
      by (metis less_imp_le)
    with True header_len(3) [of "length p"] show ?thesis
      by (auto simp: read_chain.simps [of recv s'])
  next
    case False
    let ?t = "take MAX_PACKET_SIZE p" and ?d = "drop MAX_PACKET_SIZE p"
    have "inflight s = encode ?t seq @ (wire (seq + 1) ?d @ rest)"
      using "1.prems" False by (simp add: wire.simps [of seq p])
    from read_chain_step [OF assms(1) this, of q acc] False obtain s' where s': "inflight s' = wire (seq + 1) ?d @ rest"
      "read_chain recv s (word_of_nat MAX_PACKET_SIZE) q acc = read_chain recv s' (word_of_nat MAX_PACKET_SIZE) seq (acc @ ?t)"
      by auto
    have "length p div MAX_PACKET_SIZE = Suc (length ?d div MAX_PACKET_SIZE)"
      using False by (simp add: le_div_geq MAX_PACKET_SIZE_def)
    with "1.IH" [OF False s'(1), of seq "acc @ ?t"] s'(2) show ?thesis
      by (simp add: ac_simps)
  qed
qed


lemma read_u24_bound: "read_u24_le data i = Some v \<Longrightarrow> unat v \<le> MAX_PACKET_SIZE"
proof -
  assume "read_u24_le data i = Some v"
  then obtain b0 b1 b2 :: u8 where v: "v = ucast b0 OR push_bit 8 (ucast b1) OR push_bit 16 (ucast b2)"
    by (auto simp: read_u24_le_def split: bind_splits)
  have "take_bit 24 v = v" unfolding v
    by (rule bit_word_eqI) (auto simp: bit_simps dest: bit_imp_le_length)
  then have "unat v = take_bit 24 (unat v)" by (metis unsigned_take_bit_eq)
  also have "\<dots> < 2 ^ 24" by (rule take_bit_nat_less_exp)
  finally show ?thesis by (simp add: MAX_PACKET_SIZE_def)
qed

lemma read_packet_chain: "read_packet recv s = read_chain recv s (word_of_nat MAX_PACKET_SIZE) 0 []"
proof -
  have "\<not> unat v > MAX_PACKET_SIZE" if "read_u24_le data i = Some v" for data i v
    using read_u24_bound [OF that] by simp
  then show ?thesis
    by (subst read_chain.simps)
       (auto simp: read_packet_def header_len(3) split: prod.splits option.splits intro!: Option.bind_cong)
qed

lemma read_packet_wire:
  assumes "reliable_recv recv inflight" "inflight s = wire seq p @ rest"
  shows "\<exists>s'. inflight s' = rest \<and> read_packet recv s =
    Some (Ok \<lparr>pk_length = word_of_nat (length p),
              pk_sequence = seq + word_of_nat (length p div MAX_PACKET_SIZE), pk_payload = p\<rparr>, s')"
  using read_chain_wire [OF assms, of 0 "[]"] by (simp add: read_packet_chain)

lemma write_loop_wire:
  assumes r: "reliable_send send inflight" and "offset \<le> length p" "offset mod MAX_PACKET_SIZE = 0"
    "length p = 0 \<or> length p mod MAX_PACKET_SIZE \<noteq> 0"
  shows "\<exists>s'. inflight s' = inflight s @ wire seq (drop offset p) \<and>
    write_loop send s p offset seq =
    Some (Ok (), seq + word_of_nat ((length p - offset) div MAX_PACKET_SIZE) + 1, s')"
  using assms(2,3)
proof (induction "length p - offset" arbitrary: offset s seq rule: less_induct)
  case less
  let ?c = "min (length p - offset) MAX_PACKET_SIZE"
  let ?d = "drop offset p"
  obtain s1 where s1: "send s (encode (take ?c ?d) seq) = (True, s1)" "inflight s1 = inflight s @ encode (take ?c ?d) seq"
    using r unfolding reliable_send_def by blast
  have enc: "encode (take ?c ?d) seq = chunk_header ?c seq @ take ?c ?d"
    by (subst encode_eq) simp_all
  show ?case
  proof (cases "length p - offset < MAX_PACKET_SIZE")
    case True
    then have "wire seq ?d = encode ?d seq" by (simp add: wire.simps [of seq])
    with True s1 enc assms(4) less.prems show ?thesis
      by (subst write_loop.simps) (auto simp: min_def)
  next
    case False
    have ne: "length p - offset \<noteq> MAX_PACKET_SIZE"
    proof
      assume "length p - offset = MAX_PACKET_SIZE"
      then have "length p = offset + MAX_PACKET_SIZE" using less.prems by simp
      then have "length p mod MAX_PACKET_SIZE = 0" using less.prems(2) by simp
      with assms(4) \<open>length p = offset + MAX_PACKET_SIZE\<close> show False by (simp add: MAX_PACKET_SIZE_def)
    qed
    let ?o = "offset + MAX_PACKET_SIZE"
    have lt: "length p - ?o < length p - offset" "?o < length p"
      using False ne by (simp_all add: MAX_PACKET_SIZE_def)
    have "write_loop send s p offset seq = write_loop send s1 p ?o (seq + 1)"
      using False s1(1) enc lt by (subst write_loop.simps) (simp add: min_def)
    moreover have "wire seq ?d = encode (take MAX_PACKET_SIZE ?d) seq @ wire (seq + 1) (drop ?o p)"
      using False by (subst wire.simps) (simp add: add.commute)
    moreover have "(length p - offset) div MAX_PACKET_SIZE = Suc ((length p - ?o) div MAX_PACKET_SIZE)"
      using False by (simp add: le_div_geq MAX_PACKET_SIZE_def)
    moreover have "?c = MAX_PACKET_SIZE" using False by simp
    ultimately show ?thesis
      using less.hyps [OF lt(1), of s1 "seq + 1"] lt(2) less.prems(2) s1(2) by (simp add: ac_simps)
  qed
qed

lemma write_loop_multiple:
  assumes "write_loop send s p offset seq = Some r" "reliable_send send inflight" "length p > 0"
  shows "length p mod MAX_PACKET_SIZE \<noteq> 0"
proof -
  have "reliable_send send inflight \<longrightarrow> length p > 0 \<longrightarrow> length p mod MAX_PACKET_SIZE \<noteq> 0"
  proof (rule write_loop.raw_induct [where P = "\<lambda>send s p offset seq r. reliable_send send inflight \<longrightarrow>
      length p > 0 \<longrightarrow> length p mod MAX_PACKET_SIZE \<noteq> 0", OF _ assms(1)], goal_cases)
    case 1: (1 wl send s p offset seq y)
    show ?case
    proof (intro impI notI)
      assume r: "reliable_send send inflight" and "length p > 0" "length p mod MAX_PACKET_SIZE = 0"
      obtain s1 where "send s (chunk_header (min (length p - offset) MAX_PACKET_SIZE) seq @
          take (min (length p - offset) MAX_PACKET_SIZE) (drop offset p)) = (True, s1)"
        using r unfolding reliable_send_def by blast
      with 1(2) \<open>length p > 0\<close> \<open>length p mod MAX_PACKET_SIZE = 0\<close>
      have "wl send s1 p (offset + min (length p - offset) MAX_PACKET_SIZE) (seq + 1) = Some y"
        by (simp add: Let_def)
      from 1(1) [OF this] r \<open>length p > 0\<close> \<open>length p mod MAX_PACKET_SIZE = 0\<close> show False by simp
    qed
  qed
  with assms(2,3) show ?thesis by simp
qed

section \<open>One frame\<close>

lemma decode_encode:
  assumes "length p \<le> MAX_PACKET_SIZE"
  shows "decode (encode p q @ rest) =
    Some (Ok \<lparr>pk_length = word_of_nat (length p), pk_sequence = q, pk_payload = p\<rparr>)"
proof -
  let ?d = "chunk_header (length p) q @ p @ rest"
  have h: "read_u24_le ?d 0 = Some (word_of_nat (length p))" "rd ?d 3 = Some q"
    using header_len(1,2) [OF assms, of q] by (simp_all add: chunk_header_def Let_def read_u24_le_def)
  have "unat (4 + word_of_nat (length p) :: u32) = 4 + length p"
    using assms by (simp add: MAX_PACKET_SIZE_def unat_word_ariths unat_of_nat)
  with h show ?thesis
    using header_len(3) [OF assms] by (simp add: encode_eq [OF assms] decode_def take_bytes_def)
qed

lemma split_frame:
  assumes v: "read_u24_le data 0 = Some v" "rd data 3 = Some q" and len: "4 + unat v \<le> length data"
  shows "data = encode (take (unat v) (drop 4 data)) q @ drop (4 + unat v) data"
proof -
  let ?p = "take (unat v) (drop 4 data)"
  obtain b0 b1 b2 b3 rest where data: "data = [b0, b1, b2, b3] @ rest"
    using len by (auto simp: numeral_eq_Suc Suc_le_length_iff)
  have nobit: "8 \<le> m \<Longrightarrow> \<not> bit b m" for b :: u8 and m using bit_imp_le_length [of b m] by auto
  have "v = ucast b0 OR push_bit 8 (ucast b1) OR push_bit 16 (ucast b2)" "q = b3"
    using v by (simp_all add: data read_u24_le_def)
  then have "write_u24_le [] v @ [q] = [b0, b1, b2, b3]"
    by (auto simp: write_u24_le_def low_byte nobit intro!: bit_word_eqI simp: bit_simps)
  moreover have "length ?p = unat v" using len by simp
  ultimately have "encode ?p q = [b0, b1, b2, b3] @ ?p"
    by (simp add: encode_def write_u8_def)
  moreover have "drop (4 + n) data = drop n rest" for n by (simp add: data numeral_eq_Suc)
  ultimately show ?thesis by (simp add: data)
qed

interpretation frame: field_codec "\<lambda>buf (q, p). buf @ encode p q"
    "\<lambda>d i. case decode (drop i d) of
       Some (Ok k) \<Rightarrow> Some ((pk_sequence k, pk_payload k), i + 4 + length (pk_payload k)) | _ \<Rightarrow> None"
    "\<lambda>(q, p). length p \<le> MAX_PACKET_SIZE"
  by unfold_locales (auto simp: decode_encode)

section \<open>Properties\<close>

text \<open>C20. Decoding a frame never reads outside the buffer; it succeeds exactly on the buffers that
  start with an encoded packet and returns that packet, and otherwise reports \<open>READ_FAILED\<close>.\<close>

theorem decode_exact:
  "case decode data of
     None \<Rightarrow> False
   | Some (Ok k) \<Rightarrow> unat (pk_length k) = length (pk_payload k) \<and>
       (\<exists>rest. data = encode (pk_payload k) (pk_sequence k) @ rest)
   | Some (Err e) \<Rightarrow> e = READ_FAILED \<and>
       (\<nexists>p q rest. length p \<le> MAX_PACKET_SIZE \<and> data = encode p q @ rest)"
proof (cases "length data < 4")
  case True
  then show ?thesis by (auto simp: decode_def encode_eq)
next
  case False
  then obtain v where v: "read_u24_le data 0 = Some v" using read_u24_in [of 0 data] by auto
  obtain q where q: "rd data 3 = Some q" using False by (auto simp: rd_def)
  have len: "unat (4 + v) = 4 + unat v"
    using read_u24_bound [OF v] by (simp add: MAX_PACKET_SIZE_def unat_word_ariths)
  show ?thesis
  proof (cases "4 + unat v \<le> length data")
    case True
    then show ?thesis
      using False v q len split_frame [OF v q True] by (auto simp: decode_def take_bytes_def)
  next
    case large: False
    then have "decode data = Some (Err READ_FAILED)" using False v q len by (simp add: decode_def)
    moreover have "decode data \<noteq> Some (Err READ_FAILED)"
      if "length p \<le> MAX_PACKET_SIZE" "data = encode p q' @ rest" for p q' rest
      using decode_encode [OF that(1)] that(2) by simp
    ultimately show ?thesis by auto
  qed
qed

text \<open>C17. Over a socket that delivers the bytes it accepts in order, \<open>write_packet\<close> returns for every
  payload whose size is zero or not a multiple of the chunk size, and \<open>read_packet\<close> at the other end
  returns exactly that payload and leaves the bytes behind it: splitting into chunks and
  reassembly are inverse, and the sequence numbers of writer and reader agree.\<close>

theorem write_read_roundtrip:
  assumes "reliable_send send sent" and "reliable_recv recv inflight"
    and "length p = 0 \<or> length p mod MAX_PACKET_SIZE \<noteq> 0"
    and "sent s = []"
  shows "\<exists>s' n. write_packet send s p seq = Some (Ok (), seq + word_of_nat n + 1, s') \<and>
    n = length p div MAX_PACKET_SIZE \<and>
    (\<forall>t rest. inflight t = sent s' @ rest \<longrightarrow>
      (\<exists>t'. read_packet recv t = Some (Ok \<lparr>pk_length = word_of_nat (length p),
         pk_sequence = seq + word_of_nat n, pk_payload = p\<rparr>, t') \<and> inflight t' = rest))"
proof -
  obtain s' where "sent s' = wire seq p"
    "write_packet send s p seq = Some (Ok (), seq + word_of_nat (length p div MAX_PACKET_SIZE) + 1, s')"
    using write_loop_wire [OF assms(1), of 0 p s seq] assms(3,4) by (auto simp: write_packet_def)
  moreover from this(1) read_packet_wire [OF assms(2)]
  have "\<exists>t'. read_packet recv t = Some (Ok \<lparr>pk_length = word_of_nat (length p),
         pk_sequence = seq + word_of_nat (length p div MAX_PACKET_SIZE), pk_payload = p\<rparr>, t') \<and> inflight t' = rest"
    if "inflight t = sent s' @ rest" for t rest
    using that by metis
  ultimately show ?thesis by blast
qed

text \<open>A socket as a byte pipe.\<close>

definition pipe_send :: "bytes \<Rightarrow> bytes \<Rightarrow> bool \<times> bytes" where
  "pipe_send s bs = (True, s @ bs)"

definition pipe_recv :: "bytes \<Rightarrow> nat \<Rightarrow> bytes option \<times> bytes" where
  "pipe_recv s n = (if n \<le> length s then (Some (take n s), drop n s) else (None, []))"

lemma pipe_reliable: "reliable_send pipe_send (\<lambda>s. s)" "reliable_recv pipe_recv (\<lambda>s. s)"
  by (simp_all add: reliable_send_def reliable_recv_def pipe_send_def pipe_recv_def)

theorem write_read_roundtrip_witness:
  "\<exists>s'. write_packet pipe_send [] [1, 2, 3] 5 = Some (Ok (), 6, s') \<and>
     read_packet pipe_recv (s' @ [9]) =
       Some (Ok \<lparr>pk_length = 3, pk_sequence = 5, pk_payload = [1, 2, 3]\<rparr>, [9])"
  using write_read_roundtrip [OF pipe_reliable, of "[1, 2, 3]" "[]" 5]
  by (auto simp: MAX_PACKET_SIZE_def)

text \<open>C39. When the size of the payload is a positive multiple of the chunk size, \<open>write_packet\<close> never
  returns as long as the socket accepts data: after the terminal empty packet the loop condition
  still holds.\<close>

theorem write_packet_diverges:
  assumes "reliable_send send sent" and "length p > 0" and "length p mod MAX_PACKET_SIZE = 0"
  shows "write_packet send s p seq = None"
  using write_loop_multiple [OF _ assms(1,2)] assms(3)
  by (cases "write_packet send s p seq") (auto simp: write_packet_def)

theorem write_packet_diverges_witness:
  "write_packet pipe_send [] (replicate 16777215 0) 0 = None"
  using write_packet_diverges [OF pipe_reliable(1), of "replicate 16777215 0" "[]" 0]
  by (simp add: MAX_PACKET_SIZE_def)

end
