(* ===== verification/Sockets.thy ===== *)
theory Sockets
  imports PacketFramer
begin

text \<open>
  Packets below the chunk size over a socket that is reliable in both directions: what the
  framer sends and reads there, and what it leaves alone. The proxy's client side and its backend
  side share these facts.
\<close>

section \<open>Single packets\<close>

lemma read_small:
  assumes "reliable_recv recv inflight" "inflight s = encode p q @ rest" "length p < MAX_PACKET_SIZE"
  obtains s' where "inflight s' = rest"
    "read_packet recv s = Some (Ok \<lparr>pk_length = word_of_nat (length p), pk_sequence = q, pk_payload = p\<rparr>, s')"
  using read_packet_wire [OF assms(1), of s q p rest] assms(2,3) by (auto simp: wire.simps [of q p])

lemma write_small:
  assumes "reliable_send send sent" "length p < MAX_PACKET_SIZE"
  obtains s' where "sent s' = sent s @ encode p q" "write_packet send s p q = Some (Ok (), q + 1, s')"
proof -
  have "length p = 0 \<or> length p mod MAX_PACKET_SIZE \<noteq> 0" using assms(2) by auto
  from write_loop_wire [OF assms(1) _ _ this, of 0 s q] assms(2) that show thesis
    by (auto simp: wire.simps [of q p] write_packet_def)
qed

section \<open>What the framer leaves alone\<close>

lemma read_chain_keeps:
  assumes k: "\<And>s n. f (snd (recv s n)) = f s" and r: "read_chain recv s len q acc = Some (r, s')"
  shows "f s' = f s"
proof -
  have "(\<forall>s n. f (snd (recv s n)) = f s) \<longrightarrow> f (snd (r, s')) = f s"
  proof (rule read_chain.raw_induct [where P = "\<lambda>recv s len q acc y. (\<forall>s n. f (snd (recv s n)) = f s) \<longrightarrow> f (snd y) = f s",
        OF _ r], goal_cases)
    case 1: (1 rc recv s len q acc y)
    show ?case
    proof (intro impI)
      assume k: "\<forall>s n. f (snd (recv s n)) = f s"
      obtain o1 s1 where 2: "recv s 4 = (o1, s1)" by fastforce
      then have s1: "f s1 = f s" using k by (metis snd_conv)
      have s2: "recv s1 n = (o2, s2) \<Longrightarrow> f s2 = f s" for n o2 s2 using k s1 by (metis snd_conv)
      note IH = 1(1) [THEN mp, OF _ k]
      show "f (snd y) = f s"
      proof (cases "unat len = MAX_PACKET_SIZE \<and> o1 \<noteq> None")
        case True
        then obtain h where h: "o1 = Some h" by blast
        obtain cl q' where cl: "read_u24_le (fill 4 h) 0 = Some cl" "rd (fill 4 h) 3 = Some q'"
          using 1(2) True 2 h by (auto split: bind_splits)
        obtain o2 s2 where 3: "recv s1 (unat cl) = (o2, s2)" by fastforce
        show ?thesis
          using 1(2) True 2 h cl 3 s1 s2 [OF 3] IH [of s2 cl q' "acc @ fill (unat cl) (the o2)" y] IH [of s1 cl q' acc y]
          by (cases o2) (auto split: if_splits)
      next
        case False
        with 1(2) 2 s1 show ?thesis by (auto split: if_splits)
      qed
    qed
  qed
  then show ?thesis using k by simp
qed

lemma read_packet_keeps:
  "(\<And>s n. f (snd (recv s n)) = f s) \<Longrightarrow> read_packet recv s = Some (r, s') \<Longrightarrow> f s' = f s"
  unfolding read_packet_chain by (rule read_chain_keeps)

lemma write_loop_keeps:
  assumes k: "\<And>s bs. f (snd (send s bs)) = f s" and r: "write_loop send s p off q = Some (r, q', s')"
  shows "f s' = f s"
proof -
  have "(\<forall>s bs. f (snd (send s bs)) = f s) \<longrightarrow> f (snd (snd (r, q', s'))) = f s"
  proof (rule write_loop.raw_induct [where P = "\<lambda>send s p off q y. (\<forall>s bs. f (snd (send s bs)) = f s) \<longrightarrow> f (snd (snd y)) = f s",
        OF _ r], goal_cases)
    case 1: (1 wl send s p off q y)
    show ?case
    proof (intro impI)
      assume k: "\<forall>s bs. f (snd (send s bs)) = f s"
      let ?c = "min (length p - off) MAX_PACKET_SIZE"
      obtain ok s1 where 2: "send s (chunk_header ?c q @ take ?c (drop off p)) = (ok, s1)" by fastforce
      then have s1: "f s1 = f s" using k by (metis snd_conv)
      from 1(2) 2 show "f (snd (snd y)) = f s"
        by (auto simp: s1 Let_def dest!: 1(1) [THEN mp, OF _ k] split: if_splits)
    qed
  qed
  then show ?thesis using k by simp
qed

section \<open>Two-way sockets\<close>

text \<open>A socket whose two directions are reliable and independent.\<close>

definition duplex :: "('c \<Rightarrow> bytes \<Rightarrow> bool \<times> 'c) \<Rightarrow> ('c \<Rightarrow> nat \<Rightarrow> bytes option \<times> 'c)
    \<Rightarrow> ('c \<Rightarrow> bytes) \<Rightarrow> ('c \<Rightarrow> bytes) \<Rightarrow> bool" where
  "duplex send recv inflight sent \<longleftrightarrow> reliable_send send sent \<and> reliable_recv recv inflight \<and>
     (\<forall>s bs. inflight (snd (send s bs)) = inflight s) \<and> (\<forall>s n. sent (snd (recv s n)) = sent s)"

lemma duplex_write:
  assumes "duplex send recv inflight sent" "length p < MAX_PACKET_SIZE"
  obtains s' where "sent s' = sent s @ encode p q" "inflight s' = inflight s" "write_packet send s p q = Some (Ok (), q + 1, s')"
proof -
  have r: "reliable_send send sent" and k: "\<And>s bs. inflight (snd (send s bs)) = inflight s"
    using assms(1) by (simp_all add: duplex_def)
  from write_small [OF r assms(2), of s q] obtain s' where 1: "sent s' = sent s @ encode p q"
    "write_packet send s p q = Some (Ok (), q + 1, s')" .
  with write_loop_keeps [of inflight send, OF k] that show thesis by (simp add: write_packet_def)
qed

lemma duplex_recv:
  assumes "duplex send recv inflight sent" "length p < MAX_PACKET_SIZE" "inflight s = encode p q @ rest"
  obtains s' where "inflight s' = rest" "sent s' = sent s"
    "read_packet recv s = Some (Ok \<lparr>pk_length = word_of_nat (length p), pk_sequence = q, pk_payload = p\<rparr>, s')"
proof -
  have r: "reliable_recv recv inflight" and k: "\<And>s n. sent (snd (recv s n)) = sent s"
    using assms(1) by (simp_all add: duplex_def)
  from read_small [OF r assms(3,2)] obtain s' where 1: "inflight s' = rest"
    "read_packet recv s = Some (Ok \<lparr>pk_length = word_of_nat (length p), pk_sequence = q, pk_payload = p\<rparr>, s')" .
  with read_packet_keeps [of sent recv, OF k 1(2)] that show thesis by simp
qed

text \<open>A socket as two byte queues.\<close>

definition two_pipes_send :: "bytes \<times> bytes \<Rightarrow> bytes \<Rightarrow> bool \<times> bytes \<times> bytes" where
  "two_pipes_send s bs = (True, (fst s, snd s @ bs))"

definition two_pipes_recv :: "bytes \<times> bytes \<Rightarrow> nat \<Rightarrow> bytes option \<times> bytes \<times> bytes" where
  "two_pipes_recv s n = (case pipe_recv (fst s) n of (r, ins) \<Rightarrow> (r, (ins, snd s)))"

lemma two_pipes_duplex: "duplex two_pipes_send two_pipes_recv fst snd"
  by (auto simp: duplex_def two_pipes_send_def two_pipes_recv_def reliable_recv_def reliable_send_def pipe_recv_def
      split: prod.splits if_splits)

end
