(* ===== verification/Handshake.thy ===== *)
theory Handshake
  imports PacketFramer
begin

text \<open>
  \<open>protocol/mysql/handshake.cpp\<close>: the initial handshake of the server, the response of the client
  and the \<open>mysql_native_password\<close> challenge. \<open>RAND_bytes\<close> and \<open>SHA1\<close> of OpenSSL are parameters. As
  in the codec, \<^const>\<open>None\<close> is an execution without a normal result (a read outside the packet, an
  invalid iterator range, an exception).
\<close>

section \<open>HandshakeV10\<close>

record HandshakeV10 =
  hs_server_version :: string
  hs_connection_id :: u32
  hs_auth_data :: bytes
  hs_capability_flags :: u32
  hs_character_set :: u8
  hs_status_flags :: u16
  hs_auth_plugin_name :: string

definition default_HandshakeV10 :: HandshakeV10 where
  "default_HandshakeV10 = \<lparr>
     hs_server_version = ''8.0.30-dbmesh'',
     hs_connection_id = 0,
     hs_auth_data = replicate 20 0,
     hs_capability_flags = caps_SERVER_FLAGS,
     hs_character_set = charset_UTF8MB4,
     hs_status_flags = status_AUTOCOMMIT,
     hs_auth_plugin_name = NATIVE_PASSWORD\<rparr>"

text \<open>\<open>rand_bytes\<close> is \<open>RAND_bytes\<close> on the 20 bytes; a failure throws.\<close>

definition generate_auth_data :: "bytes option \<Rightarrow> HandshakeV10 \<Rightarrow> HandshakeV10 option" where
  "generate_auth_data rand_bytes hs =
     (case rand_bytes of
        None \<Rightarrow> None
      | Some bs \<Rightarrow> Some (hs\<lparr>hs_auth_data := map (\<lambda>b. if b = 0x00 then 0x01 else b) (fill 20 bs)\<rparr>))"

definition hs_encode :: "HandshakeV10 \<Rightarrow> bytes" where
  "hs_encode hs =
     (let buf = write_u8 [] 0x0A;
          buf = write_null_str buf (hs_server_version hs);
          buf = write_u32_le buf (hs_connection_id hs);
          buf = write_bytes buf (take 8 (hs_auth_data hs));
          buf = write_u8 buf 0x00;
          buf = write_u16_le buf (ucast (hs_capability_flags hs AND 0xFFFF));
          buf = write_u8 buf (hs_character_set hs);
          buf = write_u16_le buf (hs_status_flags hs);
          buf = write_u16_le buf (ucast (drop_bit 16 (hs_capability_flags hs) AND 0xFFFF));
          buf = write_u8 buf 21;
          buf = buf @ replicate 10 0x00;
          buf = write_bytes buf (take 12 (drop 8 (hs_auth_data hs)));
          buf = write_u8 buf 0x00
      in write_null_str buf (hs_auth_plugin_name hs))"

text \<open>The loop \<open>for (i = 0; i < 8; ++i) auth_data[i] = payload[pos++]\<close>.\<close>

fun copy_loop :: "bytes \<Rightarrow> nat \<Rightarrow> nat \<Rightarrow> nat \<Rightarrow> bytes \<Rightarrow> (bytes \<times> nat) option" where
  "copy_loop payload pos i 0 auth = Some (auth, pos)"
| "copy_loop payload pos i (Suc n) auth = do {
     b \<leftarrow> rd payload pos;
     copy_loop payload (pos + 1) (i + 1) n (auth[i := b]) }"

text \<open>The same with the extra condition \<open>pos < payload.size()\<close>.\<close>

fun salt_loop :: "bytes \<Rightarrow> nat \<Rightarrow> nat \<Rightarrow> nat \<Rightarrow> bytes \<Rightarrow> (bytes \<times> nat) option" where
  "salt_loop payload pos i 0 auth = Some (auth, pos)"
| "salt_loop payload pos i (Suc n) auth =
     (if pos < length payload
      then do { b \<leftarrow> rd payload pos; salt_loop payload (pos + 1) (i + 1) n (auth[i := b]) }
      else Some (auth, pos))"

text \<open>The optional fields after the lower capability flags.\<close>

definition hs_decode_ext :: "bytes \<Rightarrow> nat \<Rightarrow> HandshakeV10 \<Rightarrow> (HandshakeV10 \<times> u32 \<times> u8 \<times> nat) option" where
  "hs_decode_ext payload pos hs =
     (let size = length payload in
      if pos < size then do {
        cs \<leftarrow> rd payload pos;
        let hs = hs\<lparr>hs_character_set := cs\<rparr>;
        let pos = pos + 1;
        (hs, pos) \<leftarrow> (if pos + 2 \<le> size
          then do { v \<leftarrow> read_u16_le payload pos; Some (hs\<lparr>hs_status_flags := v\<rparr>, pos + 2) }
          else Some (hs, pos));
        (cap_high, pos) \<leftarrow> (if pos + 2 \<le> size
          then do { v \<leftarrow> read_u16_le payload pos; Some (ucast v :: u32, pos + 2) }
          else Some (0, pos));
        (auth_data_len, pos) \<leftarrow> (if pos < size
          then do { v \<leftarrow> rd payload pos; Some (v, pos + 1) }
          else Some (0, pos));
        Some (hs, cap_high, auth_data_len, pos + 10) }
      else Some (hs, 0, 0, pos))"

text \<open>The second part of the salt and the plugin name.\<close>

definition hs_decode_tail :: "bytes \<Rightarrow> nat \<Rightarrow> u8 \<Rightarrow> HandshakeV10 \<Rightarrow> HandshakeV10 option" where
  "hs_decode_tail payload pos auth_data_len hs = do {
     (hs, pos) \<leftarrow>
       (if hs_capability_flags hs AND caps_SECURE_CONNECTION \<noteq> 0 \<and> pos < length payload
        then (let part2 = max 13 (uint auth_data_len - 8);
                  salt2 = min 12 (part2 - 1)
              in do {
                (auth, pos) \<leftarrow> salt_loop payload pos 8 (nat salt2) (hs_auth_data hs);
                Some (hs\<lparr>hs_auth_data := auth\<rparr>, pos + nat (part2 - salt2)) })
        else Some (hs, pos));
     if hs_capability_flags hs AND caps_PLUGIN_AUTH \<noteq> 0 \<and> pos < length payload
     then (let (name, pos) = read_null_str payload pos in Some (hs\<lparr>hs_auth_plugin_name := name\<rparr>))
     else Some hs }"

definition hs_decode :: "bytes \<Rightarrow> (HandshakeV10, string) result option" where
  "hs_decode payload =
     (let size = length payload in
      if payload = [] \<or> payload ! 0 \<noteq> 0x0A then Some (Err ''not a HandshakeV10 packet'')
      else (let hs = default_HandshakeV10;
                (sv, pos) = read_null_str payload 1;
                hs = hs\<lparr>hs_server_version := sv\<rparr>
            in if pos + 4 > size then Some (Err ''truncated handshake'')
            else do {
              cid \<leftarrow> read_u32_le payload pos;
              let hs = hs\<lparr>hs_connection_id := cid\<rparr>;
              let pos = pos + 4;
              if pos + 8 > size then Some (Err ''truncated auth data 1'')
              else do {
                (auth, pos) \<leftarrow> copy_loop payload pos 0 8 (hs_auth_data hs);
                let hs = hs\<lparr>hs_auth_data := auth\<rparr>;
                let pos = pos + 1;
                if pos + 2 > size then Some (Err ''truncated caps low'')
                else do {
                  cap_low \<leftarrow> read_u16_le payload pos;
                  (hs, cap_high, auth_data_len, pos) \<leftarrow> hs_decode_ext payload (pos + 2) hs;
                  hs \<leftarrow> hs_decode_tail payload pos auth_data_len
                    (hs\<lparr>hs_capability_flags := ucast cap_low OR push_bit 16 cap_high\<rparr>);
                  Some (Ok hs) } } }))"

section \<open>HandshakeResponse41\<close>

record HandshakeResponse41 =
  hr_capability_flags :: u32
  hr_max_packet_size :: u32
  hr_character_set :: u8
  hr_username :: string
  hr_auth_response :: bytes
  hr_database :: string
  hr_auth_plugin :: string

definition default_HandshakeResponse41 :: HandshakeResponse41 where
  "default_HandshakeResponse41 = \<lparr>hr_capability_flags = 0, hr_max_packet_size = 0, hr_character_set = 0,
     hr_username = [], hr_auth_response = [], hr_database = [], hr_auth_plugin = []\<rparr>"

definition hr_encode :: "HandshakeResponse41 \<Rightarrow> bytes" where
  "hr_encode r =
     (let buf = write_u32_le [] (hr_capability_flags r);
          buf = write_u32_le buf (hr_max_packet_size r);
          buf = write_u8 buf (hr_character_set r);
          buf = buf @ replicate 23 0x00;
          buf = write_null_str buf (hr_username r);
          buf = write_u8 buf (word_of_nat (length (hr_auth_response r)));
          buf = write_bytes buf (hr_auth_response r);
          buf = (if hr_capability_flags r AND caps_CONNECT_WITH_DB \<noteq> 0
                 then write_null_str buf (hr_database r) else buf)
      in if hr_capability_flags r AND caps_PLUGIN_AUTH \<noteq> 0
         then write_null_str buf (if hr_auth_plugin r = [] then NATIVE_PASSWORD else hr_auth_plugin r)
         else buf)"

text \<open>The two forms of the authentication response; \<open>Inl\<close> is an early return with an error.\<close>

definition hr_decode_auth :: "bytes \<Rightarrow> nat \<Rightarrow> u32 \<Rightarrow> (string + bytes \<times> nat) option" where
  "hr_decode_auth payload pos flags =
     (let size = length payload in
      if flags AND caps_PLUGIN_AUTH_LENENC \<noteq> 0 then do {
        (len, pos) \<leftarrow> read_lenenc_int payload pos;
        if (pos + unat len) mod 2 ^ 64 > size then Some (Inl ''auth response overflows packet'')
        else do {
          bs \<leftarrow> take_bytes payload pos (unat len);
          Some (Inr (bs, (pos + unat len) mod 2 ^ 64)) } }
      else if flags AND caps_SECURE_CONNECTION \<noteq> 0 then
        (if pos \<ge> size then Some (Inl ''missing auth len byte'')
         else do {
           auth_len \<leftarrow> rd payload pos;
           let pos = pos + 1;
           if pos + unat auth_len > size then Some (Inl ''auth response overflows packet'')
           else do {
             bs \<leftarrow> take_bytes payload pos (unat auth_len);
             Some (Inr (bs, pos + unat auth_len)) } })
      else Some (Inr ([], pos)))"

definition hr_decode :: "bytes \<Rightarrow> (HandshakeResponse41, string) result option" where
  "hr_decode payload =
     (let size = length payload in
      if size < 32 then Some (Err ''handshake response too short'')
      else do {
        flags \<leftarrow> read_u32_le payload 0;
        mps \<leftarrow> read_u32_le payload 4;
        cs \<leftarrow> rd payload 8;
        let pos = 9 + 23;
        if pos \<ge> size then Some (Err ''truncated response'')
        else do {
          let (user, pos) = read_null_str payload pos;
          auth \<leftarrow> hr_decode_auth payload pos flags;
          (case auth of
             Inl e \<Rightarrow> Some (Err e)
           | Inr (bs, pos) \<Rightarrow>
               (let (db, pos) = (if flags AND caps_CONNECT_WITH_DB \<noteq> 0 \<and> pos < size
                                 then read_null_str payload pos else ([], pos));
                    (plugin, pos) = (if flags AND caps_PLUGIN_AUTH \<noteq> 0 \<and> pos < size
                                     then read_null_str payload pos else ([], pos))
                in Some (Ok \<lparr>hr_capability_flags = flags, hr_max_packet_size = mps, hr_character_set = cs,
                     hr_username = user, hr_auth_response = bs, hr_database = db,
                     hr_auth_plugin = plugin\<rparr>))) } })"

section \<open>The native password challenge\<close>

definition native_hashes :: "(bytes \<Rightarrow> bytes) \<Rightarrow> string \<Rightarrow> bytes \<Rightarrow> bytes \<times> bytes" where
  "native_hashes sha1 pwd salt =
     (let h1 = sha1 (map byte_of pwd);
          h2 = sha1 h1;
          h3 = sha1 (salt @ h2)
      in (h1, h3))"

definition xor_bytes :: "bytes \<Rightarrow> bytes \<Rightarrow> bytes" where
  "xor_bytes a b = map2 (XOR) a b"

definition verify_native_password :: "(bytes \<Rightarrow> bytes) \<Rightarrow> string \<Rightarrow> bytes \<Rightarrow> bytes \<Rightarrow> bool" where
  "verify_native_password sha1 password_plaintext auth_data auth_response =
     (if length auth_response \<noteq> 20 then False
      else if password_plaintext = [] then list_all (\<lambda>b. b = 0) auth_response
      else (let (h1, h3) = native_hashes sha1 password_plaintext auth_data;
                expected = xor_bytes auth_response h3
            in expected = h1))"

definition scramble_native_password :: "(bytes \<Rightarrow> bytes) \<Rightarrow> string \<Rightarrow> bytes \<Rightarrow> bytes" where
  "scramble_native_password sha1 password_plaintext salt =
     (if password_plaintext = [] then []
      else (let (h1, h3) = native_hashes sha1 password_plaintext salt in xor_bytes h1 h3))"

section \<open>Copying the salt\<close>

lemma copy_loop_at:
  assumes "i + length bs \<le> length auth"
  shows "copy_loop (pre @ bs @ post) (length pre) i (length bs) auth =
    Some (take i auth @ bs @ drop (i + length bs) auth, length pre + length bs)"
  using assms
proof (induction bs arbitrary: pre i auth)
  case (Cons b bs)
  have "take (Suc i) (auth[i := b]) = take i auth @ [b]"
    using Cons.prems by (simp add: take_Suc_conv_app_nth)
  then show ?case
    using Cons.prems Cons.IH [of "Suc i" "auth[i := b]" "pre @ [b]"] by simp
qed simp

lemma salt_copy_loop:
  "pos + n \<le> length payload \<Longrightarrow> salt_loop payload pos i n auth = copy_loop payload pos i n auth"
  by (induction n arbitrary: pos i auth) simp_all

lemma copy_loop_in:
  "pos + n \<le> length payload \<Longrightarrow>
   \<exists>auth'. copy_loop payload pos i n auth = Some (auth', pos + n) \<and> length auth' = length auth"
proof (induction n arbitrary: pos i auth)
  case (Suc n)
  then show ?case using Suc.IH [of "Suc pos" "Suc i"] by (simp add: rd_def) (metis length_list_update)
qed simp

lemma salt_loop_in:
  "\<exists>auth' q. salt_loop payload pos i n auth = Some (auth', q) \<and> length auth' = length auth"
proof (induction n arbitrary: pos i auth)
  case (Suc n)
  then show ?case using Suc.IH [of "Suc pos" "Suc i"] by (simp add: rd_def) (metis length_list_update)
qed simp

section \<open>Round trip of the server handshake\<close>

lemma low_half: "ucast (w AND 0xFFFF) = (ucast w :: u16)" for w :: u32
proof -
  have "w AND 0xFFFF = take_bit 16 w" by (simp add: take_bit_eq_mask mask_eq_exp_minus_1)
  then show ?thesis by (auto intro: bit_word_eqI simp: bit_simps)
qed

lemma half_back: "ucast (ucast w :: u16) = take_bit 16 w" for w :: u32
  by (rule bit_word_eqI) (auto simp: bit_simps)

lemma join_halves:
  "ucast (ucast (w AND 0xFFFF) :: u16) OR push_bit 16 (ucast (ucast (drop_bit 16 w AND 0xFFFF) :: u16)) = w" for w :: u32
  by (simp add: low_half half_back take_bit_join)

lemma hs_decode_ext_at:
  "hs_decode_ext (pre @ [cs] @ write_u16_le [] st @ write_u16_le [] hi @ [n] @ replicate 10 0 @ rest) (length pre) h =
   Some (h\<lparr>hs_character_set := cs, hs_status_flags := st\<rparr>, ucast hi, n, length pre + 16)"
  by (simp add: hs_decode_ext_def read_u16_le_def write_u16_le_def le16)

lemma hs_decode_tail_at:
  assumes "length a2 = 12" "length (hs_auth_data h) = 20" "CHR 0x00 \<notin> set name"
    "hs_capability_flags h AND caps_SECURE_CONNECTION \<noteq> 0" "hs_capability_flags h AND caps_PLUGIN_AUTH \<noteq> 0"
  shows "hs_decode_tail (pre @ a2 @ [0] @ write_null_str [] name) (length pre) 21 h =
    Some (h\<lparr>hs_auth_data := take 8 (hs_auth_data h) @ a2, hs_auth_plugin_name := name\<rparr>)"
proof -
  have "salt_loop (pre @ a2 @ [0] @ write_null_str [] name) (length pre) 8 12 (hs_auth_data h) =
      Some (take 8 (hs_auth_data h) @ a2, length pre + 12)"
    using copy_loop_at [of 8 a2 "hs_auth_data h" pre "[0] @ write_null_str [] name"] assms(1,2)
    by (simp add: salt_copy_loop)
  moreover have "read_null_str ((pre @ a2 @ [0]) @ write_null_str [] name @ []) (length (pre @ a2 @ [0])) =
      (name, length (pre @ a2 @ [0]) + length (write_null_str [] name))"
    by (rule null_str_at [OF assms(3)])
  moreover have "write_null_str [] name \<noteq> []" by (simp add: write_null_str_def)
  ultimately show ?thesis
    using assms by (simp add: hs_decode_tail_def add.commute [of 13 "length pre"])
qed

lemma hs_encode_eq:
  "hs_encode hs = [0x0A] @ write_null_str [] (hs_server_version hs) @ write_u32_le [] (hs_connection_id hs) @
     take 8 (hs_auth_data hs) @ [0] @ write_u16_le [] (ucast (hs_capability_flags hs AND 0xFFFF)) @
     [hs_character_set hs] @ write_u16_le [] (hs_status_flags hs) @
     write_u16_le [] (ucast (drop_bit 16 (hs_capability_flags hs) AND 0xFFFF)) @ [21] @ replicate 10 0 @
     take 12 (drop 8 (hs_auth_data hs)) @ [0] @ write_null_str [] (hs_auth_plugin_name hs)"
  by (simp add: hs_encode_def Let_def write_u8_def write_bytes_def write_u16_le_def write_u32_le_def write_null_str_def)

lemma hs_decode_fields:
  assumes "payload \<noteq> []" "payload ! 0 = 0x0A" "read_null_str payload 1 = (sv, pos)" "pos + 15 \<le> length payload"
    "read_u32_le payload pos = Some cid" "copy_loop payload (pos + 4) 0 8 (replicate 20 0) = Some (a, pos + 12)"
    "read_u16_le payload (pos + 13) = Some lo"
  shows "hs_decode payload = do {
      (hs, hi, n, q) \<leftarrow> hs_decode_ext payload (pos + 15) (default_HandshakeV10\<lparr>hs_server_version := sv,
         hs_connection_id := cid, hs_auth_data := a\<rparr>);
      hs \<leftarrow> hs_decode_tail payload q n (hs\<lparr>hs_capability_flags := ucast lo OR push_bit 16 hi\<rparr>);
      Some (Ok hs) }"
  using assms by (simp add: hs_decode_def default_HandshakeV10_def add.commute [of 13 pos] add.commute [of 15 pos])

lemma hs_decode_at:
  fixes sv cid a1 lo rest
  defines "P \<equiv> [0x0A] @ write_null_str [] sv @ write_u32_le [] cid @ a1 @ [0] @ write_u16_le [] lo @ rest"
  assumes "CHR 0x00 \<notin> set sv" "length a1 = 8"
  shows "hs_decode P = do {
      (hs, hi, n, q) \<leftarrow> hs_decode_ext P (length sv + 17) (default_HandshakeV10\<lparr>hs_server_version := sv,
         hs_connection_id := cid, hs_auth_data := a1 @ replicate 12 0\<rparr>);
      hs \<leftarrow> hs_decode_tail P q n (hs\<lparr>hs_capability_flags := ucast lo OR push_bit 16 hi\<rparr>);
      Some (Ok hs) }"
proof -
  define pos where "pos = length sv + 2"
  have l: "length ([0x0A] @ write_null_str [] sv) = pos"
    "length ([0x0A] @ write_null_str [] sv @ write_u32_le [] cid) = pos + 4"
    "length ([0x0A] @ write_null_str [] sv @ write_u32_le [] cid @ a1 @ [0]) = pos + 13"
    using assms(3) by (simp_all add: pos_def write_null_str_def write_u32_le_def)
  have "read_null_str P 1 = (sv, pos)"
    using null_str_at [OF assms(2), of "[0x0A]"] l(1) by (simp add: P_def)
  moreover have "read_u32_le P pos = Some cid"
    using u32_at [of "[0x0A] @ write_null_str [] sv" cid] unfolding l P_def by simp
  moreover have "copy_loop P (pos + 4) 0 8 (replicate 20 0) = Some (a1 @ replicate 12 0, pos + 12)"
    using copy_loop_at [of 0 a1 "replicate 20 0" "[0x0A] @ write_null_str [] sv @ write_u32_le [] cid"
        "[0] @ write_u16_le [] lo @ rest"] assms(3)
    unfolding l P_def append_assoc by simp
  moreover have "read_u16_le P (pos + 13) = Some lo"
    using u16_at [of "[0x0A] @ write_null_str [] sv @ write_u32_le [] cid @ a1 @ [0]" lo rest]
    unfolding l P_def append_assoc .
  moreover have "pos + 15 \<le> length P" "P \<noteq> []" "P ! 0 = 0x0A"
    using l assms(3) by (simp_all add: P_def write_u16_le_def)
  ultimately show ?thesis
    using hs_decode_fields [of P sv pos cid "a1 @ replicate 12 0" lo]
    by (simp add: pos_def add.commute [of 17 "length sv"])
qed

lemma hs_decode_encode:
  assumes "length (hs_auth_data hs) = 20" "CHR 0x00 \<notin> set (hs_server_version hs)" "CHR 0x00 \<notin> set (hs_auth_plugin_name hs)"
    "hs_capability_flags hs AND caps_SECURE_CONNECTION \<noteq> 0" "hs_capability_flags hs AND caps_PLUGIN_AUTH \<noteq> 0"
  shows "hs_decode (hs_encode hs) = Some (Ok hs)"
proof -
  define A where "A = [0x0A] @ write_null_str [] (hs_server_version hs) @ write_u32_le [] (hs_connection_id hs) @
     take 8 (hs_auth_data hs) @ [0] @ write_u16_le [] (ucast (hs_capability_flags hs AND 0xFFFF))"
  define B where "B = [hs_character_set hs] @ write_u16_le [] (hs_status_flags hs) @
     write_u16_le [] (ucast (drop_bit 16 (hs_capability_flags hs) AND 0xFFFF)) @ [21] @ replicate 10 0"
  define C where "C = take 12 (drop 8 (hs_auth_data hs)) @ [0] @ write_null_str [] (hs_auth_plugin_name hs)"
  have P: "hs_encode hs = A @ B @ C" by (simp add: hs_encode_eq A_def B_def C_def)
  have lenA: "length A = length (hs_server_version hs) + 17" and lenB: "length B = 16"
    using assms(1) by (simp_all add: A_def B_def write_null_str_def write_u32_le_def write_u16_le_def)
  have ext: "hs_decode_ext (A @ B @ C) (length A) h =
      Some (h\<lparr>hs_character_set := hs_character_set hs, hs_status_flags := hs_status_flags hs\<rparr>,
        ucast (ucast (drop_bit 16 (hs_capability_flags hs) AND 0xFFFF) :: u16), 21, length A + 16)" for h
    using hs_decode_ext_at [of A _ _ _ _ C h] by (simp add: B_def)
  have tail: "hs_decode_tail (A @ B @ C) (length A + 16) 21 h =
      Some (h\<lparr>hs_auth_data := take 8 (hs_auth_data h) @ take 12 (drop 8 (hs_auth_data hs)),
              hs_auth_plugin_name := hs_auth_plugin_name hs\<rparr>)"
    if "length (hs_auth_data h) = 20" "hs_capability_flags h = hs_capability_flags hs" for h
    using hs_decode_tail_at [of "take 12 (drop 8 (hs_auth_data hs))" h "hs_auth_plugin_name hs" "A @ B"] that assms lenB
    by (simp add: C_def)
  have auth: "take 8 (hs_auth_data hs) @ take 12 (drop 8 (hs_auth_data hs)) = hs_auth_data hs"
    using assms(1) append_take_drop_id [of 8 "hs_auth_data hs"] by simp
  have eq: "[0x0A] @ write_null_str [] (hs_server_version hs) @ write_u32_le [] (hs_connection_id hs) @
     take 8 (hs_auth_data hs) @ [0] @ write_u16_le [] (ucast (hs_capability_flags hs AND 0xFFFF)) @ (B @ C) = A @ B @ C"
    by (simp add: A_def)
  from hs_decode_at [OF assms(2), of "take 8 (hs_auth_data hs)" "hs_connection_id hs"
      "ucast (hs_capability_flags hs AND 0xFFFF)" "B @ C", unfolded eq, folded lenA] assms(1)
  have "hs_decode (A @ B @ C) = Some (Ok hs)"
    by (simp add: ext tail auth join_halves default_HandshakeV10_def)
  then show ?thesis by (simp add: P)
qed

lemma hs_decode_ext_in:
  "\<exists>h' hi n q. hs_decode_ext payload pos h = Some (h', hi, n, q) \<and> length (hs_auth_data h') = length (hs_auth_data h)"
  by (auto simp: hs_decode_ext_def rd_def read_u16_le_def Let_def)

lemma hs_decode_tail_in:
  "\<exists>h'. hs_decode_tail payload pos n h = Some h' \<and> length (hs_auth_data h') = length (hs_auth_data h)"
proof -
  obtain a q where "salt_loop payload pos 8 (nat (min 12 (max 13 (uint n - 8) - 1))) (hs_auth_data h) = Some (a, q)"
    "length a = length (hs_auth_data h)" using salt_loop_in by blast
  then show ?thesis by (auto simp: hs_decode_tail_def Let_def split: prod.splits)
qed

lemma hs_decode_in:
  "\<exists>r. hs_decode payload = Some r \<and> (\<forall>hs. r = Ok hs \<longrightarrow> length (hs_auth_data hs) = 20)"
proof (cases "payload = [] \<or> payload ! 0 \<noteq> 0x0A")
  case False
  obtain sv pos where sv: "read_null_str payload 1 = (sv, pos)" by fastforce
  consider "pos + 4 > length payload" | "pos + 4 \<le> length payload" "pos + 12 > length payload"
    | "pos + 12 \<le> length payload" "pos + 15 > length payload" | "pos + 15 \<le> length payload" by linarith
  then show ?thesis
  proof cases
    case 4
    obtain cid where cid: "read_u32_le payload pos = Some cid" using read_u32_in [of pos payload] 4 by auto
    obtain a where a: "copy_loop payload (pos + 4) 0 8 (hs_auth_data default_HandshakeV10) = Some (a, pos + 4 + 8)"
      "length a = 20"
      using copy_loop_in [of "pos + 4" 8 payload 0 "hs_auth_data default_HandshakeV10"] 4
      by (auto simp: default_HandshakeV10_def)
    obtain lo where lo: "read_u16_le payload (pos + 13) = Some lo" using read_u16_in [of "pos + 13" payload] 4 by auto
    obtain h hi n q where h: "hs_decode_ext payload (pos + 15) (default_HandshakeV10\<lparr>hs_server_version := sv,
        hs_connection_id := cid, hs_auth_data := a\<rparr>) = Some (h, hi, n, q)" "length (hs_auth_data h) = 20"
      using hs_decode_ext_in [of payload "pos + 15"] a(2) by fastforce
    obtain h' where "hs_decode_tail payload q n (h\<lparr>hs_capability_flags := ucast lo OR push_bit 16 hi\<rparr>) = Some h'"
      "length (hs_auth_data h') = 20"
      using hs_decode_tail_in [of payload q n] h(2) by fastforce
    then show ?thesis
      using hs_decode_fields [OF _ _ sv 4 cid _ lo, of a] False a h by (simp add: default_HandshakeV10_def)
  next
    case 3
    obtain cid where cid: "read_u32_le payload pos = Some cid" using read_u32_in [of pos payload] 3 by auto
    obtain a where a: "copy_loop payload (pos + 4) 0 8 (hs_auth_data default_HandshakeV10) = Some (a, pos + 4 + 8)"
      using copy_loop_in [of "pos + 4" 8 payload 0 "hs_auth_data default_HandshakeV10"] 3 by auto
    with False sv cid 3 show ?thesis by (simp add: hs_decode_def)
  next
    case 2
    obtain cid where cid: "read_u32_le payload pos = Some cid" using read_u32_in [of pos payload] 2 by auto
    with False sv 2 show ?thesis by (simp add: hs_decode_def)
  next
    case 1
    with False sv show ?thesis by (simp add: hs_decode_def)
  qed
qed (simp add: hs_decode_def)

section \<open>Round trip and safety of the client response\<close>

definition hr_valid :: "HandshakeResponse41 \<Rightarrow> bool" where
  "hr_valid r \<longleftrightarrow>
     hr_capability_flags r AND caps_PLUGIN_AUTH_LENENC = 0 \<and>
     hr_capability_flags r AND caps_SECURE_CONNECTION \<noteq> 0 \<and>
     length (hr_auth_response r) < 256 \<and> CHR 0x00 \<notin> set (hr_username r) \<and>
     (if hr_capability_flags r AND caps_CONNECT_WITH_DB \<noteq> 0 then CHR 0x00 \<notin> set (hr_database r)
      else hr_database r = []) \<and>
     (if hr_capability_flags r AND caps_PLUGIN_AUTH \<noteq> 0
      then CHR 0x00 \<notin> set (hr_auth_plugin r) \<and> hr_auth_plugin r \<noteq> []
      else hr_auth_plugin r = [])"

lemma hr_decode_auth_at:
  assumes "flags AND caps_PLUGIN_AUTH_LENENC = 0" "flags AND caps_SECURE_CONNECTION \<noteq> 0" "length bs < 256"
  shows "hr_decode_auth (pre @ [word_of_nat (length bs)] @ bs @ rest) (length pre) flags =
    Some (Inr (bs, length pre + 1 + length bs))"
proof -
  have "unat (word_of_nat (length bs) :: u8) = length bs" using assms(3) by (simp add: unat_of_nat)
  then show ?thesis using assms by (simp add: hr_decode_auth_def take_bytes_def)
qed

text \<open>An optional NUL-terminated field at the end of the packet.\<close>

definition opt_str :: "bool \<Rightarrow> string \<Rightarrow> bytes" where
  "opt_str present s = (if present then write_null_str [] s else [])"

lemma opt_str_at:
  assumes "if present then CHR 0x00 \<notin> set s else s = []"
  shows "(if present \<and> length pre < length (pre @ opt_str present s @ rest)
          then read_null_str (pre @ opt_str present s @ rest) (length pre) else ([], length pre)) =
    (s, length pre + length (opt_str present s))"
  using assms null_str_at [of s pre rest] by (auto simp: opt_str_def write_null_str_def)

lemma hr_encode_eq:
  "hr_encode r = write_u32_le [] (hr_capability_flags r) @ write_u32_le [] (hr_max_packet_size r) @
     [hr_character_set r] @ replicate 23 0 @ write_null_str [] (hr_username r) @
     [word_of_nat (length (hr_auth_response r))] @ hr_auth_response r @
     opt_str (hr_capability_flags r AND caps_CONNECT_WITH_DB \<noteq> 0) (hr_database r) @
     opt_str (hr_capability_flags r AND caps_PLUGIN_AUTH \<noteq> 0)
       (if hr_auth_plugin r = [] then NATIVE_PASSWORD else hr_auth_plugin r)"
  by (simp add: hr_encode_def Let_def opt_str_def write_u8_def write_bytes_def write_u32_le_def write_null_str_def)

lemma hr_decode_fields:
  assumes "33 \<le> length payload" "read_u32_le payload 0 = Some flags" "read_u32_le payload 4 = Some mps"
    "rd payload 8 = Some cs" "read_null_str payload 32 = (user, p1)"
    "hr_decode_auth payload p1 flags = Some (Inr (bs, p2))"
    "(if flags AND caps_CONNECT_WITH_DB \<noteq> 0 \<and> p2 < length payload
      then read_null_str payload p2 else ([], p2)) = (db, p3)"
    "(if flags AND caps_PLUGIN_AUTH \<noteq> 0 \<and> p3 < length payload
      then read_null_str payload p3 else ([], p3)) = (plugin, p4)"
  shows "hr_decode payload = Some (Ok \<lparr>hr_capability_flags = flags, hr_max_packet_size = mps,
     hr_character_set = cs, hr_username = user, hr_auth_response = bs, hr_database = db, hr_auth_plugin = plugin\<rparr>)"
  using assms(1-6) unfolding hr_decode_def
  by (simp add: assms(7,8) split del: if_split)

lemma hr_decode_encode:
  assumes "hr_valid r"
  shows "hr_decode (hr_encode r) = Some (Ok r)"
proof -
  define A where "A = write_u32_le [] (hr_capability_flags r) @ write_u32_le [] (hr_max_packet_size r) @
     [hr_character_set r] @ replicate 23 0"
  define U where "U = write_null_str [] (hr_username r)"
  define B where "B = [word_of_nat (length (hr_auth_response r))] @ hr_auth_response r"
  define D where "D = opt_str (hr_capability_flags r AND caps_CONNECT_WITH_DB \<noteq> 0) (hr_database r)"
  define E where "E = opt_str (hr_capability_flags r AND caps_PLUGIN_AUTH \<noteq> 0) (hr_auth_plugin r)"
  note defs = A_def U_def B_def D_def E_def
  have P: "hr_encode r = A @ U @ B @ D @ E"
    using assms by (auto simp: hr_encode_eq defs opt_str_def hr_valid_def)
  have lenA: "length A = 32" by (simp add: A_def write_u32_le_def)
  let ?p1 = "length (A @ U)" and ?p2 = "length (A @ U @ B)" and ?p3 = "length (A @ U @ B @ D)"
  have "hr_decode (A @ U @ B @ D @ E) = Some (Ok \<lparr>hr_capability_flags = hr_capability_flags r,
     hr_max_packet_size = hr_max_packet_size r, hr_character_set = hr_character_set r, hr_username = hr_username r,
     hr_auth_response = hr_auth_response r, hr_database = hr_database r, hr_auth_plugin = hr_auth_plugin r\<rparr>)"
  proof (rule hr_decode_fields)
    show "33 \<le> length (A @ U @ B @ D @ E)" using lenA by (simp add: U_def write_null_str_def)
    show "read_u32_le (A @ U @ B @ D @ E) 0 = Some (hr_capability_flags r)"
      using u32_at [of "[]"] by (simp add: A_def)
    show "read_u32_le (A @ U @ B @ D @ E) 4 = Some (hr_max_packet_size r)"
      by (simp add: A_def read_u32_le_def write_u32_le_def le32)
    show "rd (A @ U @ B @ D @ E) 8 = Some (hr_character_set r)"
      by (simp add: A_def write_u32_le_def)
    show "read_null_str (A @ U @ B @ D @ E) 32 = (hr_username r, ?p1)"
      using null_str_at [of "hr_username r" A "B @ D @ E"] assms lenA by (simp add: hr_valid_def U_def)
    show "hr_decode_auth (A @ U @ B @ D @ E) ?p1 (hr_capability_flags r) = Some (Inr (hr_auth_response r, ?p2))"
      using hr_decode_auth_at [of "hr_capability_flags r" "hr_auth_response r" "A @ U" "D @ E"] assms
      by (simp add: hr_valid_def B_def)
    show "(if hr_capability_flags r AND caps_CONNECT_WITH_DB \<noteq> 0 \<and> ?p2 < length (A @ U @ B @ D @ E)
        then read_null_str (A @ U @ B @ D @ E) ?p2 else ([], ?p2)) = (hr_database r, ?p3)"
    proof -
      have "if hr_capability_flags r AND caps_CONNECT_WITH_DB \<noteq> 0 then CHR 0x00 \<notin> set (hr_database r)
          else hr_database r = []" using assms by (simp add: hr_valid_def)
      from opt_str_at [OF this, of "A @ U @ B" E, folded D_def] show ?thesis
        by (simp only: append_assoc length_append add.assoc)
    qed
    show "(if hr_capability_flags r AND caps_PLUGIN_AUTH \<noteq> 0 \<and> ?p3 < length (A @ U @ B @ D @ E)
        then read_null_str (A @ U @ B @ D @ E) ?p3 else ([], ?p3)) = (hr_auth_plugin r, length (A @ U @ B @ D @ E))"
      using opt_str_at [of "hr_capability_flags r AND caps_PLUGIN_AUTH \<noteq> 0" "hr_auth_plugin r" "A @ U @ B @ D" "[]"] assms
      by (simp add: hr_valid_def E_def split: if_splits)
  qed
  then show ?thesis by (simp add: P)
qed

lemma hr_decode_auth_safe:
  assumes "length payload < 2 ^ 64" "p \<le> length payload"
  shows "hr_decode_auth payload p flags = None \<longleftrightarrow>
    flags AND caps_PLUGIN_AUTH_LENENC \<noteq> 0 \<and>
    (\<exists>len q. read_lenenc_int payload p = Some (len, q) \<and> q + unat len \<ge> 2 ^ 64)"
proof -
  obtain len q where l: "read_lenenc_int payload p = Some (len, q)" "q \<le> length payload"
    using read_lenenc_int_in [of payload p] assms(2) by auto
  have "(q + unat len) mod 2 ^ 64 = (if q + unat len < 2 ^ 64 then q + unat len else q + unat len - 2 ^ 64)"
    using l(2) assms(1) unsigned_less [of len, where 'a = nat] by (simp add: mod_if)
  moreover have "q + unat len - 2 ^ 64 \<le> length payload"
    using l(2) unsigned_less [of len, where 'a = nat] by simp
  ultimately show ?thesis
    using l assms by (auto simp: hr_decode_auth_def take_bytes_def rd_def Let_def split: if_splits)
qed

lemma hr_decode_cases:
  assumes "33 \<le> length payload"
  obtains flags mps cs user p1 where "read_u32_le payload 0 = Some flags" "read_u32_le payload 4 = Some mps"
    "rd payload 8 = Some cs" "read_null_str payload 32 = (user, p1)" "p1 \<le> length payload"
proof -
  obtain flags mps where "read_u32_le payload 0 = Some flags" "read_u32_le payload 4 = Some mps"
    using read_u32_in [of 0 payload] read_u32_in [of 4 payload] assms by auto
  moreover obtain cs where "rd payload 8 = Some cs" using assms by (simp add: rd_def)
  moreover obtain user p1 where u: "read_null_str payload 32 = (user, p1)" by fastforce
  moreover have "p1 \<le> length payload" using read_null_str_in [OF u] assms by auto
  ultimately show thesis using that by blast
qed

lemma hr_decode_None:
  assumes "33 \<le> length payload" "read_u32_le payload 0 = Some flags" "read_null_str payload 32 = (user, p1)"
  shows "hr_decode payload = None \<longleftrightarrow> hr_decode_auth payload p1 flags = None"
proof -
  obtain mps cs where "read_u32_le payload 4 = Some mps" "rd payload 8 = Some cs"
    using hr_decode_cases [OF assms(1)] by blast
  with assms show ?thesis
    by (cases "hr_decode_auth payload p1 flags") (auto simp: hr_decode_def Let_def split: sum.splits prod.splits)
qed

section \<open>The password challenge\<close>

lemma xor_bytes_cancel:
  "length a = length b \<Longrightarrow> xor_bytes (xor_bytes a b) b = a"
  by (induction a b rule: list_induct2) (simp_all add: xor_bytes_def xor.assoc)

lemma length_xor_bytes [simp]: "length (xor_bytes a b) = min (length a) (length b)"
  by (simp add: xor_bytes_def)

lemma verify_scramble:
  assumes "\<And>x. length (sha1 x) = 20" and "pwd \<noteq> []"
  shows "verify_native_password sha1 pwd salt resp \<longleftrightarrow> resp = scramble_native_password sha1 pwd salt"
proof -
  let ?h1 = "sha1 (map byte_of pwd)" and ?h3 = "sha1 (salt @ sha1 (sha1 (map byte_of pwd)))"
  have "xor_bytes resp ?h3 = ?h1 \<longleftrightarrow> resp = xor_bytes ?h1 ?h3" if "length resp = 20"
    using that assms(1) xor_bytes_cancel [of resp ?h3] xor_bytes_cancel [of ?h1 ?h3] by metis
  moreover have "length (xor_bytes ?h1 ?h3) = 20" by (simp add: assms(1))
  ultimately show ?thesis
    using assms(2) by (auto simp: verify_native_password_def scramble_native_password_def native_hashes_def Let_def)
qed

section \<open>Properties\<close>

text \<open>C19. A server handshake reads back as itself: version, connection id, the 20 bytes of the salt in
  their two parts, all 32 capability flags, character set, status and plugin name.\<close>

theorem handshake_roundtrip:
  assumes "length (hs_auth_data hs) = 20"
    and "CHR 0x00 \<notin> set (hs_server_version hs)" and "CHR 0x00 \<notin> set (hs_auth_plugin_name hs)"
    and "hs_capability_flags hs AND caps_SECURE_CONNECTION \<noteq> 0"
    and "hs_capability_flags hs AND caps_PLUGIN_AUTH \<noteq> 0"
  shows "hs_decode (hs_encode hs) = Some (Ok hs)"
  using assms by (rule hs_decode_encode)

theorem handshake_roundtrip_witness:
  "hs_decode (hs_encode (default_HandshakeV10\<lparr>hs_connection_id := 7, hs_auth_data := replicate 20 0x41\<rparr>)) =
   Some (Ok (default_HandshakeV10\<lparr>hs_connection_id := 7, hs_auth_data := replicate 20 0x41\<rparr>))"
  by (rule handshake_roundtrip)
     (simp_all add: default_HandshakeV10_def NATIVE_PASSWORD_def SERVER_FLAGS_eq caps_SECURE_CONNECTION_def
       caps_PLUGIN_AUTH_def)

text \<open>C21. Decoding the handshake of a backend is memory safe: every packet, however truncated or
  malformed, gives a handshake with a salt of 20 bytes or an error, and no byte outside the packet
  is read.\<close>

theorem handshake_decode_safe:
  "case hs_decode payload of
     None \<Rightarrow> False
   | Some (Err e) \<Rightarrow> True
   | Some (Ok hs) \<Rightarrow> length (hs_auth_data hs) = 20"
  using hs_decode_in [of payload] by (auto split: result.splits)

text \<open>The response that the proxy sends to a backend reads back as itself.\<close>

lemma response_roundtrip:
  assumes "hr_valid r"
  shows "hr_decode (hr_encode r) = Some (Ok r)"
  using assms by (rule hr_decode_encode)

definition sample_response :: HandshakeResponse41 where
  "sample_response = \<lparr>hr_capability_flags = caps_SERVER_FLAGS, hr_max_packet_size = 0x1000000,
     hr_character_set = charset_UTF8MB4, hr_username = ''app'', hr_auth_response = replicate 20 7,
     hr_database = ''shop'', hr_auth_plugin = ''mysql_native_password''\<rparr>"

text \<open>C31. Decoding a client response reads outside the packet or throws exactly when the client sets
  \<open>PLUGIN_AUTH_LENENC\<close> and announces a length that makes the 64-bit sum in the bound check wrap.\<close>

theorem response_decode_safe_iff:
  assumes "33 \<le> length payload" and "length payload < 2 ^ 64"
    and "read_u32_le payload 0 = Some flags" and "read_null_str payload 32 = (user, p)"
  shows "hr_decode payload = None \<longleftrightarrow>
    flags AND caps_PLUGIN_AUTH_LENENC \<noteq> 0 \<and>
    (\<exists>len q. read_lenenc_int payload p = Some (len, q) \<and> q + unat len \<ge> 2 ^ 64)"
proof -
  have "p \<le> length payload" using read_null_str_in [OF assms(4)] assms(1) by auto
  with hr_decode_None [OF assms(1,3,4)] hr_decode_auth_safe [OF assms(2)] show ?thesis by simp
qed

text \<open>A packet of 42 bytes with an empty user name and an announced length of \<open>2 ^ 64 - 1\<close>.\<close>

definition wrap_packet :: bytes where
  "wrap_packet = [0, 0, 0x20, 0] @ replicate 29 0 @ [0xFE] @ replicate 8 0xFF"

theorem response_decode_safe_iff_witness: "hr_decode wrap_packet = None"
proof -
  have l: "length wrap_packet = 42" by (simp add: wrap_packet_def)
  have "read_u32_le wrap_packet 0 = Some caps_PLUGIN_AUTH_LENENC" "read_null_str wrap_packet 32 = ([], 33)"
    "read_lenenc_int wrap_packet 33 = Some (- 1, 42)"
    by code_simp+
  with response_decode_safe_iff [of wrap_packet caps_PLUGIN_AUTH_LENENC "[]" 33] l show ?thesis
    by (simp add: unsigned_minus_1_eq_mask mask_eq_exp_minus_1 caps_PLUGIN_AUTH_LENENC_def)
qed

text \<open>For a password that is not empty, the proxy accepts a response exactly when it is the token
  that a client computes from the same password and salt, whatever 20-byte hash \<open>sha1\<close> is.\<close>

lemma verify_iff_scramble:
  assumes "\<And>x. length (sha1 x) = 20" and "pwd \<noteq> []"
  shows "verify_native_password sha1 pwd salt resp \<longleftrightarrow> resp = scramble_native_password sha1 pwd salt"
  using assms by (rule verify_scramble)

text \<open>With an empty password the token that the proxy's own client side computes, the empty
  response, is never accepted by its server side.\<close>

lemma empty_password_rejected:
  "\<not> verify_native_password sha1 [] salt (scramble_native_password sha1 [] salt')"
  by (simp add: verify_native_password_def scramble_native_password_def)

end
