(* ===== verification/ConfigTypes.thy ===== *)
theory ConfigTypes
  imports Types
begin

text \<open>
  The configuration structures of \<open>core/include/dbmesh/core/config.h\<close>, field for field, and
  for each the value that its default member initialisers give (\<open>default_X\<close> is \<open>X{}\<close>).
  Fields carry a prefix for their structure. The anonymous nested structures of
  \<open>AuthConfig\<close> and \<open>ApiConfig\<close> are flattened (\<open>auth_users_file\<close> is \<open>auth.local.users_file\<close>,
  \<open>api_ui_path\<close> is \<open>api.ui.path\<close>); the base class of \<open>TlsConfig::BackendTls\<close> is its field
  \<open>btls_endpoint\<close>. A \<open>std::map\<close> of tags is its list of entries.
\<close>

record NodeConfig =
  node_id :: string
  node_name :: string
  node_data_dir :: string
  node_mode :: NodeMode

definition default_NodeConfig :: NodeConfig where
  "default_NodeConfig =
     \<lparr>node_id = '''',
      node_name = '''',
      node_data_dir = ''/var/lib/dbmesh'',
      node_mode = STANDALONE\<rparr>"

record ListenerConfig =
  lst_enabled :: bool
  lst_bind :: string
  lst_port :: u16
  lst_max_connections :: u32
  lst_backlog :: u32
  lst_io_threads :: u32

definition default_ListenerConfig :: ListenerConfig where
  "default_ListenerConfig =
     \<lparr>lst_enabled = False,
      lst_bind = ''0.0.0.0'',
      lst_port = 0,
      lst_max_connections = 100000,
      lst_backlog = 1024,
      lst_io_threads = 4\<rparr>"

record ListenersConfig =
  lsts_mysql :: ListenerConfig
  lsts_postgres :: ListenerConfig
  lsts_admin :: ListenerConfig

definition default_ListenersConfig :: ListenersConfig where
  "default_ListenersConfig =
     \<lparr>lsts_mysql = default_ListenerConfig,
      lsts_postgres = default_ListenerConfig,
      lsts_admin = default_ListenerConfig\<rparr>"

record TlsEndpointConfig =
  tlse_enabled :: bool
  tlse_cert :: string
  tlse_key :: string
  tlse_ca :: string
  tlse_mutual :: bool
  tlse_min_version :: string

definition default_TlsEndpointConfig :: TlsEndpointConfig where
  "default_TlsEndpointConfig =
     \<lparr>tlse_enabled = False,
      tlse_cert = '''',
      tlse_key = '''',
      tlse_ca = '''',
      tlse_mutual = False,
      tlse_min_version = ''TLSv1.2''\<rparr>"

record BackendTls =
  btls_endpoint :: TlsEndpointConfig
  btls_verify_server :: bool

definition default_BackendTls :: BackendTls where
  "default_BackendTls =
     \<lparr>btls_endpoint = default_TlsEndpointConfig,
      btls_verify_server = True\<rparr>"

record TlsConfig =
  tls_frontend :: TlsEndpointConfig
  tls_backend :: BackendTls

definition default_TlsConfig :: TlsConfig where
  "default_TlsConfig =
     \<lparr>tls_frontend = default_TlsEndpointConfig,
      tls_backend = default_BackendTls\<rparr>"

record PoolConfig =
  pool_min :: u32
  pool_max :: u32
  pool_idle_timeout_sec :: u32
  pool_connect_timeout_ms :: u32
  pool_acquire_timeout_ms :: u32
  pool_warm :: bool

definition default_PoolConfig :: PoolConfig where
  "default_PoolConfig =
     \<lparr>pool_min = 10,
      pool_max = 100,
      pool_idle_timeout_sec = 60,
      pool_connect_timeout_ms = 2000,
      pool_acquire_timeout_ms = 5000,
      pool_warm = True\<rparr>"

record BackendConfig =
  bc_id :: string
  bc_type :: BackendType
  bc_host :: string
  bc_port :: u16
  bc_role :: BackendRole
  bc_group :: string
  bc_user :: string
  bc_password :: string
  bc_secrets_file :: string
  bc_weight :: u32
  bc_max_replication_lag_ms :: u32
  bc_pool :: PoolConfig
  bc_tags :: "(string \<times> string) list"

definition default_BackendConfig :: BackendConfig where
  "default_BackendConfig =
     \<lparr>bc_id = '''',
      bc_type = MYSQL,
      bc_host = '''',
      bc_port = 3306,
      bc_role = PRIMARY,
      bc_group = '''',
      bc_user = '''',
      bc_password = '''',
      bc_secrets_file = '''',
      bc_weight = 100,
      bc_max_replication_lag_ms = 500,
      bc_pool = default_PoolConfig,
      bc_tags = []\<rparr>"

record SchemaConfig =
  sc_name :: string
  sc_backend_group :: string
  sc_routing_policy :: "RoutingPolicy option"
  sc_session_recovery :: "RecoveryMode option"
  sc_session_affinity :: "AffinityMode option"
  sc_read_write_split :: "bool option"

definition default_SchemaConfig :: SchemaConfig where
  "default_SchemaConfig =
     \<lparr>sc_name = '''',
      sc_backend_group = '''',
      sc_routing_policy = None,
      sc_session_recovery = None,
      sc_session_affinity = None,
      sc_read_write_split = None\<rparr>"

record TenantMapping =
  tm_tenant :: string
  tm_backend_group :: string

definition default_TenantMapping :: TenantMapping where
  "default_TenantMapping =
     \<lparr>tm_tenant = '''',
      tm_backend_group = ''''\<rparr>"

record TenantsConfig =
  tn_enabled :: bool
  tn_attribute_key :: string
  tn_mappings :: "TenantMapping list"

definition default_TenantsConfig :: TenantsConfig where
  "default_TenantsConfig =
     \<lparr>tn_enabled = False,
      tn_attribute_key = ''tenant'',
      tn_mappings = []\<rparr>"

record RoutingConfig =
  rt_default_policy :: RoutingPolicy
  rt_read_write_split :: bool
  rt_send_writes_to_primary :: bool
  rt_replication_aware :: bool
  rt_max_replica_lag_ms :: u32
  rt_tenants :: TenantsConfig

definition default_RoutingConfig :: RoutingConfig where
  "default_RoutingConfig =
     \<lparr>rt_default_policy = ROUND_ROBIN,
      rt_read_write_split = True,
      rt_send_writes_to_primary = True,
      rt_replication_aware = True,
      rt_max_replica_lag_ms = 500,
      rt_tenants = default_TenantsConfig\<rparr>"

record PerUserSessionConfig =
  pu_user :: string
  pu_recovery_mode :: "RecoveryMode option"
  pu_affinity :: "AffinityMode option"

definition default_PerUserSessionConfig :: PerUserSessionConfig where
  "default_PerUserSessionConfig =
     \<lparr>pu_user = '''',
      pu_recovery_mode = None,
      pu_affinity = None\<rparr>"

record SessionConfig =
  ses_recovery_mode :: RecoveryMode
  ses_affinity :: AffinityMode
  ses_max_idle_sec :: u32
  ses_max_lifetime_sec :: u32
  ses_per_user :: "PerUserSessionConfig list"

definition default_SessionConfig :: SessionConfig where
  "default_SessionConfig =
     \<lparr>ses_recovery_mode = BASIC,
      ses_affinity = Affinity_TRANSACTION,
      ses_max_idle_sec = 300,
      ses_max_lifetime_sec = 3600,
      ses_per_user = []\<rparr>"

record HealthCheckConfig =
  hc_interval_ms :: u32
  hc_timeout_ms :: u32
  hc_failure_threshold :: u32
  hc_recovery_threshold :: u32
  hc_method :: string
  hc_query :: string

definition default_HealthCheckConfig :: HealthCheckConfig where
  "default_HealthCheckConfig =
     \<lparr>hc_interval_ms = 100,
      hc_timeout_ms = 500,
      hc_failure_threshold = 3,
      hc_recovery_threshold = 2,
      hc_method = ''query'',
      hc_query = ''SELECT 1''\<rparr>"

record QueryRecoveryConfig =
  qr_enabled :: bool
  qr_retry_selects :: bool
  qr_retry_writes :: bool
  qr_max_retries :: u32
  qr_retry_delay_ms :: u32
  qr_retry_backoff :: string

definition default_QueryRecoveryConfig :: QueryRecoveryConfig where
  "default_QueryRecoveryConfig =
     \<lparr>qr_enabled = True,
      qr_retry_selects = True,
      qr_retry_writes = False,
      qr_max_retries = 3,
      qr_retry_delay_ms = 100,
      qr_retry_backoff = ''exponential''\<rparr>"

record FailoverConfig =
  fo_enabled :: bool
  fo_policy :: FailoverPolicy
  fo_grace_period_ms :: u32
  fo_promotion_enabled :: bool
  fo_promotion_strategy :: string
  fo_query_recovery :: QueryRecoveryConfig
  fo_health_check :: HealthCheckConfig

definition default_FailoverConfig :: FailoverConfig where
  "default_FailoverConfig =
     \<lparr>fo_enabled = True,
      fo_policy = IMMEDIATE,
      fo_grace_period_ms = 5000,
      fo_promotion_enabled = True,
      fo_promotion_strategy = ''most_recent'',
      fo_query_recovery = default_QueryRecoveryConfig,
      fo_health_check = default_HealthCheckConfig\<rparr>"

record GossipConfig =
  gos_interval_ms :: u32
  gos_fanout :: u32
  gos_suspicion_mult :: u32
  gos_retransmit_mult :: u32
  gos_sync_keys :: "string list"

definition default_GossipConfig :: GossipConfig where
  "default_GossipConfig =
     \<lparr>gos_interval_ms = 200,
      gos_fanout = 3,
      gos_suspicion_mult = 4,
      gos_retransmit_mult = 4,
      gos_sync_keys = [''schema_registry'', ''backend_state'', ''membership'', ''health'', ''config_versions'']\<rparr>"

record ClusterConfig =
  cl_enabled :: bool
  cl_bind :: string
  cl_port :: u16
  cl_discovery :: string
  cl_seed_nodes :: "string list"
  cl_seed_dns :: string
  cl_gossip :: GossipConfig

definition default_ClusterConfig :: ClusterConfig where
  "default_ClusterConfig =
     \<lparr>cl_enabled = False,
      cl_bind = ''0.0.0.0'',
      cl_port = 7946,
      cl_discovery = ''hybrid'',
      cl_seed_nodes = [],
      cl_seed_dns = '''',
      cl_gossip = default_GossipConfig\<rparr>"

record LdapConfig =
  ldap_enabled :: bool
  ldap_url :: string
  ldap_base_dn :: string
  ldap_bind_dn :: string
  ldap_bind_password :: string
  ldap_user_filter :: string
  ldap_group_attribute :: string
  ldap_timeout_ms :: u32
  ldap_start_tls :: bool

definition default_LdapConfig :: LdapConfig where
  "default_LdapConfig =
     \<lparr>ldap_enabled = False,
      ldap_url = '''',
      ldap_base_dn = '''',
      ldap_bind_dn = '''',
      ldap_bind_password = '''',
      ldap_user_filter = ''(uid={user})'',
      ldap_group_attribute = ''memberOf'',
      ldap_timeout_ms = 3000,
      ldap_start_tls = False\<rparr>"

record JwtConfig =
  jwt_enabled :: bool
  jwt_algorithm :: string
  jwt_public_key :: string
  jwt_secret :: string
  jwt_issuer :: string
  jwt_audience :: string
  jwt_leeway_sec :: u32

definition default_JwtConfig :: JwtConfig where
  "default_JwtConfig =
     \<lparr>jwt_enabled = False,
      jwt_algorithm = ''RS256'',
      jwt_public_key = '''',
      jwt_secret = '''',
      jwt_issuer = '''',
      jwt_audience = '''',
      jwt_leeway_sec = 30\<rparr>"

record AuthConfig =
  auth_method :: string
  auth_users_file :: string
  auth_ldap :: LdapConfig
  auth_jwt :: JwtConfig

definition default_AuthConfig :: AuthConfig where
  "default_AuthConfig =
     \<lparr>auth_method = ''local'',
      auth_users_file = ''/etc/dbmesh/users.yaml'',
      auth_ldap = default_LdapConfig,
      auth_jwt = default_JwtConfig\<rparr>"

record RbacConfig =
  rbac_enabled :: bool
  rbac_roles_file :: string

definition default_RbacConfig :: RbacConfig where
  "default_RbacConfig =
     \<lparr>rbac_enabled = True,
      rbac_roles_file = ''/etc/dbmesh/roles.yaml''\<rparr>"

record FirewallRule =
  fr_name :: string
  fr_match :: string
  fr_match_regex :: string
  fr_action :: string
  fr_message :: string
  fr_schemas :: "string list"
  fr_users :: "string list"

definition default_FirewallRule :: FirewallRule where
  "default_FirewallRule =
     \<lparr>fr_name = '''',
      fr_match = '''',
      fr_match_regex = '''',
      fr_action = '''',
      fr_message = '''',
      fr_schemas = [],
      fr_users = []\<rparr>"

record FirewallConfig =
  fw_enabled :: bool
  fw_default_action :: string
  fw_rules :: "FirewallRule list"

definition default_FirewallConfig :: FirewallConfig where
  "default_FirewallConfig =
     \<lparr>fw_enabled = False,
      fw_default_action = ''allow'',
      fw_rules = []\<rparr>"

record RateLimitOverride =
  rlo_key :: string
  rlo_qps :: u32

definition default_RateLimitOverride :: RateLimitOverride where
  "default_RateLimitOverride =
     \<lparr>rlo_key = '''',
      rlo_qps = 0\<rparr>"

record RateLimitDimension =
  rld_enabled :: bool
  rld_default_qps :: u32
  rld_burst_multiplier :: double
  rld_overrides :: "RateLimitOverride list"

definition default_RateLimitDimension :: RateLimitDimension where
  "default_RateLimitDimension =
     \<lparr>rld_enabled = False,
      rld_default_qps = 5000,
      rld_burst_multiplier = 0x4000000000000000,
      rld_overrides = []\<rparr>"

record RateLimitConfig =
  rl_enabled :: bool
  rl_per_user :: RateLimitDimension
  rl_per_ip :: RateLimitDimension
  rl_per_schema :: RateLimitDimension
  rl_per_tenant :: RateLimitDimension

definition default_RateLimitConfig :: RateLimitConfig where
  "default_RateLimitConfig =
     \<lparr>rl_enabled = False,
      rl_per_user = default_RateLimitDimension,
      rl_per_ip = default_RateLimitDimension,
      rl_per_schema = default_RateLimitDimension,
      rl_per_tenant = default_RateLimitDimension\<rparr>"

record ApiConfig =
  api_enabled :: bool
  api_bind :: string
  api_port :: u16
  api_auth :: bool
  api_token_file :: string
  api_ui_enabled :: bool
  api_ui_path :: string
  api_cors_enabled :: bool
  api_cors_origins :: "string list"
  api_max_request_body_kb :: u32
  api_request_timeout_ms :: u32

definition default_ApiConfig :: ApiConfig where
  "default_ApiConfig =
     \<lparr>api_enabled = True,
      api_bind = ''127.0.0.1'',
      api_port = 8080,
      api_auth = True,
      api_token_file = ''/etc/dbmesh/api_token'',
      api_ui_enabled = True,
      api_ui_path = ''/ui'',
      api_cors_enabled = False,
      api_cors_origins = [],
      api_max_request_body_kb = 512,
      api_request_timeout_ms = 10000\<rparr>"

record PrometheusConfig =
  prom_enabled :: bool
  prom_bind :: string
  prom_port :: u16
  prom_path :: string
  prom_auth :: bool

definition default_PrometheusConfig :: PrometheusConfig where
  "default_PrometheusConfig =
     \<lparr>prom_enabled = True,
      prom_bind = ''0.0.0.0'',
      prom_port = 9090,
      prom_path = ''/metrics'',
      prom_auth = False\<rparr>"

record TracingConfig =
  tr_enabled :: bool
  tr_exporter :: string
  tr_endpoint :: string
  tr_service_name :: string
  tr_service_version :: string
  tr_sample_rate :: double
  tr_propagation :: string

definition default_TracingConfig :: TracingConfig where
  "default_TracingConfig =
     \<lparr>tr_enabled = False,
      tr_exporter = ''otlp'',
      tr_endpoint = ''http://otel-collector:4318'',
      tr_service_name = ''dbmesh'',
      tr_service_version = ''0.1.0'',
      tr_sample_rate = 0x3FB999999999999A,
      tr_propagation = ''w3c''\<rparr>"

record MetricsConfig =
  met_prometheus :: PrometheusConfig
  met_tracing :: TracingConfig

definition default_MetricsConfig :: MetricsConfig where
  "default_MetricsConfig =
     \<lparr>met_prometheus = default_PrometheusConfig,
      met_tracing = default_TracingConfig\<rparr>"

record LogFileConfig =
  lf_path :: string
  lf_rotate :: bool
  lf_max_size_mb :: u32
  lf_max_backups :: u32
  lf_compress :: bool

definition default_LogFileConfig :: LogFileConfig where
  "default_LogFileConfig =
     \<lparr>lf_path = ''/var/log/dbmesh/dbmesh.log'',
      lf_rotate = True,
      lf_max_size_mb = 100,
      lf_max_backups = 7,
      lf_compress = True\<rparr>"

record AuditConfig =
  aud_enabled :: bool
  aud_output :: string
  aud_file :: string
  aud_log_queries :: bool
  aud_log_connections :: bool
  aud_log_failovers :: bool
  aud_log_auth :: bool
  aud_log_config_changes :: bool
  aud_log_firewall_hits :: bool

definition default_AuditConfig :: AuditConfig where
  "default_AuditConfig =
     \<lparr>aud_enabled = True,
      aud_output = ''both'',
      aud_file = ''/var/log/dbmesh/audit.log'',
      aud_log_queries = False,
      aud_log_connections = True,
      aud_log_failovers = True,
      aud_log_auth = True,
      aud_log_config_changes = True,
      aud_log_firewall_hits = True\<rparr>"

record LoggingConfig =
  lg_level :: string
  lg_format :: string
  lg_output :: string
  lg_file :: LogFileConfig
  lg_audit :: AuditConfig

definition default_LoggingConfig :: LoggingConfig where
  "default_LoggingConfig =
     \<lparr>lg_level = ''INFO'',
      lg_format = ''json'',
      lg_output = ''stdout'',
      lg_file = default_LogFileConfig,
      lg_audit = default_AuditConfig\<rparr>"

record Config =
  cfg_node :: NodeConfig
  cfg_listeners :: ListenersConfig
  cfg_tls :: TlsConfig
  cfg_backends :: "BackendConfig list"
  cfg_schemas :: "SchemaConfig list"
  cfg_routing :: RoutingConfig
  cfg_session :: SessionConfig
  cfg_failover :: FailoverConfig
  cfg_cluster :: ClusterConfig
  cfg_auth :: AuthConfig
  cfg_rbac :: RbacConfig
  cfg_firewall :: FirewallConfig
  cfg_rate_limit :: RateLimitConfig
  cfg_api :: ApiConfig
  cfg_metrics :: MetricsConfig
  cfg_logging :: LoggingConfig

definition default_Config :: Config where
  "default_Config =
     \<lparr>cfg_node = default_NodeConfig,
      cfg_listeners = default_ListenersConfig,
      cfg_tls = default_TlsConfig,
      cfg_backends = [],
      cfg_schemas = [],
      cfg_routing = default_RoutingConfig,
      cfg_session = default_SessionConfig,
      cfg_failover = default_FailoverConfig,
      cfg_cluster = default_ClusterConfig,
      cfg_auth = default_AuthConfig,
      cfg_rbac = default_RbacConfig,
      cfg_firewall = default_FirewallConfig,
      cfg_rate_limit = default_RateLimitConfig,
      cfg_api = default_ApiConfig,
      cfg_metrics = default_MetricsConfig,
      cfg_logging = default_LoggingConfig\<rparr>"

end
