(* ===== verification/SchemaRegistry.thy ===== *)
theory SchemaRegistry
  imports ConfigTypes "HOL-Library.AList"
begin

text \<open>
  \<open>routing/src/schema_registry.cpp\<close>: the copy-on-write registry of schemas. A
  \<open>std::unordered_map\<close> is an association list with distinct keys in insertion order; the order
  in which the standard library iterates is not specified, so a loop over a map takes a
  function \<open>it\<close> that reorders the entries. Readers see the map that \<open>current_\<close> points to;
  writers are serialised by \<open>write_lock_\<close>, so each operation is one step.
\<close>

section \<open>The registry\<close>

record SchemaRegistry =
  sr_current :: "(string \<times> SchemaConfig) list"
  sr_version :: u64

text \<open>\<open>emplace\<close> keeps an existing entry.\<close>

definition emplace :: "'k \<Rightarrow> 'v \<Rightarrow> ('k \<times> 'v) list \<Rightarrow> ('k \<times> 'v) list" where
  "emplace k v m = (case map_of m k of None \<Rightarrow> m @ [(k, v)] | Some _ \<Rightarrow> m)"

definition sr_new :: SchemaRegistry where
  "sr_new = \<lparr>sr_current = [], sr_version = 0\<rparr>"

definition sr_load :: "SchemaConfig list \<Rightarrow> SchemaRegistry \<Rightarrow> SchemaRegistry" where
  "sr_load schemas r =
     r\<lparr>sr_current := fold (\<lambda>s m. emplace (sc_name s) s m) schemas [], sr_version := sr_version r + 1\<rparr>"

definition sr_find :: "SchemaRegistry \<Rightarrow> string \<Rightarrow> SchemaConfig option" where
  "sr_find r name = map_of (sr_current r) name"

definition sr_lookup :: "SchemaRegistry \<Rightarrow> string \<Rightarrow> SchemaConfig option" where
  "sr_lookup r name =
     (case sr_find r name of
        Some c \<Rightarrow> Some c
      | None \<Rightarrow> (case sr_find r ''default'' of Some c \<Rightarrow> Some c | None \<Rightarrow> None))"

definition sr_upsert :: "SchemaConfig \<Rightarrow> SchemaRegistry \<Rightarrow> SchemaRegistry" where
  "sr_upsert config r =
     r\<lparr>sr_current := AList.update (sc_name config) config (sr_current r),
       sr_version := sr_version r + 1\<rparr>"

definition sr_remove :: "string \<Rightarrow> SchemaRegistry \<Rightarrow> SchemaRegistry" where
  "sr_remove name r =
     (if name = ''default'' then r
      else if sr_find r name = None then r
      else r\<lparr>sr_current := AList.delete name (sr_current r), sr_version := sr_version r + 1\<rparr>)"

definition sr_size :: "SchemaRegistry \<Rightarrow> nat" where
  "sr_size r = length (sr_current r)"

definition sr_snapshot :: "((string \<times> SchemaConfig) list \<Rightarrow> (string \<times> SchemaConfig) list)
    \<Rightarrow> SchemaRegistry \<Rightarrow> SchemaConfig list" where
  "sr_snapshot it r = map snd (it (sr_current r))"

section \<open>Well-formedness\<close>

text \<open>Keys are distinct and every schema is stored under its own name.\<close>

definition sr_inv :: "SchemaRegistry \<Rightarrow> bool" where
  "sr_inv r \<longleftrightarrow> distinct (map fst (sr_current r)) \<and> list_all (\<lambda>(k, c). sc_name c = k) (sr_current r)"

lemma map_of_emplace:
  "map_of (emplace k v m) k' = (if k' = k \<and> map_of m k = None then Some v else map_of m k')"
  by (auto simp: emplace_def map_add_def split: option.splits)

lemma set_emplace: "set (emplace k v m) = (if map_of m k = None then insert (k, v) (set m) else set m)"
  by (auto simp: emplace_def split: option.splits)

lemma distinct_emplace: "distinct (map fst m) \<Longrightarrow> distinct (map fst (emplace k v m))"
  by (auto simp: emplace_def map_of_eq_None_iff split: option.splits)

lemma fold_emplace_inv:
  "distinct (map fst m) \<and> list_all (\<lambda>(k, c). f c = k) m \<Longrightarrow>
   distinct (map fst (fold (\<lambda>s m. emplace (f s) s m) xs m)) \<and>
   list_all (\<lambda>(k, c). f c = k) (fold (\<lambda>s m. emplace (f s) s m) xs m)"
proof (induction xs arbitrary: m)
  case (Cons x xs)
  have "distinct (map fst (emplace (f x) x m)) \<and> list_all (\<lambda>(k, c). f c = k) (emplace (f x) x m)"
    using Cons.prems by (auto simp: distinct_emplace list_all_iff set_emplace)
  then show ?case using Cons.IH by simp
qed simp

lemma sr_inv_new: "sr_inv sr_new"
  by (simp add: sr_inv_def sr_new_def)

lemma sr_inv_load: "sr_inv (sr_load schemas r)"
  using fold_emplace_inv [of "[]" sc_name schemas] by (simp add: sr_inv_def sr_load_def)

lemma list_all_update:
  "list_all P m \<Longrightarrow> P (k, v) \<Longrightarrow> list_all P (AList.update k v m)"
  by (induction m) (auto split: if_splits)

lemma sr_inv_upsert: "sr_inv r \<Longrightarrow> sr_inv (sr_upsert c r)"
  by (simp add: sr_inv_def sr_upsert_def distinct_update list_all_update)

lemma sr_inv_remove: "sr_inv r \<Longrightarrow> sr_inv (sr_remove n r)"
  by (auto simp: sr_inv_def sr_remove_def list_all_iff AList.delete_eq distinct_map_filter)

section \<open>The contract of a schema store\<close>

text \<open>
  What the routing engine relies on: \<open>find\<close> is a partial map that \<open>upsert\<close> and \<open>remove\<close> update
  at one key, and the entry named \<open>default\<close> is never removed.
\<close>

locale schema_store =
  fixes find :: "'s \<Rightarrow> string \<Rightarrow> SchemaConfig option"
    and upsert :: "SchemaConfig \<Rightarrow> 's \<Rightarrow> 's"
    and remove :: "string \<Rightarrow> 's \<Rightarrow> 's"
    and inv :: "'s \<Rightarrow> bool"
  assumes find_upsert: "inv r \<Longrightarrow> find (upsert c r) = (find r)(sc_name c \<mapsto> c)"
    and find_remove: "inv r \<Longrightarrow> n \<noteq> ''default'' \<Longrightarrow> find (remove n r) = (find r)(n := None)"
    and find_remove_default: "inv r \<Longrightarrow> find (remove ''default'' r) = find r"
    and inv_upsert: "inv r \<Longrightarrow> inv (upsert c r)"
    and inv_remove: "inv r \<Longrightarrow> inv (remove n r)"
begin

definition apply_op :: "SchemaConfig + string \<Rightarrow> 's \<Rightarrow> 's" where
  "apply_op op r = (case op of Inl c \<Rightarrow> upsert c r | Inr n \<Rightarrow> remove n r)"

lemma inv_apply_op: "inv r \<Longrightarrow> inv (apply_op op r)"
  by (simp add: apply_op_def inv_upsert inv_remove split: sum.splits)

lemma apply_op_default:
  "inv r \<Longrightarrow> find r ''default'' \<noteq> None \<Longrightarrow> find (apply_op op r) ''default'' \<noteq> None"
  by (cases op; cases "projr op = ''default''")
     (auto simp: apply_op_def find_upsert find_remove find_remove_default)

lemma default_persists:
  "inv r \<Longrightarrow> find r ''default'' \<noteq> None \<Longrightarrow> find (fold apply_op ops r) ''default'' \<noteq> None"
  by (induction ops arbitrary: r) (simp_all add: inv_apply_op apply_op_default del: not_None_eq)

lemma inv_fold: "inv r \<Longrightarrow> inv (fold apply_op ops r)"
  by (induction ops arbitrary: r) (simp_all add: inv_apply_op)

end

lemma sr_find_upsert: "sr_find (sr_upsert c r) = (sr_find r)(sc_name c \<mapsto> c)"
  by (simp add: fun_eq_iff sr_find_def sr_upsert_def update_conv')

lemma sr_find_remove: "n \<noteq> ''default'' \<Longrightarrow> sr_find (sr_remove n r) = (sr_find r)(n := None)"
  by (auto simp: fun_eq_iff sr_find_def sr_remove_def delete_conv')

lemma sr_remove_default: "sr_remove ''default'' r = r"
  by (simp add: sr_remove_def)

interpretation schema_reg: schema_store sr_find sr_upsert sr_remove sr_inv
  by unfold_locales
     (simp_all add: sr_find_upsert sr_find_remove sr_remove_default sr_inv_upsert sr_inv_remove)

section \<open>Properties\<close>

text \<open>The runtime operations of the registry, as a sequence of updates.\<close>

definition sr_apply :: "SchemaConfig + string \<Rightarrow> SchemaRegistry \<Rightarrow> SchemaRegistry" where
  "sr_apply op r = (case op of Inl c \<Rightarrow> sr_upsert c r | Inr n \<Rightarrow> sr_remove n r)"

lemma sr_apply_eq: "sr_apply = schema_reg.apply_op"
  by (simp add: fun_eq_iff sr_apply_def schema_reg.apply_op_def)

text \<open>Once a schema named \<open>default\<close> is registered, every lookup finds a schema, whatever sequence
  of upserts and removals follows.\<close>

lemma lookup_total_with_default:
  assumes "sr_inv r" and "sr_find r ''default'' \<noteq> None"
  shows "sr_lookup (fold sr_apply ops r) name \<noteq> None"
proof -
  have "sr_find (fold sr_apply ops r) ''default'' \<noteq> None"
    unfolding sr_apply_eq using assms by (rule schema_reg.default_persists)
  then show ?thesis by (auto simp: sr_lookup_def split: option.splits)
qed

text \<open>Loading a configuration keeps the first schema of each name, replaces everything that was
  there, and leaves a well-formed registry.\<close>

lemma load_lookup:
  "sr_inv (sr_load schemas r) \<and>
   sr_find (sr_load schemas r) name = List.find (\<lambda>s. sc_name s = name) schemas"
proof -
  have "map_of (fold (\<lambda>s m. emplace (sc_name s) s m) xs m) name =
      (case map_of m name of Some c \<Rightarrow> Some c | None \<Rightarrow> List.find (\<lambda>s. sc_name s = name) xs)" for xs m
    by (induction xs arbitrary: m) (auto simp: map_of_emplace split: option.splits)
  from this [of schemas "[]"] show ?thesis
    using sr_inv_load [of schemas r] by (simp add: sr_find_def sr_load_def)
qed

end
