(* ===== verification/BackendRegistry.thy ===== *)
theory BackendRegistry
  imports SchemaRegistry
begin

text \<open>
  \<open>routing/include/.../backend_entry.h\<close> and \<open>routing/src/backend_registry.cpp\<close>. Backend
  entries are shared by pointer between snapshots and their role, state and lag are written in
  place, so entries live in an explicit store: \<open>br_heap\<close> maps an address to an entry. A
  \<open>shared_ptr\<close> is an address; entries are never freed while a snapshot holds them, so the store
  only grows. The order in which \<open>build\<close> iterates over \<open>by_id\<close> is the unspecified order of an
  \<open>unordered_map\<close>, the parameter \<open>it\<close>.
\<close>

section \<open>Entries\<close>

record BackendEntry =
  be_id :: BackendID
  be_type :: BackendType
  be_host :: string
  be_port :: u16
  be_db_user :: string
  be_password_ref :: string
  be_group :: string
  be_role :: BackendRole
  be_state :: BackendState
  be_replication_lag_ms :: u32
  be_last_health_check_ts :: u64
  be_weight :: int
  be_max_replication_lag_ms :: u32
  be_pool :: PoolConfig
  be_version :: u64
  be_updated_by :: NodeID

text \<open>The constructor from a \<open>BackendConfig\<close>; the weight is cast from \<open>uint32_t\<close> to \<open>int\<close>.\<close>

definition BackendEntry_of :: "BackendConfig \<Rightarrow> BackendEntry" where
  "BackendEntry_of c =
     \<lparr>be_id = bc_id c, be_type = bc_type c, be_host = bc_host c, be_port = bc_port c,
      be_db_user = bc_user c, be_password_ref = bc_id c, be_group = bc_group c,
      be_role = bc_role c, be_state = HEALTHY, be_replication_lag_ms = 0,
      be_last_health_check_ts = 0, be_weight = sint (bc_weight c),
      be_max_replication_lag_ms = bc_max_replication_lag_ms c, be_pool = bc_pool c,
      be_version = 0, be_updated_by = []\<rparr>"

section \<open>The registry\<close>

type_synonym addr = nat

record BackendSnapshot =
  by_id :: "(string \<times> addr) list"
  by_group :: "(string \<times> addr list) list"

record BackendRegistry =
  br_heap :: "addr \<Rightarrow> BackendEntry option"
  br_next :: addr
  br_current :: BackendSnapshot
  br_version :: u64

type_synonym id_order = "(string \<times> addr) list \<Rightarrow> (string \<times> addr) list"

definition br_new :: BackendRegistry where
  "br_new = \<lparr>br_heap = (\<lambda>_. None), br_next = 0,
     br_current = \<lparr>by_id = [], by_group = []\<rparr>, br_version = 0\<rparr>"

definition group_of :: "(addr \<Rightarrow> BackendEntry option) \<Rightarrow> addr \<Rightarrow> string" where
  "group_of h a = (case h a of None \<Rightarrow> [] | Some e \<Rightarrow> be_group e)"

text \<open>\<open>snap->by_group[entry->group].push_back(entry)\<close>\<close>

definition push_group :: "string \<Rightarrow> addr \<Rightarrow> (string \<times> addr list) list \<Rightarrow> (string \<times> addr list) list" where
  "push_group g a m = AList.update g ((case map_of m g of None \<Rightarrow> [] | Some xs \<Rightarrow> xs) @ [a]) m"

definition build :: "id_order \<Rightarrow> (addr \<Rightarrow> BackendEntry option) \<Rightarrow> (string \<times> addr) list \<Rightarrow> BackendSnapshot" where
  "build it h ids =
     \<lparr>by_id = ids, by_group = fold (\<lambda>(k, a) m. push_group (group_of h a) a m) (it ids) []\<rparr>"

text \<open>\<open>std::make_shared<BackendEntry>(b)\<close>: a fresh address.\<close>

definition alloc :: "BackendConfig \<Rightarrow> BackendRegistry \<Rightarrow> addr \<times> BackendRegistry" where
  "alloc b r = (br_next r, r\<lparr>br_heap := (br_heap r)(br_next r \<mapsto> BackendEntry_of b), br_next := br_next r + 1\<rparr>)"

text \<open>The loop of \<open>load\<close>: an entry whose id is taken is built and dropped.\<close>

fun load_ids :: "BackendConfig list \<Rightarrow> (string \<times> addr) list \<Rightarrow> BackendRegistry
    \<Rightarrow> (string \<times> addr) list \<times> BackendRegistry" where
  "load_ids [] ids r = (ids, r)"
| "load_ids (b # bs) ids r =
     (let (a, r') = alloc b r in load_ids bs (emplace (bc_id b) a ids) r')"

definition br_load :: "id_order \<Rightarrow> BackendConfig list \<Rightarrow> BackendRegistry \<Rightarrow> BackendRegistry" where
  "br_load it backends r =
     (let (ids, r') = load_ids backends [] r in
      r'\<lparr>br_current := build it (br_heap r') ids, br_version := br_version r' + 1\<rparr>)"

definition br_get :: "BackendRegistry \<Rightarrow> string \<Rightarrow> addr option" where
  "br_get r bid = map_of (by_id (br_current r)) bid"

definition br_get_group :: "BackendRegistry \<Rightarrow> string \<Rightarrow> addr list" where
  "br_get_group r g = (case map_of (by_group (br_current r)) g of None \<Rightarrow> [] | Some xs \<Rightarrow> xs)"

definition br_get_group_by_role :: "BackendRegistry \<Rightarrow> string \<Rightarrow> BackendRole \<Rightarrow> addr list" where
  "br_get_group_by_role r g role =
     (case map_of (by_group (br_current r)) g of
        None \<Rightarrow> []
      | Some xs \<Rightarrow> filter (\<lambda>a. map_option be_role (br_heap r a) = Some role) xs)"

definition br_add :: "id_order \<Rightarrow> BackendConfig \<Rightarrow> BackendRegistry \<Rightarrow> BackendRegistry" where
  "br_add it backend r =
     (let (a, r') = alloc backend r;
          copy = AList.update (bc_id backend) a (by_id (br_current r))
      in r'\<lparr>br_current := build it (br_heap r') copy, br_version := br_version r' + 1\<rparr>)"

definition br_remove :: "id_order \<Rightarrow> string \<Rightarrow> BackendRegistry \<Rightarrow> BackendRegistry" where
  "br_remove it bid r =
     (if map_of (by_id (br_current r)) bid = None then r
      else r\<lparr>br_current := build it (br_heap r) (AList.delete bid (by_id (br_current r))),
             br_version := br_version r + 1\<rparr>)"

text \<open>In-place updates write through the shared entry.\<close>

definition modify :: "addr \<Rightarrow> (BackendEntry \<Rightarrow> BackendEntry) \<Rightarrow> BackendRegistry \<Rightarrow> BackendRegistry" where
  "modify a f r = r\<lparr>br_heap := (br_heap r)(a := map_option f (br_heap r a))\<rparr>"

definition br_update_state :: "string \<Rightarrow> BackendState \<Rightarrow> BackendRegistry \<Rightarrow> BackendRegistry" where
  "br_update_state bid st r =
     (case br_get r bid of
        None \<Rightarrow> r
      | Some a \<Rightarrow> (modify a (\<lambda>e. e\<lparr>be_state := st\<rparr>) r)\<lparr>br_version := br_version r + 1\<rparr>)"

definition br_update_role :: "string \<Rightarrow> BackendRole \<Rightarrow> BackendRegistry \<Rightarrow> BackendRegistry" where
  "br_update_role bid role r =
     (case br_get r bid of
        None \<Rightarrow> r
      | Some a \<Rightarrow> (modify a (\<lambda>e. e\<lparr>be_role := role\<rparr>) r)\<lparr>br_version := br_version r + 1\<rparr>)"

definition br_update_lag :: "string \<Rightarrow> u32 \<Rightarrow> BackendRegistry \<Rightarrow> BackendRegistry" where
  "br_update_lag bid lag_ms r =
     (case br_get r bid of
        None \<Rightarrow> r
      | Some a \<Rightarrow> modify a (\<lambda>e. e\<lparr>be_replication_lag_ms := lag_ms\<rparr>) r)"

definition br_size :: "BackendRegistry \<Rightarrow> nat" where
  "br_size r = length (by_id (br_current r))"

section \<open>The group index\<close>

lemma map_of_push_group:
  "map_of (push_group g a m) g' =
   (if g' = g then Some ((case map_of m g of None \<Rightarrow> [] | Some xs \<Rightarrow> xs) @ [a]) else map_of m g')"
  by (simp add: push_group_def update_conv')

definition group_list :: "(string \<times> addr list) list \<Rightarrow> string \<Rightarrow> addr list" where
  "group_list m g = (case map_of m g of None \<Rightarrow> [] | Some xs \<Rightarrow> xs)"

lemma group_list_fold:
  "group_list (fold (\<lambda>(k, a) m. push_group (f a) a m) xs m) g =
   group_list m g @ filter (\<lambda>a. f a = g) (map snd xs)"
  by (induction xs arbitrary: m) (auto simp: group_list_def map_of_push_group split: option.splits)

lemma group_list_build:
  "group_list (by_group (build it h ids)) g = filter (\<lambda>a. group_of h a = g) (map snd (it ids))"
  using group_list_fold [of "group_of h" "it ids" "[]" g] by (simp add: build_def group_list_def)

lemma br_get_group_eq: "br_get_group r g = group_list (by_group (br_current r)) g"
  by (simp add: br_get_group_def group_list_def)

lemma br_get_group_by_role_eq:
  "br_get_group_by_role r g role =
   filter (\<lambda>a. map_option be_role (br_heap r a) = Some role) (group_list (by_group (br_current r)) g)"
  by (simp add: br_get_group_by_role_def group_list_def split: option.splits)

section \<open>Well-formedness\<close>

text \<open>
  Ids are distinct, each address is used once and holds an entry with its id, addresses from
  \<open>br_next\<close> on are free, and the group index lists exactly the backends of each group.
\<close>

definition ids_ok :: "(addr \<Rightarrow> BackendEntry option) \<Rightarrow> (string \<times> addr) list \<Rightarrow> bool" where
  "ids_ok h ids \<longleftrightarrow> distinct (map fst ids) \<and> distinct (map snd ids) \<and>
     (\<forall>(k, a) \<in> set ids. \<exists>e. h a = Some e \<and> be_id e = k)"

definition index_ok :: "(addr \<Rightarrow> BackendEntry option) \<Rightarrow> BackendSnapshot \<Rightarrow> bool" where
  "index_ok h s \<longleftrightarrow>
     (\<forall>g. mset (group_list (by_group s) g) = mset (filter (\<lambda>a. group_of h a = g) (map snd (by_id s))))"

definition heap_ok :: "BackendRegistry \<Rightarrow> bool" where
  "heap_ok r \<longleftrightarrow> (\<forall>a. br_heap r a \<noteq> None \<longrightarrow> a < br_next r)"

definition br_wf :: "BackendRegistry \<Rightarrow> bool" where
  "br_wf r \<longleftrightarrow> heap_ok r \<and> ids_ok (br_heap r) (by_id (br_current r)) \<and> index_ok (br_heap r) (br_current r)"

definition permutes_entries :: "id_order \<Rightarrow> bool" where
  "permutes_entries it \<longleftrightarrow> (\<forall>xs. mset (it xs) = mset xs)"

lemma index_ok_build: "permutes_entries it \<Longrightarrow> index_ok h (build it h ids)"
  by (simp add: index_ok_def group_list_build mset_filter mset_map permutes_entries_def)
     (simp add: build_def)

lemma by_id_build [simp]: "by_id (build it h ids) = ids"
  by (simp add: build_def)

lemma ids_ok_used: "heap_ok r \<Longrightarrow> ids_ok (br_heap r) ids \<Longrightarrow> (k, a) \<in> set ids \<Longrightarrow> a < br_next r"
  by (fastforce simp: heap_ok_def ids_ok_def)

lemma alloc_eqs:
  assumes "alloc b r = (a, r')"
  shows "a = br_next r" "br_heap r' = (br_heap r)(br_next r \<mapsto> BackendEntry_of b)"
    "br_next r' = br_next r + 1" "br_current r' = br_current r" "br_version r' = br_version r"
  using assms by (auto simp: alloc_def)

lemma alloc_heap_ok: "heap_ok r \<Longrightarrow> alloc b r = (a, r') \<Longrightarrow> heap_ok r'"
  by (auto simp: heap_ok_def alloc_eqs less_Suc_eq split: if_splits)

lemma ids_ok_fresh:
  assumes "heap_ok r" and "ids_ok (br_heap r) ids" and "alloc b r = (a, r')"
  shows "ids_ok (br_heap r') ids" and "a \<notin> set (map snd ids)"
proof -
  show "a \<notin> set (map snd ids)"
    using ids_ok_used [OF assms(1,2)] alloc_eqs(1) [OF assms(3)] by fastforce
  then show "ids_ok (br_heap r') ids"
    using assms(2) unfolding ids_ok_def alloc_eqs(2) [OF assms(3)] alloc_eqs(1) [OF assms(3)]
    by (fastforce simp: image_iff)
qed

lemma be_id_of [simp]: "be_id (BackendEntry_of b) = bc_id b"
  by (simp add: BackendEntry_of_def)

lemma ids_ok_update:
  assumes "ids_ok h ids" and "a \<notin> set (map snd ids)" and "h a = Some e" and "be_id e = k"
  shows "ids_ok h (AList.update k a ids)"
  using assms
proof (induction ids)
  case Nil
  then show ?case by (simp add: ids_ok_def)
next
  case (Cons p ids)
  obtain k' a' where p: "p = (k', a')" by (cases p)
  have sub: "set (map fst (AList.update k a ids)) = insert k (set (map fst ids))"
    by (simp add: dom_update)
  have snds: "set (map snd (AList.update k a xs)) \<subseteq> insert a (set (map snd xs))" for xs
    by (induction xs) auto
  have IH: "ids_ok h (AList.update k a ids)"
    using Cons by (auto simp: ids_ok_def)
  show ?case
    using IH Cons.prems sub snds [of ids] by (auto simp: ids_ok_def p) (force simp: image_iff)+
qed

lemma ids_ok_emplace:
  assumes "ids_ok h ids" and "a \<notin> set (map snd ids)" and "h a = Some e" and "be_id e = k"
  shows "ids_ok h (emplace k a ids)"
  using assms by (auto simp: ids_ok_def emplace_def map_of_eq_None_iff split: option.splits)

lemma ids_ok_delete: "ids_ok h ids \<Longrightarrow> ids_ok h (AList.delete k ids)"
  by (auto simp: ids_ok_def AList.delete_eq distinct_map_filter)

lemma load_ids_ok:
  "load_ids bs ids r = (ids', r') \<Longrightarrow> heap_ok r \<Longrightarrow> ids_ok (br_heap r) ids \<Longrightarrow>
   heap_ok r' \<and> ids_ok (br_heap r') ids'"
proof (induction bs ids r rule: load_ids.induct)
  case (2 b bs ids r)
  obtain a r1 where al: "alloc b r = (a, r1)" by fastforce
  have "ids_ok (br_heap r1) (emplace (bc_id b) a ids)"
    using ids_ok_fresh [OF "2.prems"(2,3) al] alloc_eqs [OF al]
    by (intro ids_ok_emplace [where e = "BackendEntry_of b"]) auto
  with 2 al alloc_heap_ok [OF "2.prems"(2) al] show ?case by simp
qed simp

section \<open>Every operation preserves it\<close>

lemma br_wf_new: "br_wf br_new"
  by (simp add: br_wf_def br_new_def heap_ok_def ids_ok_def index_ok_def group_list_def)

lemma br_wf_load:
  assumes "permutes_entries it" and "br_wf r"
  shows "br_wf (br_load it bs r)"
proof -
  obtain ids r' where l: "load_ids bs [] r = (ids, r')" by fastforce
  have "heap_ok r' \<and> ids_ok (br_heap r') ids"
    using load_ids_ok [OF l] assms(2) by (auto simp: br_wf_def ids_ok_def)
  then show ?thesis
    using l index_ok_build [OF assms(1)] by (simp add: br_wf_def br_load_def heap_ok_def)
qed

lemma br_wf_add:
  assumes "permutes_entries it" and "br_wf r"
  shows "br_wf (br_add it b r)"
proof -
  obtain a r' where al: "alloc b r = (a, r')" by fastforce
  have "ids_ok (br_heap r') (AList.update (bc_id b) a (by_id (br_current r)))"
    using ids_ok_fresh [OF _ _ al] assms(2) alloc_eqs [OF al]
    by (intro ids_ok_update [where e = "BackendEntry_of b"]) (auto simp: br_wf_def)
  then show ?thesis
    using al alloc_heap_ok [OF _ al] assms(2) index_ok_build [OF assms(1)]
    by (simp add: br_wf_def br_add_def heap_ok_def)
qed

lemma br_wf_remove: "permutes_entries it \<Longrightarrow> br_wf r \<Longrightarrow> br_wf (br_remove it k r)"
  by (auto simp: br_wf_def br_remove_def heap_ok_def ids_ok_delete index_ok_build)

lemma br_wf_modify:
  assumes "br_wf r" and f: "\<And>e. be_id (f e) = be_id e" "\<And>e. be_group (f e) = be_group e"
  shows "br_wf (modify a f r)"
proof -
  have g: "group_of (br_heap (modify a f r)) = group_of (br_heap r)"
    by (auto simp: fun_eq_iff group_of_def modify_def f split: option.splits)
  have c: "br_current (modify a f r) = br_current r" by (simp add: modify_def)
  have "ids_ok (br_heap (modify a f r)) (by_id (br_current r))"
    using assms(1) by (fastforce simp: br_wf_def ids_ok_def modify_def f)
  then show ?thesis
    using assms(1) unfolding br_wf_def index_ok_def g c by (auto simp: heap_ok_def modify_def split: if_splits)
qed

lemma br_wf_version: "br_wf (r\<lparr>br_version := v\<rparr>) = br_wf r"
  by (simp add: br_wf_def heap_ok_def)

lemma br_wf_update_state: "br_wf r \<Longrightarrow> br_wf (br_update_state k st r)"
  by (auto simp: br_update_state_def br_wf_version br_wf_modify split: option.splits)

lemma br_wf_update_role: "br_wf r \<Longrightarrow> br_wf (br_update_role k role r)"
  by (auto simp: br_update_role_def br_wf_version br_wf_modify split: option.splits)

lemma br_wf_update_lag: "br_wf r \<Longrightarrow> br_wf (br_update_lag k l r)"
  by (auto simp: br_update_lag_def br_wf_modify split: option.splits)

lemmas br_wf_ops = br_wf_load br_wf_add br_wf_remove br_wf_update_state br_wf_update_role br_wf_update_lag

section \<open>Histories\<close>

datatype br_op =
    Load "BackendConfig list"
  | Add BackendConfig
  | Remove string
  | UpdateState string BackendState
  | UpdateRole string BackendRole
  | UpdateLag string u32

fun br_apply :: "id_order \<Rightarrow> br_op \<Rightarrow> BackendRegistry \<Rightarrow> BackendRegistry" where
  "br_apply it (Load bs) r = br_load it bs r"
| "br_apply it (Add b) r = br_add it b r"
| "br_apply it (Remove k) r = br_remove it k r"
| "br_apply it (UpdateState k st) r = br_update_state k st r"
| "br_apply it (UpdateRole k role) r = br_update_role k role r"
| "br_apply it (UpdateLag k l) r = br_update_lag k l r"

definition br_run :: "id_order \<Rightarrow> br_op list \<Rightarrow> BackendRegistry" where
  "br_run it ops = fold (br_apply it) ops br_new"

lemma br_wf_apply: "permutes_entries it \<Longrightarrow> br_wf r \<Longrightarrow> br_wf (br_apply it op r)"
  by (cases op) (simp_all add: br_wf_ops)

lemma br_wf_run: "permutes_entries it \<Longrightarrow> br_wf (br_run it ops)"
proof -
  assume it: "permutes_entries it"
  have "br_wf r \<Longrightarrow> br_wf (fold (br_apply it) ops r)" for r
    by (induction ops arbitrary: r) (simp_all add: br_wf_apply [OF it])
  then show ?thesis unfolding br_run_def using br_wf_new by blast
qed

text \<open>The entries that an address list refers to.\<close>

definition entries :: "BackendRegistry \<Rightarrow> addr list \<Rightarrow> BackendEntry list" where
  "entries r as = List.map_filter (br_heap r) as"

definition all_entries :: "BackendRegistry \<Rightarrow> BackendEntry list" where
  "all_entries r = entries r (map snd (by_id (br_current r)))"

lemma entries_filter:
  "entries r (filter (\<lambda>a. case br_heap r a of None \<Rightarrow> False | Some e \<Rightarrow> P e) as) = filter P (entries r as)"
  by (induction as) (auto simp: entries_def map_filter_simps split: option.splits)

lemma mset_entries: "mset as = mset bs \<Longrightarrow> mset (entries r as) = mset (entries r bs)"
  by (simp add: entries_def map_filter_def mset_filter mset_map)

lemma wf_heap: "br_wf r \<Longrightarrow> a \<in> set (map snd (by_id (br_current r))) \<Longrightarrow> \<exists>e. br_heap r a = Some e"
  by (auto simp: br_wf_def ids_ok_def)

lemma entries_group_by_role:
  assumes "br_wf r"
  shows "mset (entries r (br_get_group_by_role r g role)) =
         mset (filter (\<lambda>e. be_group e = g \<and> be_role e = role) (all_entries r))"
proof -
  let ?ids = "map snd (by_id (br_current r))"
  have "mset (br_get_group_by_role r g role) =
      mset (filter (\<lambda>a. map_option be_role (br_heap r a) = Some role)
        (filter (\<lambda>a. group_of (br_heap r) a = g) ?ids))"
    using assms unfolding br_get_group_by_role_eq br_wf_def index_ok_def by (simp only: mset_filter)
  also have "filter (\<lambda>a. map_option be_role (br_heap r a) = Some role)
        (filter (\<lambda>a. group_of (br_heap r) a = g) ?ids) =
      filter (\<lambda>a. case br_heap r a of None \<Rightarrow> False | Some e \<Rightarrow> be_group e = g \<and> be_role e = role) ?ids"
    using wf_heap [OF assms] by (auto simp: group_of_def intro!: filter_cong split: option.splits)
  finally have "mset (entries r (br_get_group_by_role r g role)) =
      mset (entries r (filter (\<lambda>a. case br_heap r a of None \<Rightarrow> False
        | Some e \<Rightarrow> be_group e = g \<and> be_role e = role) ?ids))"
    by (rule mset_entries)
  then show ?thesis by (simp add: entries_filter all_entries_def)
qed

lemma length_entries: "\<forall>a \<in> set as. br_heap r a \<noteq> None \<Longrightarrow> length (entries r as) = length as"
  by (induction as) (auto simp: entries_def map_filter_simps)

lemma entries_group:
  assumes "br_wf r"
  shows "mset (entries r (br_get_group r g)) = mset (filter (\<lambda>e. be_group e = g) (all_entries r))"
proof -
  let ?ids = "map snd (by_id (br_current r))"
  have "mset (br_get_group r g) = mset (filter (\<lambda>a. group_of (br_heap r) a = g) ?ids)"
    using assms unfolding br_get_group_eq br_wf_def index_ok_def by blast
  also have "filter (\<lambda>a. group_of (br_heap r) a = g) ?ids =
      filter (\<lambda>a. case br_heap r a of None \<Rightarrow> False | Some e \<Rightarrow> be_group e = g) ?ids"
    using wf_heap [OF assms] by (auto simp: group_of_def intro!: filter_cong split: option.splits)
  finally have "mset (entries r (br_get_group r g)) =
      mset (entries r (filter (\<lambda>a. case br_heap r a of None \<Rightarrow> False | Some e \<Rightarrow> be_group e = g) ?ids))"
    by (rule mset_entries)
  then show ?thesis by (simp add: entries_filter all_entries_def)
qed

lemma length_group:
  assumes "br_wf r"
  shows "length (br_get_group r g) = length (filter (\<lambda>e. be_group e = g) (all_entries r))"
    and "length (br_get_group_by_role r g role) = length (filter (\<lambda>e. be_group e = g \<and> be_role e = role) (all_entries r))"
proof -
  have "mset (br_get_group r g) = mset (filter (\<lambda>a. group_of (br_heap r) a = g) (map snd (by_id (br_current r))))"
    using assms unfolding br_get_group_eq br_wf_def index_ok_def by blast
  then have "set (br_get_group r g) \<subseteq> set (map snd (by_id (br_current r)))" using mset_eq_setD by fastforce
  then have "\<forall>a \<in> set (br_get_group r g). br_heap r a \<noteq> None" using wf_heap [OF assms] by blast
  moreover from this have "\<forall>a \<in> set (br_get_group_by_role r g role). br_heap r a \<noteq> None"
    by (auto simp: br_get_group_eq br_get_group_by_role_eq)
  ultimately show "length (br_get_group r g) = length (filter (\<lambda>e. be_group e = g) (all_entries r))"
    and "length (br_get_group_by_role r g role) = length (filter (\<lambda>e. be_group e = g \<and> be_role e = role) (all_entries r))"
    using mset_eq_length [OF entries_group [OF assms, of g]] mset_eq_length [OF entries_group_by_role [OF assms, of g role]]
    by (simp_all add: length_entries)
qed
text \<open>C27. The group index never goes stale: after any history of loads, additions, removals and in-place
  role, state and lag updates, the backends that \<open>get_group_by_role\<close> returns for a group and a
  role are exactly those registered with that group and, at this moment, that role, each once.\<close>

theorem group_index_exact:
  assumes "permutes_entries it" and "r = br_run it ops"
  shows "mset (entries r (br_get_group_by_role r g role)) =
         mset (filter (\<lambda>e. be_group e = g \<and> be_role e = role) (all_entries r))"
  using br_wf_run [OF assms(1), of ops] assms(2) entries_group_by_role by simp

definition sample_backend :: "string \<Rightarrow> BackendRole \<Rightarrow> BackendConfig" where
  "sample_backend k role = default_BackendConfig\<lparr>bc_id := k, bc_group := ''g'', bc_role := role, bc_host := ''h''\<rparr>"

theorem group_index_exact_witness:
  "let r = br_run rev [Load [sample_backend ''a'' PRIMARY, sample_backend ''b'' REPLICA],
                       UpdateRole ''b'' PRIMARY]
   in map be_id (entries r (br_get_group_by_role r ''g'' PRIMARY)) = [''b'', ''a''] \<and>
      mset (entries r (br_get_group_by_role r ''g'' PRIMARY)) =
      mset (filter (\<lambda>e. be_group e = ''g'' \<and> be_role e = PRIMARY) (all_entries r))"
proof -
  have "permutes_entries rev" by (simp add: permutes_entries_def)
  note ex = group_index_exact [OF this refl]
  show ?thesis
    unfolding Let_def
    by (rule conjI [OF _ ex])
       (simp add: br_run_def br_load_def alloc_def emplace_def build_def push_group_def group_of_def
        sample_backend_def default_BackendConfig_def BackendEntry_of_def br_new_def
        br_update_role_def br_get_def modify_def br_get_group_by_role_def entries_def map_filter_simps)
qed

text \<open>The distinct backends of the registry: an id names one entry.\<close>

lemma distinct_all_entries: "br_wf r \<Longrightarrow> map be_id (all_entries r) = map fst (by_id (br_current r))"
proof -
  assume "br_wf r"
  then have "\<forall>(k, a) \<in> set (by_id (br_current r)). \<exists>e. br_heap r a = Some e \<and> be_id e = k"
    by (simp add: br_wf_def ids_ok_def)
  then have "map be_id (List.map_filter (br_heap r) (map snd xs)) = map fst xs"
    if "set xs \<subseteq> set (by_id (br_current r))" for xs
    using that by (induction xs) (auto simp: map_filter_simps split: option.splits)
  then show ?thesis by (simp add: all_entries_def entries_def)
qed


section \<open>The registry as a map\<close>

text \<open>What a reader finds under an id, and the operations on such a map.\<close>

definition reg_map :: "BackendRegistry \<Rightarrow> string \<Rightarrow> BackendEntry option" where
  "reg_map r k = Option.bind (br_get r k) (br_heap r)"

fun map_apply :: "br_op \<Rightarrow> (string \<Rightarrow> BackendEntry option) \<Rightarrow> string \<Rightarrow> BackendEntry option" where
  "map_apply (Load bs) m = (\<lambda>k. map_option BackendEntry_of (find (\<lambda>b. bc_id b = k) bs))"
| "map_apply (Add b) m = m(bc_id b \<mapsto> BackendEntry_of b)"
| "map_apply (Remove k) m = m(k := None)"
| "map_apply (UpdateState k st) m = m(k := map_option (\<lambda>e. e\<lparr>be_state := st\<rparr>) (m k))"
| "map_apply (UpdateRole k role) m = m(k := map_option (\<lambda>e. e\<lparr>be_role := role\<rparr>) (m k))"
| "map_apply (UpdateLag k l) m = m(k := map_option (\<lambda>e. e\<lparr>be_replication_lag_ms := l\<rparr>) (m k))"

lemma load_ids_keeps: "load_ids bs ids r = (ids', r') \<Longrightarrow> a < br_next r \<Longrightarrow> br_heap r' a = br_heap r a"
proof (induction bs ids r rule: load_ids.induct)
  case (2 b bs ids r)
  obtain a1 r1 where al: "alloc b r = (a1, r1)" by fastforce
  with 2 show ?case by (auto simp: alloc_eqs [OF al])
qed simp

lemma load_ids_find:
  assumes "load_ids bs ids r = (ids', r')" "heap_ok r" "ids_ok (br_heap r) ids"
  shows "Option.bind (map_of ids' k) (br_heap r') =
    (case map_of ids k of Some a \<Rightarrow> br_heap r a | None \<Rightarrow> map_option BackendEntry_of (find (\<lambda>b. bc_id b = k) bs))"
  using assms
proof (induction bs ids r rule: load_ids.induct)
  case (1 ids r)
  then show ?case by (auto split: option.splits)
next
  case (2 b bs ids r)
  obtain a r1 where al: "alloc b r = (a, r1)" by fastforce
  have ok: "ids_ok (br_heap r1) (emplace (bc_id b) a ids)"
    using ids_ok_fresh [OF "2.prems"(2,3) al] alloc_eqs [OF al]
    by (intro ids_ok_emplace [where e = "BackendEntry_of b"]) auto
  have "Option.bind (map_of ids' k) (br_heap r') =
      (case map_of (emplace (bc_id b) a ids) k of Some a \<Rightarrow> br_heap r1 a
       | None \<Rightarrow> map_option BackendEntry_of (find (\<lambda>b. bc_id b = k) bs))"
    using 2 al ok alloc_heap_ok [OF "2.prems"(2) al] by simp
  moreover have "br_heap r1 x = br_heap r x" if "map_of ids k = Some x" for x
    using ids_ok_used [OF "2.prems"(2,3) map_of_SomeD [OF that]] by (simp add: alloc_eqs [OF al])
  ultimately show ?case
    by (auto simp: map_of_emplace alloc_eqs [OF al] split: option.splits)
qed

lemma reg_map_load: "br_wf r \<Longrightarrow> reg_map (br_load it bs r) = map_apply (Load bs) m"
proof -
  assume wf: "br_wf r"
  obtain ids r' where l: "load_ids bs [] r = (ids, r')" by fastforce
  from load_ids_find [OF l] wf show ?thesis
    by (auto simp: fun_eq_iff reg_map_def br_get_def br_load_def l br_wf_def ids_ok_def)
qed

lemma reg_map_add: "br_wf r \<Longrightarrow> reg_map (br_add it b r) = map_apply (Add b) (reg_map r)"
proof -
  assume wf: "br_wf r"
  obtain a r' where al: "alloc b r = (a, r')" by fastforce
  have "br_heap r' x = br_heap r x" if "map_of (by_id (br_current r)) k = Some x" for k x
    using ids_ok_used [OF _ _ map_of_SomeD [OF that]] wf by (auto simp: alloc_eqs [OF al] br_wf_def)
  then show ?thesis
    by (auto simp: fun_eq_iff reg_map_def br_get_def br_add_def al update_conv' alloc_eqs [OF al] bind_eq_None_conv
        intro!: Option.bind_cong)
qed

lemma reg_map_remove: "br_wf r \<Longrightarrow> reg_map (br_remove it k r) = map_apply (Remove k) (reg_map r)"
  by (auto simp: fun_eq_iff reg_map_def br_get_def br_remove_def delete_conv' br_wf_def ids_ok_def)

lemma ids_inj:
  assumes "br_wf r" "br_get r k = Some a" "br_get r k' = Some a"
  shows "k = k'"
proof -
  have "\<exists>e. br_heap r a = Some e \<and> be_id e = k" "\<exists>e. br_heap r a = Some e \<and> be_id e = k'"
    using assms by (fastforce simp: br_wf_def ids_ok_def br_get_def dest: map_of_SomeD)+
  then show ?thesis by auto
qed

lemma reg_map_modify:
  assumes "br_wf r" "br_get r k = Some a"
  shows "reg_map (modify a f r) = (reg_map r)(k := map_option f (reg_map r k))"
proof
  fix k'
  have g: "reg_map (modify a f r) k' = Option.bind (br_get r k') ((br_heap r)(a := map_option f (br_heap r a)))"
    by (simp add: reg_map_def br_get_def modify_def)
  show "reg_map (modify a f r) k' = ((reg_map r)(k := map_option f (reg_map r k))) k'"
  proof (cases "k' = k")
    case True
    with assms(2) g show ?thesis by (simp add: reg_map_def)
  next
    case False
    then have "br_get r k' \<noteq> Some a" using ids_inj [OF assms] by blast
    with False g show ?thesis by (cases "br_get r k'") (auto simp: reg_map_def)
  qed
qed

lemma reg_map_version: "reg_map (r\<lparr>br_version := v\<rparr>) = reg_map r"
  by (simp add: reg_map_def br_get_def fun_eq_iff)

lemma reg_map_none: "br_get r k = None \<Longrightarrow> (reg_map r)(k := map_option f (reg_map r k)) = reg_map r"
  by (auto simp: reg_map_def)

lemma reg_map_apply:
  assumes "br_wf r"
  shows "reg_map (br_apply it op r) = map_apply op (reg_map r)"
proof (cases op)
  case (Load bs)
  then show ?thesis using reg_map_load [OF assms] by simp
qed (use assms in \<open>auto simp: reg_map_add reg_map_remove br_update_state_def br_update_role_def br_update_lag_def
    reg_map_version reg_map_modify reg_map_none split: option.splits\<close>)

lemma reg_map_run:
  assumes "permutes_entries it"
  shows "reg_map (br_run it ops) = fold map_apply ops (\<lambda>_. None)"
proof -
  have "br_wf r \<Longrightarrow> reg_map (fold (br_apply it) ops r) = fold map_apply ops (reg_map r)" for r
    by (induction ops arbitrary: r) (simp_all add: br_wf_apply [OF assms] reg_map_apply)
  moreover have "reg_map br_new = (\<lambda>_. None)" by (simp add: reg_map_def br_new_def br_get_def fun_eq_iff)
  ultimately show ?thesis using br_wf_new by (metis br_run_def)
qed

lemma set_all_entries:
  assumes "br_wf r"
  shows "set (all_entries r) = ran (reg_map r)"
proof -
  have d: "distinct (map fst (by_id (br_current r)))" using assms by (simp add: br_wf_def ids_ok_def)
  have "set (all_entries r) = {e. \<exists>k a. (k, a) \<in> set (by_id (br_current r)) \<and> br_heap r a = Some e}"
    by (force simp: all_entries_def entries_def map_filter_def)
  then show ?thesis
    using d by (auto simp: ran_def reg_map_def br_get_def bind_eq_Some_conv)
qed

section \<open>Refinement\<close>

text \<open>C10. The registry implements a map from ids to entries: after any history of loads, additions,
  removals and in-place updates through shared entries, what a reader finds under an id is what
  the corresponding operations on a map give, and the registered entries are its range.\<close>

theorem registry_refines_map:
  assumes "permutes_entries it"
  shows "reg_map (br_run it ops) = fold map_apply ops (\<lambda>_. None) \<and>
    set (all_entries (br_run it ops)) = ran (fold map_apply ops (\<lambda>_. None))"
  using reg_map_run [OF assms] set_all_entries [OF br_wf_run [OF assms]] by metis

theorem registry_refines_map_witness:
  "reg_map (br_run rev [Load [sample_backend ''a'' PRIMARY], UpdateRole ''a'' REPLICA]) ''a'' =
   Some ((BackendEntry_of (sample_backend ''a'' PRIMARY))\<lparr>be_role := REPLICA\<rparr>)"
proof -
  have "permutes_entries rev" by (simp add: permutes_entries_def)
  from registry_refines_map [OF this, of "[Load [sample_backend ''a'' PRIMARY], UpdateRole ''a'' REPLICA]"] show ?thesis
    by (simp add: sample_backend_def)
qed

end
