(* ===== verification/RoutingPolicies.thy ===== *)
theory RoutingPolicies
  imports BackendRegistry
begin

text \<open>
  \<open>routing/include/.../routing_policy.h\<close> and \<open>routing/src/routing_policies.cpp\<close>: the seven
  routing policies. The abstract class \<open>RoutingPolicy\<close> is the locale \<open>policy_contract\<close>; each
  policy class is a function and an interpretation of the locale. The atomic counter of a
  policy object is passed explicitly. A draw of \<open>uniform_int_distribution(0, ub)\<close> from the
  generator is \<^term>\<open>raw mod (ub + 1)\<close> for an arbitrary number \<open>raw\<close>: any value of the range.
\<close>

section \<open>The policies\<close>

record RoutingContext =
  active_connections :: "(BackendID \<Rightarrow> u64) option"
  latency_us :: "(BackendID \<Rightarrow> u64) option"

definition no_context :: RoutingContext where
  "no_context = \<lparr>active_connections = None, latency_us = None\<rparr>"

definition uniform :: "nat \<Rightarrow> nat \<Rightarrow> nat" where
  "uniform ub raw = raw mod (ub + 1)"

definition round_robin_select :: "u64 \<Rightarrow> BackendEntry list \<Rightarrow> BackendID \<times> u64" where
  "round_robin_select counter c =
     (if c = [] then ([], counter)
      else (be_id (c ! (unat counter mod length c)), counter + 1))"

definition random_select :: "nat \<Rightarrow> BackendEntry list \<Rightarrow> BackendID" where
  "random_select raw c = (if c = [] then [] else be_id (c ! uniform (length c - 1) raw))"

definition eff_weight :: "BackendEntry \<Rightarrow> int" where
  "eff_weight e = max 1 (be_weight e)"

fun weighted_loop :: "int \<Rightarrow> BackendEntry list \<Rightarrow> BackendEntry option" where
  "weighted_loop pick [] = None"
| "weighted_loop pick (e # c) =
     (let pick = pick - eff_weight e in if pick < 0 then Some e else weighted_loop pick c)"

definition weighted_select :: "nat \<Rightarrow> BackendEntry list \<Rightarrow> BackendID" where
  "weighted_select raw c =
     (if c = [] then []
      else (let total = (\<Sum>e\<leftarrow>c. eff_weight e);
                pick = int (uniform (nat (total - 1)) raw)
            in case weighted_loop pick c of Some e \<Rightarrow> be_id e | None \<Rightarrow> be_id (last c)))"

text \<open>The scan for the smallest signal; \<open>best\<close> starts empty and \<open>best_n\<close> at the maximum.\<close>

fun least_loop :: "(BackendID \<Rightarrow> u64) \<Rightarrow> BackendID \<Rightarrow> u64 \<Rightarrow> BackendEntry list \<Rightarrow> BackendID" where
  "least_loop sig best best_n [] = best"
| "least_loop sig best best_n (e # c) =
     (if sig (be_id e) < best_n then least_loop sig (be_id e) (sig (be_id e)) c
      else least_loop sig best best_n c)"

definition signal_select :: "(BackendID \<Rightarrow> u64) option \<Rightarrow> u64 \<Rightarrow> BackendEntry list \<Rightarrow> BackendID \<times> u64" where
  "signal_select signal counter c =
     (if c = [] then ([], counter)
      else (case signal of
              None \<Rightarrow> (be_id (c ! (unat counter mod length c)), counter + 1)
            | Some sig \<Rightarrow> (least_loop sig [] (- 1) c, counter)))"

definition least_connections_select :: "RoutingContext \<Rightarrow> u64 \<Rightarrow> BackendEntry list \<Rightarrow> BackendID \<times> u64" where
  "least_connections_select ctx counter c = signal_select (active_connections ctx) counter c"

definition latency_select :: "RoutingContext \<Rightarrow> u64 \<Rightarrow> BackendEntry list \<Rightarrow> BackendID \<times> u64" where
  "latency_select ctx counter c = signal_select (latency_us ctx) counter c"

definition failover_select :: "BackendEntry list \<Rightarrow> BackendID" where
  "failover_select c =
     (if c = [] then []
      else (case find (\<lambda>e. be_state e \<noteq> FAILED \<and> be_state e \<noteq> DRAINING) c of
              Some e \<Rightarrow> be_id e
            | None \<Rightarrow> be_id (hd c)))"

text \<open>\<open>PolicyFactory::create\<close> and the call of the virtual \<open>select\<close>.\<close>

fun policy_select :: "RoutingPolicy \<Rightarrow> nat \<Rightarrow> RoutingContext \<Rightarrow> u64 \<Rightarrow> BackendEntry list \<Rightarrow> BackendID \<times> u64" where
  "policy_select ROUND_ROBIN raw ctx counter c = round_robin_select counter c"
| "policy_select WEIGHTED raw ctx counter c = (weighted_select raw c, counter)"
| "policy_select LEAST_CONNECTIONS raw ctx counter c = least_connections_select ctx counter c"
| "policy_select LATENCY raw ctx counter c = latency_select ctx counter c"
| "policy_select RANDOM raw ctx counter c = (random_select raw c, counter)"
| "policy_select FAILOVER raw ctx counter c = (failover_select c, counter)"
| "policy_select CONSISTENT_HASHING raw ctx counter c = round_robin_select counter c"

text \<open>
  \<open>BackendSelector::policy_for\<close>: an array with one policy for each value of the enumeration, filled on
  the first call by casting its indices, and indexed with the value cast back.
\<close>

definition policy_values :: "RoutingPolicy list" where
  "policy_values = [ROUND_ROBIN, WEIGHTED, LEAST_CONNECTIONS, LATENCY, RANDOM, FAILOVER, CONSISTENT_HASHING]"

fun policy_index :: "RoutingPolicy \<Rightarrow> nat" where
  "policy_index ROUND_ROBIN = 0"
| "policy_index WEIGHTED = 1"
| "policy_index LEAST_CONNECTIONS = 2"
| "policy_index LATENCY = 3"
| "policy_index RANDOM = 4"
| "policy_index FAILOVER = 5"
| "policy_index CONSISTENT_HASHING = 6"

definition policies :: "(nat \<Rightarrow> RoutingContext \<Rightarrow> u64 \<Rightarrow> BackendEntry list \<Rightarrow> BackendID \<times> u64) list" where
  "policies = map (\<lambda>i. policy_select (policy_values ! i)) [0..<7]"

definition policy_for :: "RoutingPolicy \<Rightarrow> nat \<Rightarrow> RoutingContext \<Rightarrow> u64 \<Rightarrow> BackendEntry list \<Rightarrow> BackendID \<times> u64" where
  "policy_for p = policies ! policy_index p"

lemma policy_for_eq [simp]: "policy_for p = policy_select p"
  by (cases p) (simp_all add: policy_for_def policies_def policy_values_def)

section \<open>The contract of a policy\<close>

text \<open>
  An implementation returns the empty id for an empty list; otherwise the id of a candidate, or
  the empty id. A total policy always finds a candidate.
\<close>

locale policy_contract =
  fixes sel :: "BackendEntry list \<Rightarrow> BackendID"
  assumes sel_empty: "sel [] = []"
    and sel_member: "sel c \<noteq> [] \<Longrightarrow> \<exists>e \<in> set c. sel c = be_id e"
begin

lemma chosen_satisfies: "(\<And>e. e \<in> set c \<Longrightarrow> P e) \<Longrightarrow> sel c \<noteq> [] \<Longrightarrow> \<exists>e \<in> set c. sel c = be_id e \<and> P e"
  using sel_member by blast

end

locale total_policy =
  fixes sel :: "BackendEntry list \<Rightarrow> BackendID"
  assumes total_empty: "sel [] = []"
    and total_member: "c \<noteq> [] \<Longrightarrow> \<exists>e \<in> set c. sel c = be_id e"

sublocale total_policy \<subseteq> policy_contract sel
proof
  show "sel [] = []" by (rule total_empty)
  show "\<exists>e \<in> set c. sel c = be_id e" if "sel c \<noteq> []" for c
    using that total_empty total_member [of c] by (cases "c = []") auto
qed

context total_policy
begin

lemma total_nonempty: "c \<noteq> [] \<Longrightarrow> (\<And>e. e \<in> set c \<Longrightarrow> be_id e \<noteq> []) \<Longrightarrow> sel c \<noteq> []"
  using total_member [of c] by metis

end

lemma nth_mod_mem: "c \<noteq> [] \<Longrightarrow> c ! (n mod length c) \<in> set c"
  by simp

interpretation rr: total_policy "\<lambda>c. fst (round_robin_select counter c)" for counter
  by unfold_locales (auto simp: round_robin_select_def)

lemma uniform_le: "uniform ub raw \<le> ub"
  by (simp add: uniform_def less_Suc_eq_le [symmetric])

interpretation rnd: total_policy "random_select raw" for raw
proof unfold_locales
  fix c :: "BackendEntry list"
  assume "c \<noteq> []"
  then have "uniform (length c - 1) raw < length c"
    using uniform_le [of "length c - 1" raw] by (cases c) auto
  with \<open>c \<noteq> []\<close> show "\<exists>e \<in> set c. random_select raw c = be_id e" by (auto simp: random_select_def)
qed (simp add: random_select_def)

lemma weighted_loop_mem: "weighted_loop pick c = Some e \<Longrightarrow> e \<in> set c"
  by (induction pick c rule: weighted_loop.induct) (auto simp: Let_def split: if_splits)

interpretation wtd: total_policy "weighted_select raw" for raw
  by unfold_locales (auto simp: weighted_select_def Let_def dest: weighted_loop_mem split: option.splits)

lemma find_mem: "find P c = Some e \<Longrightarrow> e \<in> set c \<and> P e"
  by (auto simp: find_Some_iff)

interpretation fov: total_policy failover_select
proof unfold_locales
  fix c :: "BackendEntry list"
  assume "c \<noteq> []"
  then show "\<exists>e \<in> set c. failover_select c = be_id e"
    using hd_in_set [of c] by (fastforce simp: failover_select_def dest: find_mem split: option.splits)
qed (simp add: failover_select_def)

lemma least_loop_mem: "least_loop sig best n c \<noteq> best \<Longrightarrow> \<exists>e \<in> set c. least_loop sig best n c = be_id e"
proof (induction sig best n c rule: least_loop.induct)
  case (2 sig best best_n e c)
  then show ?case by (cases "least_loop sig (be_id e) (sig (be_id e)) c = be_id e") (auto split: if_splits)
qed simp

interpretation sig: policy_contract "\<lambda>c. fst (signal_select signal counter c)" for signal counter
proof unfold_locales
  fix c :: "BackendEntry list"
  assume ne: "fst (signal_select signal counter c) \<noteq> []"
  then show "\<exists>e \<in> set c. fst (signal_select signal counter c) = be_id e"
    using least_loop_mem [of _ "[]" "- 1" c]
    by (cases signal) (auto simp: signal_select_def split: if_splits)
qed (simp add: signal_select_def)

interpretation pol: policy_contract "\<lambda>c. fst (policy_select p raw ctx counter c)" for p raw ctx counter
proof unfold_locales
  show "fst (policy_select p raw ctx counter []) = []"
    by (cases p) (simp_all add: round_robin_select_def weighted_select_def least_connections_select_def
        latency_select_def signal_select_def random_select_def failover_select_def)
  fix c :: "BackendEntry list"
  assume "fst (policy_select p raw ctx counter c) \<noteq> []"
  then show "\<exists>e \<in> set c. fst (policy_select p raw ctx counter c) = be_id e"
    by (cases p) (simp_all add: rr.sel_member wtd.sel_member rnd.sel_member fov.sel_member sig.sel_member
        least_connections_select_def latency_select_def)
qed

text \<open>Without live signals (the context the frontend passes) every policy is total.\<close>

interpretation pol0: total_policy "\<lambda>c. fst (policy_select p raw no_context counter c)" for p raw counter
proof unfold_locales
  show "fst (policy_select p raw no_context counter []) = []" by (rule pol.sel_empty)
  fix c :: "BackendEntry list"
  assume "c \<noteq> []"
  then show "\<exists>e \<in> set c. fst (policy_select p raw no_context counter c) = be_id e"
    by (cases p) (simp_all add: rr.total_member wtd.total_member rnd.total_member fov.total_member
        least_connections_select_def latency_select_def signal_select_def no_context_def,
        (use nth_mod_mem [of c "unat counter"] in blast)+)
qed

section \<open>Round robin is fair\<close>

text \<open>A sequence of selections from one candidate list, threading the counter.\<close>

fun rr_run :: "nat \<Rightarrow> u64 \<Rightarrow> BackendEntry list \<Rightarrow> BackendID list" where
  "rr_run 0 counter c = []"
| "rr_run (Suc n) counter c =
     (let (b, counter') = round_robin_select counter c in b # rr_run n counter' c)"

lemma unat_plus1: "unat (w :: u64) + 1 < 2 ^ 64 \<Longrightarrow> unat (w + 1) = unat w + 1"
  by (simp add: unat_word_ariths)

lemma rr_run_map:
  "c \<noteq> [] \<Longrightarrow> unat counter + n < 2 ^ 64 \<Longrightarrow>
   rr_run n counter c = map (\<lambda>k. be_id (c ! ((unat counter + k) mod length c))) [0..<n]"
proof (induction n arbitrary: counter)
  case (Suc n)
  then have u: "unat (counter + 1) = unat counter + 1" by (intro unat_plus1) simp
  have "rr_run n (counter + 1) c = map (\<lambda>k. be_id (c ! ((unat (counter + 1) + k) mod length c))) [0..<n]"
    using Suc.prems u by (intro Suc.IH) simp_all
  then show ?case
    using Suc.prems(1) u
    by (simp add: round_robin_select_def upt_conv_Cons map_Suc_upt [symmetric] del: upt_Suc)
qed simp

lemma rotate_nth: "rotate s c = map (\<lambda>k. c ! ((s + k) mod length c)) [0..<length c]"
  by (rule nth_equalityI) (simp_all add: nth_rotate)

lemma mset_rotate1: "mset (rotate1 c) = mset c"
  by (cases c) simp_all

lemma mset_rotate: "mset (rotate s c) = mset c"
  by (induction s) (simp_all add: mset_rotate1)

lemma rr_run_append:
  "c \<noteq> [] \<Longrightarrow> rr_run (m + n) counter c = rr_run m counter c @ rr_run n (counter + of_nat m) c"
  by (induction m arbitrary: counter) (simp_all add: round_robin_select_def algebra_simps)

lemma rr_run_window:
  assumes "c \<noteq> []" and "unat counter + length c < 2 ^ 64"
  shows "mset (rr_run (length c) counter c) = mset (map be_id c)"
proof -
  have "rr_run (length c) counter c = map be_id (rotate (unat counter) c)"
    using rr_run_map [OF assms] by (simp add: rotate_nth)
  then show ?thesis by (simp add: mset_rotate)
qed

lemma rr_run_windows:
  assumes "c \<noteq> []" and "unat counter + k * length c < 2 ^ 64"
  shows "mset (rr_run (k * length c) counter c) = repeat_mset k (mset (map be_id c))"
  using assms(2)
proof (induction k arbitrary: counter)
  case (Suc k)
  have u: "unat (counter + of_nat (length c)) = unat counter + length c"
    using Suc.prems by (simp add: unat_word_ariths unat_of_nat)
  have "mset (rr_run (k * length c) (counter + of_nat (length c)) c) = repeat_mset k (mset (map be_id c))"
    using Suc.prems u by (intro Suc.IH) simp
  then show ?case
    using rr_run_append [OF assms(1), of "length c" "k * length c" counter] rr_run_window [OF assms(1), of counter]
      Suc.prems by simp
qed simp

text \<open>C29. Round robin is fair: any \<open>k * n\<close> consecutive selections from the same \<open>n\<close> candidates choose
  every candidate exactly \<open>k\<close> times, as long as the 64-bit counter does not wrap in between.\<close>

theorem round_robin_fair:
  assumes "c \<noteq> []" and "unat counter + k * length c < 2 ^ 64"
  shows "mset (rr_run (k * length c) counter c) = repeat_mset k (mset (map be_id c))"
  using assms by (rule rr_run_windows)

definition sample_entry :: "string \<Rightarrow> u32 \<Rightarrow> BackendEntry" where
  "sample_entry k w = BackendEntry_of (sample_backend k REPLICA\<lparr>bc_weight := w\<rparr>)"

lemma be_id_sample [simp]: "be_id (sample_entry k w) = k"
  by (simp add: sample_entry_def sample_backend_def)

theorem round_robin_fair_witness:
  "let c = [sample_entry ''a'' 1, sample_entry ''b'' 1] in
   mset (rr_run (3 * length c) 5 c) = {#''a'', ''a'', ''a'', ''b'', ''b'', ''b''#}"
proof -
  have "unat (5 :: u64) + 3 * length [sample_entry ''a'' 1, sample_entry ''b'' 1] < 2 ^ 64" by simp
  from round_robin_fair [OF _ this] show ?thesis
    by (simp only: Let_def) (simp add: numeral_eq_Suc)
qed

section \<open>Weighted choice is proportional\<close>

lemma eff_weight_pos: "0 < eff_weight e"
  by (simp add: eff_weight_def)

lemma sum_eff_weight_nonneg: "0 \<le> (\<Sum>e\<leftarrow>c. eff_weight e)"
  by (induction c) (auto simp: eff_weight_def)

lemma weighted_loop_append:
  "(\<Sum>e\<leftarrow>xs. eff_weight e) \<le> pick \<Longrightarrow> pick < (\<Sum>e\<leftarrow>xs. eff_weight e) + eff_weight e \<Longrightarrow>
   weighted_loop pick (xs @ e # ys) = Some e"
proof (induction xs arbitrary: pick)
  case (Cons x xs)
  have "0 \<le> (\<Sum>e\<leftarrow>xs. eff_weight e)" by (rule sum_eff_weight_nonneg)
  with Cons show ?case by (simp add: Let_def)
qed simp

lemma weighted_loop_total:
  "0 \<le> pick \<Longrightarrow> pick < (\<Sum>e\<leftarrow>c. eff_weight e) \<Longrightarrow> weighted_loop pick c \<noteq> None"
  by (induction pick c rule: weighted_loop.induct) (auto simp: Let_def)



section \<open>Signal policies choose a minimum\<close>

lemma least_loop_min:
  assumes "\<exists>e \<in> set c. sig (be_id e) < n"
  shows "\<exists>e \<in> set c. least_loop sig best n c = be_id e \<and> (\<forall>e' \<in> set c. sig (be_id e) \<le> sig (be_id e'))
         \<and> sig (be_id e) < n"
  using assms
proof (induction c arbitrary: best n)
  case (Cons x c)
  show ?case
  proof (cases "sig (be_id x) < n")
    case True
    show ?thesis
    proof (cases "\<exists>e \<in> set c. sig (be_id e) < sig (be_id x)")
      case t: True
      from Cons.IH [OF t, of "be_id x"] obtain e where e: "e \<in> set c"
        "least_loop sig (be_id x) (sig (be_id x)) c = be_id e"
        "\<forall>e' \<in> set c. sig (be_id e) \<le> sig (be_id e')" "sig (be_id e) < sig (be_id x)" by blast
      with True show ?thesis by (intro bexI [of _ e]) auto
    next
      case False
      then have "least_loop sig (be_id x) (sig (be_id x)) c = be_id x"
        by (induction c) auto
      with True False show ?thesis by (fastforce simp: not_less)
    qed
  next
    case False
    with Cons.prems have "\<exists>e \<in> set c. sig (be_id e) < n" by auto
    from Cons.IH [OF this, of best] obtain e where e: "e \<in> set c" "least_loop sig best n c = be_id e"
      "\<forall>e' \<in> set c. sig (be_id e) \<le> sig (be_id e')" "sig (be_id e) < n" by blast
    with False show ?thesis by (intro bexI [of _ e]) auto
  qed
qed simp

text \<open>With a signal that is below the maximum for some candidate, least-connections and latency
  routing choose a candidate with the smallest signal.\<close>

lemma signal_select_min:
  assumes "\<exists>e \<in> set c. sig (be_id e) < - 1"
  shows "\<exists>e \<in> set c. fst (signal_select (Some sig) counter c) = be_id e \<and>
           (\<forall>e' \<in> set c. sig (be_id e) \<le> sig (be_id e'))"
proof -
  have "c \<noteq> []" using assms by auto
  then show ?thesis using least_loop_min [OF assms, of "[]"] by (auto simp: signal_select_def)
qed

end
