(* ===== verification/QueryClassifier.thy ===== *)
theory QueryClassifier
  imports Types
begin

text \<open>
  \<open>routing/src/query_classifier.cpp\<close>: the comment stripper, the statement splitter, the
  keyword reader, the CTE scanner and \<open>QueryClassifier::classify\<close>. The loops over an index
  \<open>i\<close> of a \<open>string_view\<close> are recursions over the characters from \<open>i\<close> on; the one-character
  look-ahead \<open>n\<close> is the first of the remaining characters, and NUL at the end, as in the
  source.
\<close>

section \<open>Keyword table and character classes\<close>

definition keyword_map :: "string \<Rightarrow> QueryType option" where
  "keyword_map = map_of
    [(''select'', SELECT), (''insert'', INSERT), (''update'', UPDATE), (''delete'', DELETE),
     (''replace'', INSERT), (''create'', DDL), (''drop'', DDL), (''alter'', DDL),
     (''truncate'', DDL), (''rename'', DDL), (''call'', CALL), (''do'', CALL),
     (''begin'', BEGIN), (''start'', BEGIN), (''commit'', COMMIT), (''rollback'', ROLLBACK),
     (''set'', SET), (''use'', USE), (''show'', SELECT), (''explain'', SELECT),
     (''describe'', SELECT), (''desc'', SELECT), (''analyze'', DDL), (''optimize'', DDL),
     (''check'', DDL), (''repair'', DDL), (''lock'', DDL), (''unlock'', DDL),
     (''grant'', DDL), (''revoke'', DDL), (''load'', INSERT), (''values'', SELECT),
     (''table'', SELECT)]"

definition is_word :: "char \<Rightarrow> bool" where
  "is_word c = (isalnum c \<or> c = CHR ''_'' \<or> c = CHR ''$'')"

abbreviation NUL :: char where "NUL \<equiv> CHR 0x00"
abbreviation NL :: char where "NL \<equiv> CHR 0x0A"
abbreviation SQ :: char where "SQ \<equiv> CHR 0x27"
abbreviation DQ :: char where "DQ \<equiv> CHR 0x22"
abbreviation BT :: char where "BT \<equiv> CHR 0x60"
abbreviation BSL :: char where "BSL \<equiv> CHR 0x5C"

text \<open>The scanner states, an anonymous enumeration repeated in every scanner.\<close>

datatype scan_state = NORMAL | SQUOTE | DQUOTE | BTICK

definition quote_of :: "scan_state \<Rightarrow> char" where
  "quote_of st = (if st = SQUOTE then SQ else if st = DQUOTE then DQ else BT)"

definition enter_quote :: "char \<Rightarrow> scan_state" where
  "enter_quote c = (if c = SQ then SQUOTE else if c = DQ then DQUOTE
                    else if c = BT then BTICK else NORMAL)"

section \<open>strip_comments\<close>

definition next_char :: "string \<Rightarrow> char" where
  "next_char cs = (case cs of [] \<Rightarrow> NUL | n # _ \<Rightarrow> n)"

text \<open>The rest of the input after a line comment (its newline is skipped too).\<close>

definition skip_line :: "string \<Rightarrow> string" where
  "skip_line cs = tl (dropWhile (\<lambda>c. c \<noteq> NL) cs)"

text \<open>The rest of the input after a block comment, from just behind its opening.\<close>

fun skip_block :: "string \<Rightarrow> string" where
  "skip_block [] = []"
| "skip_block [c] = []"
| "skip_block (c # d # cs) = (if c = CHR ''*'' \<and> d = CHR ''/'' then cs else skip_block (d # cs))"

lemma length_skip_line: "length (skip_line cs) \<le> length cs"
  by (simp add: skip_line_def) (metis diff_le_self le_trans length_dropWhile_le)

lemma length_skip_block: "length (skip_block cs) \<le> length cs"
  by (induction cs rule: skip_block.induct) auto

function (sequential) strip_loop :: "scan_state \<Rightarrow> string \<Rightarrow> string" where
  "strip_loop st [] = []"
| "strip_loop NORMAL (c # cs) =
     (if c = CHR ''-'' \<and> next_char cs = CHR ''-'' then CHR '' '' # strip_loop NORMAL (skip_line cs)
      else if c = CHR ''#'' then CHR '' '' # strip_loop NORMAL (skip_line cs)
      else if c = CHR ''/'' \<and> next_char cs = CHR ''*''
           then CHR '' '' # strip_loop NORMAL (skip_block (tl cs))
      else c # strip_loop (enter_quote c) cs)"
| "strip_loop st (c # cs) =
     (if c = BSL \<and> st \<noteq> BTICK
      then (if next_char cs \<noteq> NUL then c # next_char cs # strip_loop st (tl cs)
            else c # strip_loop st cs)
      else if c = quote_of st
           then (if next_char cs = quote_of st then c # next_char cs # strip_loop st (tl cs)
                 else c # strip_loop NORMAL cs)
      else c # strip_loop st cs)"
  by pat_completeness auto
termination
proof (relation "measure (\<lambda>(st, cs). length cs)", goal_cases)
  case 1
  show ?case by simp
next
  case (4 c cs)
  then show ?case using length_skip_block [of "tl cs"] by (simp add: less_Suc_eq_le)
qed (auto simp: less_Suc_eq_le length_skip_line)

definition strip_comments :: "string \<Rightarrow> string" where
  "strip_comments s = strip_loop NORMAL s"

section \<open>split_statements\<close>

text \<open>The lambda \<open>push\<close>: the piece without surrounding white space, dropped when blank.\<close>

definition trim :: "string \<Rightarrow> string" where
  "trim s = rev (dropWhile isspace (rev (dropWhile isspace s)))"

definition push :: "string list \<Rightarrow> string \<Rightarrow> string list" where
  "push out sv = (if trim sv = [] then out else out @ [trim sv])"

text \<open>
  The loop of \<open>split_statements\<close>: \<open>out\<close> is the result so far and \<open>cur\<close> the characters from
  \<open>start\<close> up to the current one. A backslash inside a literal skips the character after it.
\<close>

function (sequential) split_loop :: "string list \<Rightarrow> string \<Rightarrow> scan_state \<Rightarrow> string \<Rightarrow> string list" where
  "split_loop out cur st [] = push out cur"
| "split_loop out cur NORMAL (c # cs) =
     (if c = SQ \<or> c = DQ \<or> c = BT then split_loop out (cur @ [c]) (enter_quote c) cs
      else if c = CHR '';'' then split_loop (push out cur) [] NORMAL cs
      else split_loop out (cur @ [c]) NORMAL cs)"
| "split_loop out cur st (c # cs) =
     (if c = BSL \<and> st \<noteq> BTICK then split_loop out (cur @ c # take 1 cs) st (tl cs)
      else if c = quote_of st then split_loop out (cur @ [c]) NORMAL cs
      else split_loop out (cur @ [c]) st cs)"
  by pat_completeness auto
termination
  by (relation "measure (\<lambda>(out, cur, st, cs). length cs)") auto

definition split_statements :: "string \<Rightarrow> string list" where
  "split_statements s = split_loop [] [] NORMAL s"

section \<open>first_keyword and classify_cte\<close>

text \<open>
  The keyword buffer holds 16 characters: a 17th letter makes the result empty.
\<close>

definition skip_lead :: "string \<Rightarrow> string" where
  "skip_lead s = dropWhile (\<lambda>c. isspace c \<or> c = CHR ''('') s"

fun read_keyword :: "string \<Rightarrow> string \<Rightarrow> string" where
  "read_keyword buf [] = buf"
| "read_keyword buf (c # cs) =
     (if isalpha c then (if length buf \<ge> 16 then [] else read_keyword (buf @ [tolower c]) cs)
      else buf)"

definition first_keyword :: "string \<Rightarrow> string" where
  "first_keyword s = read_keyword [] (skip_lead s)"

definition cte_keyword :: "string \<Rightarrow> QueryType option" where
  "cte_keyword word =
     (if word = ''select'' then Some SELECT
      else if word = ''insert'' \<or> word = ''replace'' then Some INSERT
      else if word = ''update'' \<or> word = ''merge'' then Some UPDATE
      else if word = ''delete'' then Some DELETE
      else None)"

text \<open>
  The loop of \<open>classify_cte\<close>. A word is read to its end; \<open>kw\<close> holds its first 16 characters,
  lower-cased, and only words of at most 16 characters are compared. \<open>depth\<close> never goes below
  zero, so it is a natural number.
\<close>

function (sequential) cte_loop :: "scan_state \<Rightarrow> nat \<Rightarrow> string \<Rightarrow> QueryType" where
  "cte_loop st depth [] = SELECT"
| "cte_loop NORMAL depth (c # cs) =
     (if c = SQ \<or> c = DQ \<or> c = BT then cte_loop (enter_quote c) depth cs
      else if c = CHR ''('' then cte_loop NORMAL (Suc depth) cs
      else if c = CHR '')'' then cte_loop NORMAL (if depth > 0 then depth - 1 else depth) cs
      else if depth = 0 \<and> isalpha c
           then (let word = takeWhile is_word (c # cs); rest = dropWhile is_word (c # cs) in
                 if length word \<le> 16
                 then (case cte_keyword (map tolower word) of
                         Some t \<Rightarrow> t
                       | None \<Rightarrow> cte_loop NORMAL depth rest)
                 else cte_loop NORMAL depth rest)
      else cte_loop NORMAL depth cs)"
| "cte_loop st depth (c # cs) =
     (if c = BSL \<and> st \<noteq> BTICK then cte_loop st depth (tl cs)
      else if c = quote_of st then cte_loop NORMAL depth cs
      else cte_loop st depth cs)"
  by pat_completeness auto
termination
  by (relation "measure (\<lambda>(st, depth, cs). length cs)")
     (auto simp: is_word_def isalnum_def less_Suc_eq_le length_dropWhile_le)

definition classify_cte :: "string \<Rightarrow> QueryType" where
  "classify_cte s = cte_loop NORMAL 0 s"

section \<open>QueryClassifier\<close>

definition classify_one :: "string \<Rightarrow> QueryType" where
  "classify_one stmt =
     (let kw = first_keyword stmt in
      if kw = [] then UNKNOWN
      else if kw = ''with'' then classify_cte (skip_lead stmt)
      else (case keyword_map kw of None \<Rightarrow> UNKNOWN | Some t \<Rightarrow> t))"

text \<open>The loop over a batch, with \<open>first_known\<close> and \<open>have\<close> as one option.\<close>

fun classify_batch :: "QueryType option \<Rightarrow> string list \<Rightarrow> QueryType" where
  "classify_batch first_known [] = (case first_known of None \<Rightarrow> UNKNOWN | Some t \<Rightarrow> t)"
| "classify_batch first_known (st # stmts) =
     (let t = classify_one st in
      if t = UNKNOWN then classify_batch first_known stmts
      else if is_write t then t
      else classify_batch (case first_known of None \<Rightarrow> Some t | Some _ \<Rightarrow> first_known) stmts)"

definition classify :: "string \<Rightarrow> QueryType" where
  "classify sql =
     (let stmts = split_statements (strip_comments sql) in
      case stmts of
        [] \<Rightarrow> UNKNOWN
      | [s] \<Rightarrow> classify_one s
      | _ \<Rightarrow> classify_batch None stmts)"

section \<open>Case folding commutes with every scanner\<close>

lemma nonalpha_specials:
  "\<not> isalpha (CHR ''-'')" "\<not> isalpha (CHR ''#'')" "\<not> isalpha (CHR ''/'')" "\<not> isalpha (CHR ''*'')"
  "\<not> isalpha NUL" "\<not> isalpha NL" "\<not> isalpha SQ" "\<not> isalpha DQ" "\<not> isalpha BT" "\<not> isalpha BSL"
  "\<not> isalpha (CHR '';'')" "\<not> isalpha (CHR ''('')" "\<not> isalpha (CHR '')'')"
  "\<not> isalpha (CHR ''_'')" "\<not> isalpha (CHR ''$'')" "\<not> isalpha (CHR '' '')" "\<not> isalpha (CHR ''.'')"
  by (simp_all add: isalpha_def isupper_def islower_def)

lemmas tolower_special [simp] = nonalpha_specials [THEN tolower_eq_nonalpha]

lemma tolower_fix [simp]: "\<not> isalpha c \<Longrightarrow> tolower c = c"
  by (simp add: tolower_def isalpha_def)

lemma is_word_tolower [simp]: "is_word (tolower c) = is_word c"
  by (simp add: is_word_def)

lemma enter_quote_tolower [simp]: "enter_quote (tolower c) = enter_quote c"
  by (simp add: enter_quote_def)

lemma next_char_tolower [simp]: "next_char (map tolower cs) = tolower (next_char cs)"
  by (cases cs) (simp_all add: next_char_def nonalpha_specials)

lemma quote_of_nonalpha [simp]: "\<not> isalpha (quote_of st)"
  by (simp add: quote_of_def nonalpha_specials)

lemma tolower_quote_of [simp]: "tolower c = quote_of st \<longleftrightarrow> c = quote_of st"
  by (simp add: tolower_eq_nonalpha)

lemma dropWhile_map_tolower:
  "(\<And>c. P (tolower c) = P c) \<Longrightarrow> dropWhile P (map tolower cs) = map tolower (dropWhile P cs)"
  by (induction cs) auto

lemma takeWhile_map_tolower:
  "(\<And>c. P (tolower c) = P c) \<Longrightarrow> takeWhile P (map tolower cs) = map tolower (takeWhile P cs)"
  by (induction cs) auto

lemma skip_line_tolower [simp]: "skip_line (map tolower cs) = map tolower (skip_line cs)"
  by (simp add: skip_line_def dropWhile_map_tolower map_tl)

lemma skip_block_tolower [simp]: "skip_block (map tolower cs) = map tolower (skip_block cs)"
  by (induction cs rule: skip_block.induct) auto

lemma strip_loop_tolower: "strip_loop st (map tolower cs) = map tolower (strip_loop st cs)"
  by (induction st cs rule: strip_loop.induct) (auto simp: nonalpha_specials simp flip: map_tl)

lemma trim_tolower [simp]: "trim (map tolower s) = map tolower (trim s)"
  by (simp add: trim_def dropWhile_map_tolower rev_map)

lemma push_tolower: "push (map (map tolower) out) (map tolower sv) = map (map tolower) (push out sv)"
  by (simp add: push_def)

lemma split_loop_tolower:
  "split_loop (map (map tolower) out) (map tolower cur) st (map tolower cs) =
   map (map tolower) (split_loop out cur st cs)"
proof (induction out cur st cs rule: split_loop.induct)
  case (1 out cur st)
  then show ?case by (simp add: push_tolower)
next
  case (2 out cur c cs)
  then show ?case by (auto simp: push_tolower)
qed (auto simp: take_map simp flip: map_tl)

lemma split_statements_tolower: "split_statements (map tolower s) = map (map tolower) (split_statements s)"
  using split_loop_tolower [of "[]" "[]" NORMAL s] by (simp add: split_statements_def)

lemma skip_lead_tolower [simp]: "skip_lead (map tolower s) = map tolower (skip_lead s)"
  by (simp add: skip_lead_def dropWhile_map_tolower)

lemma read_keyword_tolower: "read_keyword buf (map tolower s) = read_keyword buf s"
  by (induction s arbitrary: buf) auto

lemma first_keyword_tolower [simp]: "first_keyword (map tolower s) = first_keyword s"
  by (simp add: first_keyword_def read_keyword_tolower)

lemma tolower_comp [simp]: "tolower \<circ> tolower = tolower"
  by (simp add: fun_eq_iff)

lemma isalpha_is_word: "isalpha c \<Longrightarrow> is_word c"
  by (simp add: is_word_def isalnum_def)

lemma cte_loop_tolower: "cte_loop st d (map tolower cs) = cte_loop st d cs"
proof (induction st d cs rule: cte_loop.induct)
  case (2 depth c cs)
  show ?case
  proof (cases "depth = 0 \<and> isalpha c")
    case True
    then have c: "c \<noteq> SQ \<and> c \<noteq> DQ \<and> c \<noteq> BT \<and> c \<noteq> CHR ''('' \<and> c \<noteq> CHR '')''"
      using nonalpha_specials by blast
    with True have "cte_loop NORMAL 0 (map tolower (dropWhile is_word cs)) =
        cte_loop NORMAL 0 (dropWhile is_word cs) \<or>
      (length (takeWhile is_word cs) \<le> 15 \<and> cte_keyword (map tolower (c # takeWhile is_word cs)) \<noteq> None)"
      using "2.IH"(4) [OF _ _ _ _ refl refl] "2.IH"(5) [OF _ _ _ _ refl refl]
      by (auto simp: isalpha_is_word)
    with True c show ?thesis
      by (auto simp: Let_def takeWhile_map_tolower dropWhile_map_tolower isalpha_is_word
           nonalpha_specials split: option.splits)
  next
    case False
    with "2.IH" show ?thesis by auto
  qed
qed (auto simp flip: map_tl)

lemma classify_one_tolower [simp]: "classify_one (map tolower s) = classify_one s"
  by (simp only: classify_one_def classify_cte_def first_keyword_tolower skip_lead_tolower cte_loop_tolower)

lemma classify_batch_tolower: "classify_batch fk (map (map tolower) ss) = classify_batch fk ss"
  by (induction fk ss rule: classify_batch.induct) (auto simp: Let_def)

text \<open>Keywords are matched without regard to case: folding the whole query to lower case
  changes its class in no way.\<close>

lemma classify_case_insensitive: "classify (map tolower sql) = classify sql"
  by (auto simp: classify_def strip_comments_def strip_loop_tolower split_statements_tolower
      classify_batch_tolower [of _ "_ # _", simplified] classify_batch_tolower Let_def split: list.splits
      simp flip: list.map(2))

section \<open>Batches\<close>

lemma classify_batch_write_iff:
  "is_write (classify_batch fk ss) \<longleftrightarrow>
   (\<exists>s \<in> set ss. is_write (classify_one s)) \<or> (\<exists>t. fk = Some t \<and> is_write t)"
  if "\<forall>t. fk = Some t \<longrightarrow> \<not> is_write t"
  using that
proof (induction fk ss rule: classify_batch.induct)
  case (1 fk)
  then show ?case by (auto simp: is_write_def split: option.splits)
next
  case (2 fk st stmts)
  show ?case
  proof (cases "classify_one st = UNKNOWN \<or> is_write (classify_one st)")
    case True
    with 2 show ?thesis by (auto simp: Let_def is_write_def)
  next
    case False
    have "\<not> is_write t" if "(case fk of None \<Rightarrow> Some (classify_one st) | Some _ \<Rightarrow> fk) = Some t" for t
      using that False "2.prems" by (auto split: option.splits)
    with False 2 show ?thesis by (auto simp: Let_def split: option.splits)
  qed
qed

lemma classify_is_write:
  "is_write (classify sql) \<longleftrightarrow>
   (\<exists>st \<in> set (split_statements (strip_comments sql)). is_write (classify_one st))"
  by (auto simp: classify_def Let_def is_write_def [of UNKNOWN] classify_batch_write_iff split: list.splits
      simp del: classify_batch.simps)

text \<open>C6. A batch is classified as a write exactly when one of its statements is: whatever the
  position of a write or DDL statement in a multi-statement string, the whole string routes
  as a write.\<close>

theorem classify_write_iff:
  "is_write (classify sql) =
   list_ex (\<lambda>st. is_write (classify_one st)) (split_statements (strip_comments sql))"
  unfolding list_ex_iff by (rule classify_is_write)

definition first_known :: "string list \<Rightarrow> QueryType" where
  "first_known ss = (case filter (\<lambda>t. t \<noteq> UNKNOWN) (map classify_one ss) of [] \<Rightarrow> UNKNOWN | t # _ \<Rightarrow> t)"

lemma classify_batch_no_write:
  "\<forall>s \<in> set ss. \<not> is_write (classify_one s) \<Longrightarrow>
   classify_batch fk ss = (case fk of None \<Rightarrow> first_known ss | Some t \<Rightarrow> t)"
  by (induction fk ss rule: classify_batch.induct) (auto simp: Let_def first_known_def split: option.splits)

lemma classify_no_write:
  assumes "\<forall>s \<in> set (split_statements (strip_comments sql)). \<not> is_write (classify_one s)"
  shows "classify sql = first_known (split_statements (strip_comments sql))"
  using classify_batch_no_write [OF assms, of None]
  by (auto simp: classify_def Let_def first_known_def split: list.splits simp del: classify_batch.simps)

text \<open>A string is classified as a read exactly when none of its statements is a write and the
  first statement with a known keyword is a read.\<close>

lemma classify_read_iff:
  "is_read (classify sql) \<longleftrightarrow>
   list_all (\<lambda>st. \<not> is_write (classify_one st)) (split_statements (strip_comments sql)) \<and>
   first_known (split_statements (strip_comments sql)) = SELECT"
  using classify_is_write [of sql] classify_no_write [of sql]
  by (auto simp: is_read_def list_all_iff dest: is_read_not_write [unfolded is_read_def])

section \<open>Leading comments and white space\<close>

lemma dropWhile_all_append: "\<forall>c \<in> set ws. P c \<Longrightarrow> dropWhile P (ws @ s) = dropWhile P s"
  by (induction ws) auto

lemma trim_lead: "\<forall>c \<in> set ws. isspace c \<Longrightarrow> trim (ws @ s) = trim s"
  by (simp add: trim_def dropWhile_all_append)

lemma split_loop_lead:
  "\<forall>c \<in> set ws. isspace c \<Longrightarrow> split_loop out (ws @ cur) st s = split_loop out cur st s"
proof (induction out cur st s rule: split_loop.induct)
  case (1 out cur st)
  then show ?case by (simp add: push_def trim_lead)
next
  case (2 out cur c cs)
  then show ?case by (auto simp: push_def trim_lead)
qed auto

lemma isspace_special:
  "isspace (CHR '' '')" "isspace NL" "\<not> isspace SQ" "\<not> isspace DQ" "\<not> isspace BT"
  "\<not> isspace (CHR '';'')"
  by (simp_all add: isspace_def)

lemma split_statements_space: "split_statements (CHR '' '' # s) = split_statements s"
  using split_loop_lead [of "'' ''" "[]" "[]" NORMAL s]
  by (simp add: split_statements_def isspace_special)

lemma classify_strip_space:
  "strip_comments s = CHR '' '' # strip_comments s' \<Longrightarrow> classify s = classify s'"
  by (simp add: classify_def split_statements_space)

fun block_free :: "string \<Rightarrow> bool" where
  "block_free (c # d # cs) = (\<not> (c = CHR ''*'' \<and> d = CHR ''/'') \<and> block_free (d # cs))"
| "block_free _ = True"

lemma skip_block_body: "block_free body \<Longrightarrow> skip_block (body @ ''*/'' @ s) = s"
  by (induction body rule: block_free.induct) auto

text \<open>A leading block comment (an optimiser hint, a tracing tag) never changes the class of a
  query.\<close>

lemma classify_leading_block_comment:
  "block_free body \<Longrightarrow> classify (''/*'' @ body @ ''*/'' @ sql) = classify sql"
  by (rule classify_strip_space) (simp add: strip_comments_def next_char_def skip_block_body [simplified])

lemma skip_line_body: "NL \<notin> set body \<Longrightarrow> skip_line (body @ NL # s) = s"
  by (induction body) (auto simp: skip_line_def)

lemma classify_leading_line_comment:
  "NL \<notin> set body \<Longrightarrow> classify (''--'' @ body @ NL # sql) = classify sql"
  by (rule classify_strip_space) 
   (use skip_line_body [of "CHR ''-'' # body"] in \<open>simp add: strip_comments_def next_char_def\<close>)

section \<open>Stripping\<close>

lemma next_char_strip:
  "next_char (strip_loop NORMAL cs) = next_char cs \<or> next_char (strip_loop NORMAL cs) = CHR '' ''"
  by (cases cs) (auto simp: next_char_def)

lemma next_char_strip_quote:
  "st \<noteq> NORMAL \<Longrightarrow> next_char (strip_loop st cs) = next_char cs"
  by (cases cs; cases st) (auto simp: next_char_def)

lemma enter_quote_plain [simp]: "enter_quote (CHR '' '') = NORMAL"
  by (simp add: enter_quote_def)

lemma strip_loop_space: "strip_loop NORMAL (CHR '' '' # cs) = CHR '' '' # strip_loop NORMAL cs"
  by (simp add: enter_quote_def)

lemma strip_loop_quote:
  "st \<noteq> NORMAL \<Longrightarrow> strip_loop st (c # cs) =
     (if c = BSL \<and> st \<noteq> BTICK
      then (if next_char cs \<noteq> NUL then c # next_char cs # strip_loop st (tl cs)
            else c # strip_loop st cs)
      else if c = quote_of st
           then (if next_char cs = quote_of st then c # next_char cs # strip_loop st (tl cs)
                 else c # strip_loop NORMAL cs)
      else c # strip_loop st cs)"
  by (cases st) simp_all

lemma next_char_Cons [simp]: "next_char (c # cs) = c"
  by (simp add: next_char_def)

lemma strip_loop_idem_quote:
  assumes st: "st \<noteq> NORMAL"
    and IH: "\<And>st' cs'. length cs' < length (c # cs) \<Longrightarrow> strip_loop st' (strip_loop st' cs') = strip_loop st' cs'"
  shows "strip_loop st (strip_loop st (c # cs)) = strip_loop st (c # cs)"
proof -
  have IHs: "strip_loop st' (strip_loop st' cs) = strip_loop st' cs"
    "strip_loop st' (strip_loop st' (tl cs)) = strip_loop st' (tl cs)" for st'
    using IH [of cs st'] IH [of "tl cs" st'] by auto
  have "quote_of st \<noteq> CHR '' ''" "quote_of st \<noteq> BSL"
    by (auto simp: quote_of_def)
  then have "next_char (strip_loop NORMAL cs) \<noteq> quote_of st" if "next_char cs \<noteq> quote_of st"
    using that next_char_strip [of cs] by auto
  then show ?thesis
    using st by (auto simp: strip_loop_quote IHs next_char_strip_quote quote_of_def)
qed

lemma strip_loop_idem: "strip_loop st (strip_loop st cs) = strip_loop st cs"
proof (induction cs arbitrary: st rule: length_induct)
  case (1 cs st)
  show ?case
  proof (cases cs)
    case Nil
    then show ?thesis by simp
  next
    case (Cons c cs')
    have n: "next_char (strip_loop (enter_quote c) cs') \<noteq> d"
      if "next_char cs' \<noteq> d" "d \<noteq> CHR '' ''" for d
      using that next_char_strip [of cs'] next_char_strip_quote [of "enter_quote c" cs']
      by (cases "enter_quote c = NORMAL") auto
    have len: "length (skip_line cs') < length cs" "length (skip_block (tl cs')) < length cs"
      using length_skip_line [of cs'] length_skip_block [of "tl cs'"] Cons by auto
    show ?thesis
    proof (cases "st = NORMAL")
      case True
      then show ?thesis
        using "1.IH" len Cons n [of "CHR ''-''"] n [of "CHR ''*''"]
        by auto
    next
      case False
      then show ?thesis using strip_loop_idem_quote [of st c cs'] "1.IH" Cons by auto
    qed
  qed
qed

text \<open>Stripping comments is idempotent: the output holds no comment that a second pass would
  remove, in or out of literals.\<close>

lemma strip_comments_idem: "strip_comments (strip_comments s) = strip_comments s"
  by (simp add: strip_comments_def strip_loop_idem)

end
