(* ===== verification/SchemaExtractor.thy ===== *)
theory SchemaExtractor
  imports QueryClassifier
begin

text \<open>
  \<open>routing/src/schema_extractor.cpp\<close>: the identifier reader, the qualified-name reader, the
  keyword matcher and \<open>SchemaExtractor::extract\<close>. Positions are natural numbers into the
  query, as in the source; every subscript is guarded by the loop conditions of the source.
\<close>

section \<open>Definitions\<close>

definition is_ident :: "char \<Rightarrow> bool" where
  "is_ident c = (isalnum c \<or> c = CHR ''_'' \<or> c = CHR ''$'')"

text \<open>The loop \<open>while (i < s.size() && P(s[i])) ++i\<close>.\<close>

function scan_while :: "(char \<Rightarrow> bool) \<Rightarrow> string \<Rightarrow> nat \<Rightarrow> nat" where
  "scan_while P s i = (if i < length s \<and> P (s ! i) then scan_while P s (Suc i) else i)"
  by pat_completeness auto
termination
  by (relation "measure (\<lambda>(P, s, i). length s - i)") auto

declare scan_while.simps [simp del]

text \<open>The loop over a quoted identifier: a doubled quote stands for one quote.\<close>

function read_quoted :: "char \<Rightarrow> string \<Rightarrow> nat \<Rightarrow> string \<Rightarrow> string \<times> nat" where
  "read_quoted q s i out =
     (if i < length s
      then (if s ! i = q
            then (if i + 1 < length s \<and> s ! (i + 1) = q then read_quoted q s (i + 2) (out @ [q])
                  else (out, i + 1))
            else read_quoted q s (i + 1) (out @ [s ! i]))
      else (out, i))"
  by pat_completeness auto
termination
  by (relation "measure (\<lambda>(q, s, i, out). length s - i)") auto

declare read_quoted.simps [simp del]

definition read_ident :: "string \<Rightarrow> nat \<Rightarrow> string \<times> nat" where
  "read_ident s pos =
     (let i = scan_while isspace s pos in
      if i \<ge> length s then ([], i)
      else if s ! i = BT \<or> s ! i = DQ then read_quoted (s ! i) s (i + 1) []
      else (let j = scan_while is_ident s i in (take (j - i) (drop i s), j)))"

definition read_qualified_schema :: "string \<Rightarrow> nat \<Rightarrow> string \<times> nat" where
  "read_qualified_schema s pos =
     (let (first, p) = read_ident s pos in
      if first = [] then ([], p)
      else (let i = scan_while isspace s p in
            if i < length s \<and> s ! i = CHR ''.''
            then (let (second, p') = read_ident s (i + 1) in
                  if second \<noteq> [] then (first, p') else ([], p'))
            else ([], p)))"

definition word_at :: "string \<Rightarrow> nat \<Rightarrow> string \<Rightarrow> bool" where
  "word_at s i kw =
     (i + length kw \<le> length s \<and>
      map tolower (take (length kw) (drop i s)) = kw \<and>
      (let after = i + length kw in after \<ge> length s \<or> \<not> is_ident (s ! after)))"

definition table_keywords :: "string list" where
  "table_keywords = [''from'', ''into'', ''update'', ''join'', ''table'']"

function extract_loop :: "string \<Rightarrow> nat \<Rightarrow> scan_state \<Rightarrow> SchemaName option" where
  "extract_loop s i st =
     (if i < length s
      then (let c = s ! i in
            if st \<noteq> NORMAL
            then (if c = BSL \<and> st \<noteq> BTICK then extract_loop s (i + 2) st
                  else if c = quote_of st then extract_loop s (i + 1) NORMAL
                  else extract_loop s (i + 1) st)
            else if c = SQ then extract_loop s (i + 1) SQUOTE
            else (let boundary = (i = 0 \<or> \<not> is_ident (s ! (i - 1))) in
                  if \<not> boundary \<or> \<not> isalpha c then extract_loop s (i + 1) NORMAL
                  else (case find (word_at s i) table_keywords of
                          None \<Rightarrow> extract_loop s (i + 1) NORMAL
                        | Some kw \<Rightarrow>
                            (let (schema, pos) = read_qualified_schema s (i + length kw) in
                             if schema \<noteq> [] then Some schema
                             else extract_loop s ((if pos > i then pos - 1 else i) + 1) NORMAL))))
      else None)"
  by pat_completeness auto
termination
  by (relation "measure (\<lambda>(s, i, st). length s - i)") auto

declare extract_loop.simps [simp del]

definition extract_schema :: "string \<Rightarrow> SchemaName option" where
  "extract_schema s = extract_loop s 0 NORMAL"

definition extract_or :: "string \<Rightarrow> string \<Rightarrow> SchemaName" where
  "extract_or sql session_schema = (case extract_schema sql of None \<Rightarrow> session_schema | Some s \<Rightarrow> s)"

section \<open>Scanning lemmas\<close>

lemma scan_while_takeWhile:
  "i \<le> length s \<Longrightarrow> scan_while P s i = i + length (takeWhile P (drop i s))"
proof (induction P s i rule: scan_while.induct)
  case (1 P s i)
  show ?case
  proof (cases "i < length s \<and> P (s ! i)")
    case True
    with 1 show ?thesis by (simp add: scan_while.simps [of P s i] Cons_nth_drop_Suc [symmetric])
  next
    case False
    with "1.prems" show ?thesis
      by (subst scan_while.simps) (auto simp: Cons_nth_drop_Suc [symmetric] le_less)
  qed
qed

lemma scan_while_append:
  assumes "\<forall>c \<in> set ws. P c" and "rest = [] \<or> \<not> P (hd rest)"
  shows "scan_while P (pre @ ws @ rest) (length pre) = length pre + length ws"
proof -
  have "takeWhile P (ws @ rest) = ws"
    using assms by (cases rest) (auto simp: takeWhile_append2)
  then show ?thesis by (simp add: scan_while_takeWhile)
qed

lemma read_ident_bare:
  assumes ws: "\<forall>c \<in> set ws. isspace c" and id: "\<forall>c \<in> set ident. is_ident c" and ne: "ident \<noteq> []"
    and rest: "rest = [] \<or> \<not> is_ident (hd rest)"
  shows "read_ident (pre @ ws @ ident @ rest) (length pre) = (ident, length (pre @ ws @ ident))"
proof -
  obtain c cs where c: "ident = c # cs" using ne by (cases ident) auto
  then have "is_ident c" using id by simp
  then have nc: "\<not> isspace c \<and> c \<noteq> BT \<and> c \<noteq> DQ"
    by (auto simp: is_ident_def isalnum_def isalpha_def isupper_def islower_def isdigit_def isspace_def Let_def)
  have 1: "scan_while isspace (pre @ ws @ ident @ rest) (length pre) = length (pre @ ws)"
    using scan_while_append [of ws isspace "ident @ rest" pre] ws c nc by simp
  have 2: "scan_while is_ident (pre @ ws @ ident @ rest) (length (pre @ ws)) = length (pre @ ws @ ident)"
    using scan_while_append [of ident is_ident rest "pre @ ws"] id rest by simp
  have 3: "(pre @ ws @ ident @ rest) ! length (pre @ ws) = c"
    using c by (simp add: nth_append)
  show ?thesis
    unfolding read_ident_def Let_def 1 2 3 using nc c by simp
qed

text \<open>Quoting: every quote character of the name is doubled between two quotes.\<close>

definition quote_ident :: "char \<Rightarrow> string \<Rightarrow> string" where
  "quote_ident q name = q # concat (map (\<lambda>c. if c = q then [q, q] else [c]) name) @ [q]"

lemma read_quoted_escaped:
  assumes rest: "rest = [] \<or> hd rest \<noteq> q"
  shows "read_quoted q (pre @ concat (map (\<lambda>c. if c = q then [q, q] else [c]) name) @ q # rest)
           (length pre) out =
         (out @ name, length pre + length (concat (map (\<lambda>c. if c = q then [q, q] else [c]) name)) + 1)"
proof (induction name arbitrary: pre out)
  case Nil
  show ?case using rest
    by (subst read_quoted.simps) (cases rest; auto simp: nth_append)
next
  case (Cons c cs)
  let ?esc = "\<lambda>xs. concat (map (\<lambda>c. if c = q then [q, q] else [c]) xs)"
  show ?case
  proof (cases "c = q")
    case True
    then show ?thesis
      using Cons.IH [of "pre @ [q, q]" "out @ [q]"]
      by (simp add: read_quoted.simps [of q "pre @ q # q # _"] nth_append)
  next
    case False
    then show ?thesis
      using Cons.IH [of "pre @ [c]" "out @ [c]"]
      by (simp add: read_quoted.simps [of q "pre @ c # _"] nth_append)
  qed
qed

lemma read_ident_quoted:
  assumes q: "q = BT \<or> q = DQ" and ws: "\<forall>c \<in> set ws. isspace c" and rest: "rest = [] \<or> hd rest \<noteq> q"
  shows "read_ident (pre @ ws @ quote_ident q name @ rest) (length pre) =
         (name, length (pre @ ws @ quote_ident q name))"
proof -
  let ?esc = "concat (map (\<lambda>c. if c = q then [q, q] else [c]) name)"
  let ?s = "pre @ ws @ quote_ident q name @ rest"
  have s: "?s = (pre @ ws @ [q]) @ ?esc @ q # rest" by (simp add: quote_ident_def)
  have 1: "scan_while isspace ?s (length pre) = length (pre @ ws)"
    using scan_while_append [of ws isspace "quote_ident q name @ rest" pre] ws q
    by (auto simp: quote_ident_def isspace_special)
  have 2: "?s ! length (pre @ ws) = q" by (simp add: quote_ident_def nth_append)
  have 3: "read_quoted q ?s (length (pre @ ws) + 1) [] = (name, length (pre @ ws @ quote_ident q name))"
    using read_quoted_escaped [of rest q "pre @ ws @ [q]" name "[]"] rest
    unfolding s by (simp add: quote_ident_def)
  show ?thesis
    unfolding read_ident_def Let_def 1 2 3 using q by (simp add: quote_ident_def)
qed

text \<open>Positions only move forward, so the outer loop of \<open>extract\<close> never rescans a name.\<close>

lemma scan_while_ge: "i \<le> scan_while P s i"
  by (induction P s i rule: scan_while.induct) (subst scan_while.simps, auto)

lemma read_quoted_ge: "i \<le> snd (read_quoted q s i out)"
  by (induction q s i out rule: read_quoted.induct) (subst read_quoted.simps, auto)

lemma read_ident_ge: "pos \<le> snd (read_ident s pos)"
  using scan_while_ge [of pos isspace s] scan_while_ge [of "scan_while isspace s pos" is_ident s]
    read_quoted_ge [of "scan_while isspace s pos + 1" "s ! scan_while isspace s pos" s "[]"]
  by (auto simp: read_ident_def Let_def)

lemma read_qualified_schema_ge: "pos \<le> snd (read_qualified_schema s pos)"
  using read_ident_ge [of pos s]
    read_ident_ge [of "scan_while isspace s (snd (read_ident s pos)) + 1" s]
    scan_while_ge [of "snd (read_ident s pos)" isspace s]
  by (auto simp: read_qualified_schema_def Let_def split: prod.splits)

section \<open>Extraction of a qualified name\<close>

text \<open>
  The spellings of a name that the reader accepts: bare, when it consists of identifier
  characters, or quoted by backticks or double quotes.
\<close>

definition renders :: "string \<Rightarrow> string \<Rightarrow> bool" where
  "renders txt name \<longleftrightarrow> name \<noteq> [] \<and>
     (list_all is_ident name \<and> txt = name \<or> txt = quote_ident BT name \<or> txt = quote_ident DQ name)"

definition name_end :: "string \<Rightarrow> bool" where
  "name_end rest \<longleftrightarrow> (case rest of [] \<Rightarrow> True | c # _ \<Rightarrow> \<not> is_ident c \<and> c \<noteq> BT \<and> c \<noteq> DQ)"

lemma read_ident_renders:
  assumes "renders txt name" and "\<forall>c \<in> set ws. isspace c" and "name_end rest"
  shows "read_ident (pre @ ws @ txt @ rest) (length pre) = (name, length (pre @ ws @ txt))"
proof -
  have r: "rest = [] \<or> \<not> is_ident (hd rest)" "\<And>q. q = BT \<or> q = DQ \<Longrightarrow> rest = [] \<or> hd rest \<noteq> q"
    using assms(3) by (auto simp: name_end_def split: list.splits)
  consider "list_all is_ident name" "txt = name" | q where "q = BT \<or> q = DQ" "txt = quote_ident q name"
    using assms(1) by (auto simp: renders_def)
  then show ?thesis
  proof cases
    case 1
    then show ?thesis
      using read_ident_bare [of ws name rest pre] assms(1,2) r(1) by (auto simp: renders_def list_all_iff)
  next
    case 2
    then show ?thesis using read_ident_quoted [of q ws rest pre name] assms(2) r(2) by simp
  qed
qed

lemma read_qualified_schema_renders:
  assumes "renders dtxt db" and "renders ttxt tbl" and ws: "\<forall>c \<in> set ws. isspace c" and "name_end rest"
  shows "fst (read_qualified_schema (pre @ ws @ dtxt @ ''.'' @ ttxt @ rest) (length pre)) = db"
proof -
  let ?s = "pre @ ws @ dtxt @ ''.'' @ ttxt @ rest"
  have ne: "db \<noteq> []" "tbl \<noteq> []" using assms(1,2) by (auto simp: renders_def)
  have dot: "name_end (''.'' @ ttxt @ rest)" "\<not> isspace (CHR ''.'')"
    by (simp_all add: name_end_def is_ident_def isalnum_def isalpha_def isupper_def islower_def
        isdigit_def isspace_def)
  have 1: "read_ident ?s (length pre) = (db, length (pre @ ws @ dtxt))"
    using read_ident_renders [OF assms(1) ws dot(1)] by simp
  have 2: "scan_while isspace ?s (length (pre @ ws @ dtxt)) = length (pre @ ws @ dtxt)"
    using scan_while_append [of "[]" isspace "''.'' @ ttxt @ rest" "pre @ ws @ dtxt"] dot(2) by simp
  have 3: "?s ! length (pre @ ws @ dtxt) = CHR ''.''" by (simp add: nth_append)
  have 4: "fst (read_ident ?s (length (pre @ ws @ dtxt) + 1)) = tbl"
    using read_ident_renders [OF assms(2) _ assms(4), of "[]" "pre @ ws @ dtxt @ ''.''"] by simp
  show ?thesis
    using ne 4 unfolding read_qualified_schema_def Let_def 1 by (simp only: prod.case 2 3) (auto split: prod.splits)
qed

text \<open>A prefix is inert when no string literal and no table keyword starts inside it.\<close>

definition inert_upto :: "string \<Rightarrow> nat \<Rightarrow> bool" where
  "inert_upto s n \<longleftrightarrow> list_all (\<lambda>j. s ! j \<noteq> SQ \<and> find (word_at s j) table_keywords = None) [0..<n]"

lemma extract_loop_inert:
  assumes "i \<le> n" and "n \<le> length s" and "inert_upto s n"
  shows "extract_loop s i NORMAL = extract_loop s n NORMAL"
  using assms(1)
proof (induction rule: inc_induct)
  case base
  show ?case ..
next
  case (step j)
  with assms(2,3) have "s ! j \<noteq> SQ \<and> find (word_at s j) table_keywords = None"
    by (auto simp: inert_upto_def list_all_iff)
  with step assms(2) show ?case
    by (subst extract_loop.simps) (auto simp: Let_def)
qed

lemma word_at_append:
  "map tolower w = kw \<Longrightarrow> rest = [] \<or> \<not> is_ident (hd rest) \<Longrightarrow> word_at (pre @ w @ rest) (length pre) kw"
  by (cases rest) (auto simp: word_at_def Let_def nth_append)

lemma word_at_unique:
  assumes "word_at s i k1" and "word_at s i k2" and "k1 \<in> set table_keywords" and "k2 \<in> set table_keywords"
  shows "k1 = k2"
proof -
  have "hd k = hd (map tolower (drop i s))" if "word_at s i k" "k \<in> set table_keywords" for k
  proof -
    have k: "take (length k) (map tolower (drop i s)) = k" using that(1) by (simp add: word_at_def take_map)
    have "0 < length k" using that(2) by (auto simp: table_keywords_def)
    then have "hd (take (length k) (map tolower (drop i s))) = hd (map tolower (drop i s))" by (rule hd_take)
    then show ?thesis unfolding k .
  qed
  from this [OF assms(1,3)] this [OF assms(2,4)] have "hd k1 = hd k2" by (rule trans [OF _ sym])
  then show ?thesis using assms(3,4) by (auto simp: table_keywords_def)
qed

lemma find_word_at:
  assumes "word_at s i kw" and "kw \<in> set table_keywords"
  shows "find (word_at s i) table_keywords = Some kw"
proof -
  obtain k where k: "find (word_at s i) table_keywords = Some k"
    using assms by (cases "find (word_at s i) table_keywords") (auto simp: find_None_iff)
  then have "k \<in> set table_keywords" "word_at s i k" by (auto simp: find_Some_iff in_set_conv_nth)
  then show ?thesis using word_at_unique [OF _ assms(1) _ assms(2)] k by simp
qed

lemma extract_loop_hit:
  assumes "i < length s" and "isalpha (s ! i)" and "i = 0 \<or> \<not> is_ident (s ! (i - 1))"
    and "find (word_at s i) table_keywords = Some kw"
    and "fst (read_qualified_schema s (i + length kw)) = db" and "db \<noteq> []"
  shows "extract_loop s i NORMAL = Some db"
proof -
  have "s ! i \<noteq> SQ" using assms(2) nonalpha_specials by auto
  then show ?thesis
    using assms by (subst extract_loop.simps) (auto simp: Let_def split: prod.splits)
qed



text \<open>An extracted schema name is never empty, so the fall-back to the session's schema happens
  exactly when the query names none.\<close>

lemma extract_nonempty: "extract_schema s = Some db \<Longrightarrow> db \<noteq> []"
proof -
  have "extract_loop s i st \<noteq> Some []" for i st
  proof (induction "length s - i" arbitrary: i st rule: less_induct)
    case less
    have "extract_loop s j st' \<noteq> Some []" if "i < j" "i < length s" for j st'
      by (rule less.hyps) (use that in simp)
    then show ?case
      by (subst extract_loop.simps) (auto simp: Let_def split: option.splits prod.splits)
  qed
  then show "extract_schema s = Some db \<Longrightarrow> db \<noteq> []" by (auto simp: extract_schema_def)
qed

end
