(* ===== verification/RoutingEngine.thy ===== *)
theory RoutingEngine
  imports RoutingPolicies SchemaExtractor
begin

text \<open>
  \<open>read_write_router.cpp\<close>, \<open>backend_selector.cpp\<close> and \<open>routing_engine.cpp\<close>: the read/write role,
  the selection of a backend and the whole pipeline \<open>RoutingEngine::plan\<close>. The mutable counters
  of the policy objects that a selector owns are a function from the policy to its counter,
  threaded through \<open>select\<close> and \<open>plan\<close>.
\<close>

section \<open>ReadWriteRouter\<close>

record RwSessionState =
  rw_in_transaction :: bool
  rw_autocommit :: bool

definition select_role :: "QueryType \<Rightarrow> RwSessionState \<Rightarrow> BackendRole" where
  "select_role type session =
     (if rw_in_transaction session then PRIMARY
      else case type of SELECT \<Rightarrow> REPLICA | _ \<Rightarrow> PRIMARY)"

section \<open>BackendSelector\<close>

definition usable_for_role :: "BackendState \<Rightarrow> BackendRole \<Rightarrow> bool" where
  "usable_for_role st role =
     (if role = PRIMARY then st = HEALTHY \<or> st = DEGRADED else st = HEALTHY)"

definition filter_candidates :: "BackendEntry list \<Rightarrow> BackendRole \<Rightarrow> u32 \<Rightarrow> bool \<Rightarrow> BackendEntry list" where
  "filter_candidates ins role max_lag_ms replication_aware =
     filter (\<lambda>e. usable_for_role (be_state e) role \<and>
                 \<not> (role = REPLICA \<and> replication_aware \<and> be_replication_lag_ms e > max_lag_ms)) ins"

type_synonym counters = "RoutingPolicy \<Rightarrow> u64"

definition candidates_for :: "BackendRegistry \<Rightarrow> RoutingConfig \<Rightarrow> SchemaConfig \<Rightarrow> BackendRole \<Rightarrow> BackendEntry list" where
  "candidates_for reg defaults schema role =
     (let group = sc_backend_group schema;
          max_lag = rt_max_replica_lag_ms defaults;
          candidates = filter_candidates (entries reg (br_get_group_by_role reg group role)) role
                         max_lag (rt_replication_aware defaults)
      in if candidates = [] \<and> role = REPLICA
         then filter_candidates (entries reg (br_get_group_by_role reg group PRIMARY)) PRIMARY
                max_lag (rt_replication_aware defaults)
         else candidates)"

definition select :: "BackendRegistry \<Rightarrow> RoutingConfig \<Rightarrow> nat \<Rightarrow> RoutingContext \<Rightarrow> counters
    \<Rightarrow> SchemaConfig \<Rightarrow> BackendRole \<Rightarrow> (BackendID, RoutingError) result \<times> counters" where
  "select reg defaults raw ctx cnt schema role =
     (let candidates = candidates_for reg defaults schema role in
      if candidates = [] then (Err NO_BACKEND_AVAILABLE, cnt)
      else (let p = (case sc_routing_policy schema of Some p \<Rightarrow> p | None \<Rightarrow> rt_default_policy defaults);
                (chosen, n) = policy_for p raw ctx (cnt p) candidates;
                cnt' = cnt(p := n)
            in if chosen = [] then (Err NO_BACKEND_AVAILABLE, cnt') else (Ok chosen, cnt')))"

section \<open>RoutingEngine\<close>

record SessionView =
  sv_current_schema :: string
  sv_in_transaction :: bool
  sv_autocommit :: bool
  sv_pinned_backend :: "BackendID option"

record RoutePlan =
  rp_query_type :: QueryType
  rp_schema :: SchemaName
  rp_backend_id :: BackendID
  rp_role :: BackendRole

text \<open>
  The pipeline over the two collaborators it calls: \<open>lookup\<close> is \<open>SchemaRegistry::lookup\<close> and
  \<open>sel\<close> is \<open>BackendSelector::select\<close> (with its counters).
\<close>

definition plan_role :: "RoutingConfig \<Rightarrow> QueryType \<Rightarrow> SessionView \<Rightarrow> SchemaConfig \<Rightarrow> BackendRole" where
  "plan_role routing type session config =
     (let rw = \<lparr>rw_in_transaction = sv_in_transaction session, rw_autocommit = sv_autocommit session\<rparr>;
          role = select_role type rw;
          rw_split = (case sc_read_write_split config of Some b \<Rightarrow> b | None \<Rightarrow> rt_read_write_split routing)
      in if \<not> rw_split then PRIMARY else role)"

definition plan_with :: "(string \<Rightarrow> SchemaConfig option)
    \<Rightarrow> ('c \<Rightarrow> SchemaConfig \<Rightarrow> BackendRole \<Rightarrow> (BackendID, RoutingError) result \<times> 'c)
    \<Rightarrow> RoutingConfig \<Rightarrow> 'c \<Rightarrow> string \<Rightarrow> SessionView \<Rightarrow> (RoutePlan, RoutingError) result \<times> 'c" where
  "plan_with lookup sel routing cnt sql session =
     (let type = classify sql;
          schema = extract_or sql (sv_current_schema session)
      in case lookup schema of
           None \<Rightarrow> (Err NO_SCHEMA_CONFIG, cnt)
         | Some config \<Rightarrow>
             (let role = plan_role routing type session config;
                  mk = (\<lambda>b. \<lparr>rp_query_type = type, rp_schema = schema, rp_backend_id = b, rp_role = role\<rparr>)
              in case (sv_pinned_backend session, role) of
                   (Some b, PRIMARY) \<Rightarrow> (Ok (mk b), cnt)
                 | _ \<Rightarrow> (case sel cnt config role of
                           (Err e, cnt') \<Rightarrow> (Err e, cnt')
                         | (Ok b, cnt') \<Rightarrow> (Ok (mk b), cnt'))))"

definition plan :: "SchemaRegistry \<Rightarrow> BackendRegistry \<Rightarrow> RoutingConfig \<Rightarrow> nat \<Rightarrow> RoutingContext
    \<Rightarrow> counters \<Rightarrow> string \<Rightarrow> SessionView \<Rightarrow> (RoutePlan, RoutingError) result \<times> counters" where
  "plan schemas reg routing raw ctx cnt sql session =
     plan_with (sr_lookup schemas) (select reg routing raw ctx) routing cnt sql session"

section \<open>The contract of a selector and the engine over it\<close>

text \<open>
  The engine relies on a selector only through \<open>serves\<close>, a relation between a schema, a role
  and a backend, and on the one error it may return.
\<close>

locale selector_contract =
  fixes sel :: "'c \<Rightarrow> SchemaConfig \<Rightarrow> BackendRole \<Rightarrow> (BackendID, RoutingError) result \<times> 'c"
    and serves :: "SchemaConfig \<Rightarrow> BackendRole \<Rightarrow> BackendID \<Rightarrow> bool"
  assumes sel_serves: "fst (sel cnt config role) = Ok b \<Longrightarrow> serves config role b"
    and sel_error: "fst (sel cnt config role) = Err e \<Longrightarrow> e = NO_BACKEND_AVAILABLE"
begin

lemma plan_with_serves:
  assumes "fst (plan_with lookup sel routing cnt sql session) = Ok p"
  shows "\<exists>config. lookup (extract_or sql (sv_current_schema session)) = Some config \<and>
    rp_query_type p = classify sql \<and>
    rp_schema p = extract_or sql (sv_current_schema session) \<and>
    rp_role p = plan_role routing (classify sql) session config \<and>
    (serves config (rp_role p) (rp_backend_id p) \<or>
     rp_role p = PRIMARY \<and> sv_pinned_backend session = Some (rp_backend_id p))"
proof -
  let ?schema = "extract_or sql (sv_current_schema session)"
  obtain config where c: "lookup ?schema = Some config"
    using assms by (cases "lookup ?schema") (auto simp: plan_with_def)
  let ?role = "plan_role routing (classify sql) session config"
  show ?thesis
  proof (cases "\<exists>b. sv_pinned_backend session = Some b \<and> ?role = PRIMARY")
    case True
    with assms c show ?thesis by (auto simp: plan_with_def)
  next
    case False
    with assms c obtain b where b: "fst (sel cnt config ?role) = Ok b"
      "p = \<lparr>rp_query_type = classify sql, rp_schema = ?schema, rp_backend_id = b, rp_role = ?role\<rparr>"
      by (auto simp: plan_with_def Let_def split: option.splits BackendRole.splits result.splits prod.splits)
    with sel_serves [OF b(1)] c show ?thesis by simp
  qed
qed

lemma plan_with_error:
  assumes "fst (plan_with lookup sel routing cnt sql session) = Err e"
  shows "e = NO_SCHEMA_CONFIG \<and> lookup (extract_or sql (sv_current_schema session)) = None \<or>
         e = NO_BACKEND_AVAILABLE"
  using assms sel_error
  by (auto simp: plan_with_def Let_def split: option.splits BackendRole.splits result.splits prod.splits)
     (metis fst_conv)+

end

section \<open>The selector keeps its contract\<close>

text \<open>
  A backend serves a schema for a role when it is registered in the schema's group and either
  has that role, is usable for it and (for a replica, when routing is replication-aware) is
  within the lag bound, or the role is \<open>REPLICA\<close>, no such replica exists and it is a usable
  primary of the group.
\<close>

definition eligible :: "RoutingConfig \<Rightarrow> string \<Rightarrow> BackendRole \<Rightarrow> BackendEntry \<Rightarrow> bool" where
  "eligible routing g role e \<longleftrightarrow>
     be_group e = g \<and> be_role e = role \<and> usable_for_role (be_state e) role \<and>
     (role = REPLICA \<and> rt_replication_aware routing \<longrightarrow>
        be_replication_lag_ms e \<le> rt_max_replica_lag_ms routing)"

definition serving :: "BackendRegistry \<Rightarrow> RoutingConfig \<Rightarrow> SchemaConfig \<Rightarrow> BackendRole \<Rightarrow> BackendEntry set" where
  "serving reg routing schema role =
     (let el = (\<lambda>role. {e \<in> set (all_entries reg). eligible routing (sc_backend_group schema) role e})
      in if role = REPLICA \<and> el REPLICA = {} then el PRIMARY else el role)"

lemma set_group_by_role:
  "br_wf r \<Longrightarrow> set (entries r (br_get_group_by_role r g role)) =
     {e \<in> set (all_entries r). be_group e = g \<and> be_role e = role}"
  using mset_eq_setD [OF entries_group_by_role] by fastforce

lemma set_candidates: "br_wf reg \<Longrightarrow> set (candidates_for reg routing schema role) = serving reg routing schema role"
proof -
  assume wf: "br_wf reg"
  let ?f = "\<lambda>role. filter_candidates (entries reg (br_get_group_by_role reg (sc_backend_group schema) role))
      role (rt_max_replica_lag_ms routing) (rt_replication_aware routing)"
  have f: "set (?f role) = {e \<in> set (all_entries reg). eligible routing (sc_backend_group schema) role e}" for role
    using set_group_by_role [OF wf] by (auto simp: filter_candidates_def eligible_def not_less)
  have "?f REPLICA = [] \<longleftrightarrow> {e \<in> set (all_entries reg). eligible routing (sc_backend_group schema) REPLICA e} = {}"
    by (metis f set_empty)
  then show ?thesis
    unfolding candidates_for_def serving_def Let_def using f by auto
qed

lemma select_serves:
  assumes "br_wf reg" and "fst (select reg routing raw ctx cnt schema role) = Ok b"
  shows "\<exists>e \<in> serving reg routing schema role. be_id e = b"
proof -
  let ?c = "candidates_for reg routing schema role"
  let ?p = "case sc_routing_policy schema of None \<Rightarrow> rt_default_policy routing | Some p \<Rightarrow> p"
  have "b = fst (policy_select ?p raw ctx (cnt ?p) ?c)" "b \<noteq> []"
    using assms(2) by (auto simp: select_def Let_def split: if_splits prod.splits)
  with pol.sel_member [of ?p raw ctx "cnt ?p" ?c] have "\<exists>e \<in> set ?c. be_id e = b" by auto
  then show ?thesis using set_candidates [OF assms(1)] by simp
qed

lemma select_error:
  "fst (select reg routing raw ctx cnt schema role) = Err e \<Longrightarrow> e = NO_BACKEND_AVAILABLE"
  by (auto simp: select_def Let_def split: if_splits prod.splits)

text \<open>The relation the model's selector promises, on a well-formed registry.\<close>

definition serves :: "BackendRegistry \<Rightarrow> RoutingConfig \<Rightarrow> SchemaConfig \<Rightarrow> BackendRole \<Rightarrow> BackendID \<Rightarrow> bool" where
  "serves reg routing schema role b \<longleftrightarrow>
     (br_wf reg \<longrightarrow> (\<exists>e \<in> serving reg routing schema role. be_id e = b))"

interpretation eng: selector_contract "select reg routing raw ctx" "serves reg routing"
  for reg routing raw ctx
  by unfold_locales (auto simp: serves_def select_serves select_error)

section \<open>Properties of the pipeline\<close>

lemma serving_role:
  "e \<in> serving reg routing schema role \<Longrightarrow>
   e \<in> set (all_entries reg) \<and> eligible routing (sc_backend_group schema) (be_role e) e \<and>
   (be_role e = REPLICA \<longrightarrow> role = REPLICA)"
  by (auto simp: serving_def Let_def eligible_def split: if_splits)

lemma plan_role_REPLICA:
  "plan_role routing type session config = REPLICA \<Longrightarrow> type = SELECT \<and> \<not> sv_in_transaction session"
  by (auto simp: plan_role_def select_role_def Let_def split: if_splits QueryType.splits)

lemma plan_serves:
  assumes "br_wf reg" and "fst (plan schemas reg routing raw ctx cnt sql session) = Ok p"
    and "sv_pinned_backend session = None"
  shows "\<exists>config e. sr_lookup schemas (extract_or sql (sv_current_schema session)) = Some config \<and>
    rp_role p = plan_role routing (classify sql) session config \<and>
    e \<in> serving reg routing config (rp_role p) \<and> be_id e = rp_backend_id p"
  using eng.plan_with_serves [OF assms(2) [unfolded plan_def]] assms(1,3) by (auto simp: serves_def)

text \<open>Every plan names a backend that may serve it: it is registered in the group of the schema that
  the query resolves to, and it is \<open>HEALTHY\<close> (or a \<open>DEGRADED\<close> primary); when it is a replica
  its lag is within the bound of a replication-aware configuration. This holds after any history
  of the registry, for every policy and every random draw.\<close>

lemma plan_backend_eligible:
  assumes "permutes_entries it" and "reg = br_run it ops"
    and "fst (plan schemas reg routing raw ctx cnt sql session) = Ok p"
    and "sv_pinned_backend session = None"
  shows "\<exists>config e. sr_lookup schemas (extract_or sql (sv_current_schema session)) = Some config \<and>
    e \<in> set (all_entries reg) \<and> be_id e = rp_backend_id p \<and>
    eligible routing (sc_backend_group config) (be_role e) e"
  using plan_serves [OF _ assms(3,4)] br_wf_run [OF assms(1)] assms(2) serving_role by blast

text \<open>Writes never reach a replica: a statement batch with a write, any statement inside a
  transaction, and anything that is not a pure read is planned onto a backend whose current role
  is \<open>PRIMARY\<close>.\<close>

lemma plan_write_to_primary:
  assumes "permutes_entries it" and "reg = br_run it ops"
    and "fst (plan schemas reg routing raw ctx cnt sql session) = Ok p"
    and "sv_pinned_backend session = None"
    and "\<not> is_read (classify sql) \<or> sv_in_transaction session"
  shows "\<exists>e \<in> set (all_entries reg). be_id e = rp_backend_id p \<and> be_role e = PRIMARY"
proof -
  obtain config e where e: "rp_role p = plan_role routing (classify sql) session config"
    "e \<in> serving reg routing config (rp_role p)" "be_id e = rp_backend_id p"
    using plan_serves [OF _ assms(3,4)] br_wf_run [OF assms(1)] assms(2) by blast
  have "rp_role p \<noteq> REPLICA"
    using assms(5) plan_role_REPLICA [of routing "classify sql" session config] e(1) by (auto simp: is_read_def)
  then have "be_role e = PRIMARY"
    using serving_role [OF e(2)] by (cases "be_role e") auto
  then show ?thesis using serving_role [OF e(2)] e(3) by blast
qed

lemma select_available:
  assumes "br_wf reg" and "\<forall>e \<in> set (all_entries reg). be_id e \<noteq> []"
  shows "if serving reg routing config role = {}
    then fst (select reg routing raw no_context cnt config role) = Err NO_BACKEND_AVAILABLE
    else \<exists>e \<in> serving reg routing config role. fst (select reg routing raw no_context cnt config role) = Ok (be_id e)"
proof -
  let ?c = "candidates_for reg routing config role"
  let ?p = "case sc_routing_policy config of None \<Rightarrow> rt_default_policy routing | Some p \<Rightarrow> p"
  have c: "set ?c = serving reg routing config role" by (rule set_candidates [OF assms(1)])
  then have "fst (policy_select ?p raw no_context (cnt ?p) ?c) \<noteq> []" if "?c \<noteq> []"
    using that assms(2) serving_role by (intro pol0.total_nonempty) auto
  then have "fst (select reg routing raw no_context cnt config role) =
      (if ?c = [] then Err NO_BACKEND_AVAILABLE else Ok (fst (policy_select ?p raw no_context (cnt ?p) ?c)))"
    by (cases "?c = []") (auto simp: select_def Let_def split: prod.splits)
  moreover from c have "?c = [] \<longleftrightarrow> serving reg routing config role = {}" by (simp flip: set_empty)
  ultimately show ?thesis
    using select_serves [OF assms(1), of routing raw no_context cnt config role] by (simp split: if_splits) metis
qed

lemma plan_result:
  assumes "br_wf reg" and "sr_lookup schemas (extract_or sql (sv_current_schema session)) = Some config"
    and "sv_pinned_backend session = None" and "\<forall>e \<in> set (all_entries reg). be_id e \<noteq> []"
    and "role = plan_role routing (classify sql) session config"
  shows "if serving reg routing config role = {}
    then fst (plan schemas reg routing raw no_context cnt sql session) = Err NO_BACKEND_AVAILABLE
    else \<exists>e \<in> serving reg routing config role. fst (plan schemas reg routing raw no_context cnt sql session) =
      Ok \<lparr>rp_query_type = classify sql, rp_schema = extract_or sql (sv_current_schema session),
          rp_backend_id = be_id e, rp_role = role\<rparr>"
proof -
  have "fst (plan schemas reg routing raw no_context cnt sql session) =
      (case fst (select reg routing raw no_context cnt config role) of Err e \<Rightarrow> Err e
       | Ok b \<Rightarrow> Ok \<lparr>rp_query_type = classify sql,
           rp_schema = extract_or sql (sv_current_schema session), rp_backend_id = b, rp_role = role\<rparr>)"
    using assms(2,3) unfolding assms(5) by (auto simp: plan_def plan_with_def Let_def split: result.splits prod.splits)
  with select_available [OF assms(1,4), of routing config role raw cnt] show ?thesis by (auto split: if_splits)
qed

lemma plan_available:
  assumes "br_wf reg" and "sr_lookup schemas (extract_or sql (sv_current_schema session)) = Some config"
    and "sv_pinned_backend session = None" and "\<forall>e \<in> set (all_entries reg). be_id e \<noteq> []"
  shows "((\<exists>p. fst (plan schemas reg routing raw no_context cnt sql session) = Ok p) \<longleftrightarrow>
           serving reg routing config (plan_role routing (classify sql) session config) \<noteq> {}) \<and>
         (serving reg routing config (plan_role routing (classify sql) session config) = {} \<longrightarrow>
           fst (plan schemas reg routing raw no_context cnt sql session) = Err NO_BACKEND_AVAILABLE)"
  using plan_result [OF assms refl, of routing raw cnt] by (auto split: if_splits)

text \<open>C7. The engine fails only when it must: with the context the frontend passes, a query whose
  schema resolves and whose session is not pinned is planned exactly when a backend may serve it,
  and otherwise the error is \<open>NO_BACKEND_AVAILABLE\<close>.\<close>

theorem plan_available_iff:
  assumes "br_wf reg" and "sr_lookup schemas (extract_or sql (sv_current_schema session)) = Some config"
    and "sv_pinned_backend session = None" and "\<forall>e \<in> set (all_entries reg). be_id e \<noteq> []"
  shows "((\<exists>p. fst (plan schemas reg routing raw no_context cnt sql session) = Ok p) \<longleftrightarrow>
           serving reg routing config (plan_role routing (classify sql) session config) \<noteq> {}) \<and>
         (serving reg routing config (plan_role routing (classify sql) session config) = {} \<longrightarrow>
           fst (plan schemas reg routing raw no_context cnt sql session) = Err NO_BACKEND_AVAILABLE)"
  using assms by (rule plan_available)

text \<open>A pinned session is routed to its pin for all primary-bound work, whatever the registry
  holds: neither that the pinned backend exists, nor that it serves the schema's group, nor that
  it is healthy is checked.\<close>

lemma plan_pin_unchecked:
  assumes "sr_lookup schemas (extract_or sql (sv_current_schema session)) = Some config"
    and "sv_pinned_backend session = Some b" and "\<not> is_read (classify sql)"
  shows "plan schemas reg routing raw ctx cnt sql session =
    (Ok \<lparr>rp_query_type = classify sql, rp_schema = extract_or sql (sv_current_schema session),
         rp_backend_id = b, rp_role = PRIMARY\<rparr>, cnt)"
proof -
  have "plan_role routing (classify sql) session config = PRIMARY"
    using assms(3) plan_role_REPLICA [of routing "classify sql" session config]
    by (cases "plan_role routing (classify sql) session config") (auto simp: is_read_def)
  with assms(1,2) show ?thesis by (simp add: plan_def plan_with_def)
qed

section \<open>Witnesses\<close>

text \<open>A group with a primary \<open>a\<close> and a replica \<open>b\<close>, and a default schema on it.\<close>

definition sample_ops :: "br_op list" where
  "sample_ops = [Load [sample_backend ''a'' PRIMARY, sample_backend ''b'' REPLICA]]"

definition sample_schemas :: SchemaRegistry where
  "sample_schemas = sr_upsert (default_SchemaConfig\<lparr>sc_name := ''default'', sc_backend_group := ''g''\<rparr>) sr_new"

definition sample_session :: SessionView where
  "sample_session = \<lparr>sv_current_schema = [], sv_in_transaction = False, sv_autocommit = True,
     sv_pinned_backend = None\<rparr>"

lemma sample_wf: "br_wf (br_run rev sample_ops)"
  by (rule br_wf_run) (simp add: permutes_entries_def)

lemma rev_permutes: "permutes_entries rev"
  by (simp add: permutes_entries_def)

lemmas sample_run = br_run_def br_load_def alloc_def emplace_def build_def push_group_def group_of_def
  sample_ops_def sample_backend_def default_BackendConfig_def BackendEntry_of_def br_new_def
  all_entries_def entries_def map_filter_simps

lemma sample_lookup: "sr_lookup sample_schemas n = Some (default_SchemaConfig\<lparr>sc_name := ''default'', sc_backend_group := ''g''\<rparr>)"
proof -
  have "sr_find sr_new = (\<lambda>_. None)" by (simp add: fun_eq_iff sr_find_def sr_new_def)
  then have "sr_find sample_schemas =
      [''default'' \<mapsto> default_SchemaConfig\<lparr>sc_name := ''default'', sc_backend_group := ''g''\<rparr>]"
    by (simp add: sample_schemas_def sr_find_upsert)
  then show ?thesis by (simp add: sr_lookup_def)
qed

lemma sample_candidates:
  "map be_id (candidates_for (br_run rev sample_ops) default_RoutingConfig
     (default_SchemaConfig\<lparr>sc_name := ''default'', sc_backend_group := ''g''\<rparr>) role) =
   (if role = PRIMARY then [''a''] else [''b''])"
  by (cases role)
     (simp_all add: sample_run candidates_for_def filter_candidates_def usable_for_role_def
       br_get_group_by_role_def default_RoutingConfig_def)

lemma sample_select:
  "select (br_run rev sample_ops) default_RoutingConfig 0 no_context (\<lambda>_. 0)
     (default_SchemaConfig\<lparr>sc_name := ''default'', sc_backend_group := ''g''\<rparr>) role =
   (Ok (if role = PRIMARY then ''a'' else ''b''), (\<lambda>_. 0)(ROUND_ROBIN := 1))"
proof -
  obtain e where "candidates_for (br_run rev sample_ops) default_RoutingConfig
     (default_SchemaConfig\<lparr>sc_name := ''default'', sc_backend_group := ''g''\<rparr>) role = [e]"
    "be_id e = (if role = PRIMARY then ''a'' else ''b'')"
    using sample_candidates [of role] by (cases "role = PRIMARY") (auto simp: map_eq_Cons_conv)
  then show ?thesis
    by (simp add: select_def default_SchemaConfig_def default_RoutingConfig_def round_robin_select_def)
qed

lemma sample_plan:
  "fst (plan sample_schemas (br_run rev sample_ops) default_RoutingConfig 0 no_context (\<lambda>_. 0)
     ''DELETE FROM t'' sample_session) =
   Ok \<lparr>rp_query_type = DELETE, rp_schema = [], rp_backend_id = ''a'', rp_role = PRIMARY\<rparr>"
proof -
  have "classify ''DELETE FROM t'' = DELETE" "extract_or ''DELETE FROM t'' [] = []" by code_simp+
  then show ?thesis
    by (simp add: plan_def plan_with_def sample_lookup sample_session_def plan_role_def select_role_def
        default_SchemaConfig_def default_RoutingConfig_def)
       (simp add: sample_select [unfolded default_SchemaConfig_def default_RoutingConfig_def, simplified])
qed

theorem plan_available_iff_witness:
  "serving (br_run rev sample_ops) default_RoutingConfig
     (default_SchemaConfig\<lparr>sc_name := ''default'', sc_backend_group := ''g''\<rparr>)
     (plan_role default_RoutingConfig (classify ''DELETE FROM t'') sample_session
       (default_SchemaConfig\<lparr>sc_name := ''default'', sc_backend_group := ''g''\<rparr>)) \<noteq> {}"
proof -
  have ids: "\<forall>e \<in> set (all_entries (br_run rev sample_ops)). be_id e \<noteq> []"
    by (simp add: sample_run)
  show ?thesis
    using plan_available_iff [OF sample_wf sample_lookup _ ids, of sample_session default_RoutingConfig 0
        "\<lambda>_. 0" "''DELETE FROM t''"] sample_plan
    by (simp add: sample_session_def)
qed

end
