(* ===== verification/ConnectionPool.thy ===== *)
theory ConnectionPool
  imports ConfigTypes
begin

text \<open>
  \<open>pool/src/connection_pool.cpp\<close>: one connection pool. Every handler runs on the strand, so a
  handler from one suspension point to the next is one step: \<open>acquire_impl\<close> is split at its two
  \<open>co_await\<close>s (the factory and the waiter's timer), \<open>warm_impl\<close> at the factory and
  \<open>idle_reaper_impl\<close> at its timer. Connections live in an explicit heap that \<open>all_\<close> owns; the free
  list, the active set and the waiters hold addresses, and following an address that is not in
  the heap (a use after free) is \<^const>\<open>None\<close>. What \<open>make_unique\<close> returns for a new connection, the
  result of the factory and the clock are arguments of the handlers.
\<close>

section \<open>State\<close>

type_synonym caddr = nat
type_synonym time = int

record PooledConnection =
  px_backend_id :: BackendID
  px_open :: bool
  px_connected_at :: time
  px_last_used :: time
  px_queries_served :: u64
  px_state :: ConnectionState

text \<open>A waiter is identified by a number; \<open>cp_result\<close> is the field \<open>result\<close> of the waiter objects.\<close>

record ConnectionPool =
  cp_backend_id :: BackendID
  cp_config :: PoolConfig
  cp_heap :: "caddr \<Rightarrow> PooledConnection option"
  cp_all :: "caddr list"
  cp_free_list :: "caddr list"
  cp_active :: "caddr set"
  cp_waiters :: "nat list"
  cp_result :: "nat \<Rightarrow> caddr option"
  cp_next_waiter :: nat
  cp_shutting_down :: bool
  cp_free_count :: nat
  cp_active_count :: nat
  cp_waiter_count :: nat
  cp_total_count :: nat
  cp_total_acquired :: u64

definition cp_new :: "BackendID \<Rightarrow> PoolConfig \<Rightarrow> ConnectionPool" where
  "cp_new backend_id config = \<lparr>cp_backend_id = backend_id, cp_config = config,
     cp_heap = (\<lambda>_. None), cp_all = [], cp_free_list = [], cp_active = {}, cp_waiters = [],
     cp_result = (\<lambda>_. None), cp_next_waiter = 0, cp_shutting_down = False, cp_free_count = 0,
     cp_active_count = 0, cp_waiter_count = 0, cp_total_count = 0, cp_total_acquired = 0\<rparr>"

section \<open>Bookkeeping\<close>

definition track :: "caddr \<Rightarrow> bool \<Rightarrow> time \<Rightarrow> ConnectionPool \<Rightarrow> ConnectionPool" where
  "track a opened now p =
     p\<lparr>cp_heap := (cp_heap p)(a \<mapsto> \<lparr>px_backend_id = cp_backend_id p, px_open = opened, px_connected_at = now,
         px_last_used = now, px_queries_served = 0, px_state = IDLE\<rparr>),
       cp_all := cp_all p @ [a]\<rparr>"

definition untrack :: "caddr \<Rightarrow> ConnectionPool \<Rightarrow> ConnectionPool" where
  "untrack c p =
     (if c \<in> set (cp_all p)
      then p\<lparr>cp_all := remove1 c (cp_all p), cp_heap := (cp_heap p)(c := None)\<rparr>
      else p)"

definition sync_metrics :: "ConnectionPool \<Rightarrow> ConnectionPool" where
  "sync_metrics p =
     p\<lparr>cp_free_count := length (cp_free_list p), cp_active_count := card (cp_active p),
       cp_waiter_count := length (cp_waiters p), cp_total_count := length (cp_all p)\<rparr>"

lemma untrack_fields [pool_defs]:
  "cp_active (untrack c p) = cp_active p" "cp_waiters (untrack c p) = cp_waiters p"
  "cp_result (untrack c p) = cp_result p" "cp_next_waiter (untrack c p) = cp_next_waiter p"
  "cp_shutting_down (untrack c p) = cp_shutting_down p"
  by (simp_all add: untrack_def)

lemma sync_fields [pool_defs]:
  "cp_active (sync_metrics p) = cp_active p" "cp_waiters (sync_metrics p) = cp_waiters p"
  "cp_result (sync_metrics p) = cp_result p" "cp_next_waiter (sync_metrics p) = cp_next_waiter p"
  "cp_shutting_down (sync_metrics p) = cp_shutting_down p" "cp_all (sync_metrics p) = cp_all p"
  "cp_free_list (sync_metrics p) = cp_free_list p" "cp_heap (sync_metrics p) = cp_heap p"
  by (simp_all add: sync_metrics_def)

definition upd_conn :: "caddr \<Rightarrow> (PooledConnection \<Rightarrow> PooledConnection) \<Rightarrow> ConnectionPool \<Rightarrow> ConnectionPool option" where
  "upd_conn c f p = do { x \<leftarrow> cp_heap p c; Some (p\<lparr>cp_heap := (cp_heap p)(c \<mapsto> f x)\<rparr>) }"

section \<open>acquire\<close>

datatype acquire_outcome = Acquired caddr | Connect | Wait nat | Failed PoolError

text \<open>From the start of \<open>acquire_impl\<close> to its first suspension or its end.\<close>

definition acquire_start :: "time \<Rightarrow> ConnectionPool \<Rightarrow> (acquire_outcome \<times> ConnectionPool) option" where
  "acquire_start now p =
     (if cp_shutting_down p then Some (Failed POOL_SHUTDOWN, p)
      else case cp_free_list p of
        c # rest \<Rightarrow> do {
          p \<leftarrow> upd_conn c (\<lambda>x. x\<lparr>px_state := IN_USE, px_last_used := now\<rparr>) (p\<lparr>cp_free_list := rest\<rparr>);
          Some (Acquired c, sync_metrics (p\<lparr>cp_active := insert c (cp_active p),
            cp_total_acquired := cp_total_acquired p + 1\<rparr>)) }
      | [] \<Rightarrow>
          if length (cp_all p) < unat (pool_max (cp_config p)) then Some (Connect, p)
          else (let w = cp_next_waiter p in
                Some (Wait w, sync_metrics (p\<lparr>cp_waiters := cp_waiters p @ [w], cp_next_waiter := w + 1,
                  cp_result := (cp_result p)(w := None)\<rparr>))))"

text \<open>After the factory: \<open>r\<close> is its result (whether the connection is open), \<open>a\<close> the new object.\<close>

definition acquire_created :: "caddr \<Rightarrow> (bool, PoolError) result \<Rightarrow> time \<Rightarrow> ConnectionPool
    \<Rightarrow> (acquire_outcome \<times> ConnectionPool) option" where
  "acquire_created a r now p =
     (case r of
        Err e \<Rightarrow> Some (Failed e, p)
      | Ok opened \<Rightarrow> do {
          p \<leftarrow> upd_conn a (\<lambda>x. x\<lparr>px_state := IN_USE\<rparr>) (track a opened now p);
          Some (Acquired a, sync_metrics (p\<lparr>cp_active := insert a (cp_active p),
            cp_total_acquired := cp_total_acquired p + 1\<rparr>)) })"

text \<open>After the waiter's timer expired or was cancelled.\<close>

definition acquire_woken :: "nat \<Rightarrow> ConnectionPool \<Rightarrow> acquire_outcome \<times> ConnectionPool" where
  "acquire_woken w p =
     (case cp_result p w of
        Some c \<Rightarrow> (Acquired c, p\<lparr>cp_total_acquired := cp_total_acquired p + 1\<rparr>)
      | None \<Rightarrow> (Failed TIMED_OUT, sync_metrics (p\<lparr>cp_waiters := remove1 w (cp_waiters p)\<rparr>)))"

section \<open>release\<close>

definition release :: "caddr \<Rightarrow> bool \<Rightarrow> time \<Rightarrow> ConnectionPool \<Rightarrow> ConnectionPool option" where
  "release c healthy now p =
     (if c \<notin> cp_active p then Some p
      else do {
        let p = p\<lparr>cp_active := cp_active p - {c}\<rparr>;
        x \<leftarrow> cp_heap p c;
        if \<not> healthy \<or> cp_shutting_down p \<or> \<not> px_open x
        then do {
          p \<leftarrow> upd_conn c (\<lambda>x. x\<lparr>px_open := False\<rparr>) p;
          Some (sync_metrics (untrack c p)) }
        else case cp_waiters p of
          w # rest \<Rightarrow> do {
            p \<leftarrow> upd_conn c (\<lambda>x. x\<lparr>px_state := IN_USE\<rparr>) (p\<lparr>cp_waiters := rest\<rparr>);
            Some (sync_metrics (p\<lparr>cp_active := insert c (cp_active p), cp_result := (cp_result p)(w := Some c)\<rparr>)) }
        | [] \<Rightarrow> do {
            p \<leftarrow> upd_conn c (\<lambda>x. x\<lparr>px_state := IDLE, px_last_used := now\<rparr>) p;
            Some (sync_metrics (p\<lparr>cp_free_list := cp_free_list p @ [c]\<rparr>)) } })"

section \<open>warm\<close>

text \<open>The loop head: the index at which the factory is awaited, or the end of the loop.\<close>

definition warm_next :: "nat \<Rightarrow> ConnectionPool \<Rightarrow> nat option" where
  "warm_next i p =
     (if i < unat (pool_min (cp_config p)) \<and> \<not> cp_shutting_down p \<and>
         \<not> length (cp_all p) \<ge> unat (pool_max (cp_config p))
      then Some i else None)"

definition warm_created :: "nat \<Rightarrow> caddr \<Rightarrow> (bool, PoolError) result \<Rightarrow> time \<Rightarrow> ConnectionPool
    \<Rightarrow> (nat option \<times> ConnectionPool) option" where
  "warm_created i a r now p =
     (case r of
        Err e \<Rightarrow> Some (None, p)
      | Ok opened \<Rightarrow> do {
          p \<leftarrow> upd_conn a (\<lambda>x. x\<lparr>px_state := IDLE\<rparr>) (track a opened now p);
          let p = sync_metrics (p\<lparr>cp_free_list := cp_free_list p @ [a]\<rparr>);
          Some (warm_next (i + 1) p, p) })"

section \<open>drain and the idle reaper\<close>

fun close_all :: "caddr list \<Rightarrow> ConnectionPool \<Rightarrow> ConnectionPool option" where
  "close_all [] p = Some p"
| "close_all (c # cs) p = do { p \<leftarrow> upd_conn c (\<lambda>x. x\<lparr>px_open := False\<rparr>) p; close_all cs p }"

text \<open>The active set is closed in the order \<open>it\<close> in which the hash set happens to iterate.\<close>

definition drain :: "(caddr set \<Rightarrow> caddr list) \<Rightarrow> ConnectionPool \<Rightarrow> ConnectionPool option" where
  "drain it p = do {
     let p = p\<lparr>cp_shutting_down := True,
       cp_result := fold (\<lambda>w res. res(w := None)) (cp_waiters p) (cp_result p), cp_waiters := []\<rparr>;
     p \<leftarrow> close_all (cp_free_list p) p;
     let p = p\<lparr>cp_free_list := []\<rparr>;
     p \<leftarrow> close_all (it (cp_active p)) p;
     Some (sync_metrics (p\<lparr>cp_active := {}, cp_all := [], cp_heap := (\<lambda>_. None)\<rparr>)) }"

fun reap_loop :: "time \<Rightarrow> time \<Rightarrow> caddr list \<Rightarrow> caddr list \<Rightarrow> ConnectionPool \<Rightarrow> (caddr list \<times> ConnectionPool) option" where
  "reap_loop now max_idle [] keep p = Some (keep, p)"
| "reap_loop now max_idle (c # cs) keep p = do {
     x \<leftarrow> cp_heap p c;
     if now - px_last_used x > max_idle \<and> length (cp_all p) > unat (pool_min (cp_config p))
     then do {
       p \<leftarrow> upd_conn c (\<lambda>x. x\<lparr>px_open := False\<rparr>) p;
       reap_loop now max_idle cs keep (untrack c p) }
     else reap_loop now max_idle cs (keep @ [c]) p }"

text \<open>One round of the reaper after its timer expired; time is in nanoseconds.\<close>

definition reap :: "time \<Rightarrow> ConnectionPool \<Rightarrow> ConnectionPool option" where
  "reap now p = do {
     (keep, p) \<leftarrow> reap_loop now (uint (pool_idle_timeout_sec (cp_config p)) * 10 ^ 9) (cp_free_list p) [] p;
     Some (sync_metrics (p\<lparr>cp_free_list := keep\<rparr>)) }"

section \<open>The invariant of the pool\<close>

text \<open>
  The tracked connections are exactly the free and the active ones, each once; a free connection
  is \<open>IDLE\<close> and an active one \<open>IN_USE\<close>; a queued waiter has no result yet.
\<close>

definition pool_struct :: "ConnectionPool \<Rightarrow> bool" where
  "pool_struct p \<longleftrightarrow>
     distinct (cp_all p) \<and> distinct (cp_free_list p) \<and> finite (cp_active p) \<and>
     set (cp_free_list p) \<inter> cp_active p = {} \<and>
     set (cp_all p) = set (cp_free_list p) \<union> cp_active p \<and>
     dom (cp_heap p) = set (cp_all p) \<and>
     (\<forall>c x. cp_heap p c = Some x \<longrightarrow> px_state x = (if c \<in> cp_active p then IN_USE else IDLE)) \<and>
     distinct (cp_waiters p) \<and> (\<forall>w \<in> set (cp_waiters p). w < cp_next_waiter p \<and> cp_result p w = None) \<and>
     (cp_shutting_down p \<longrightarrow> cp_waiters p = [])"

text \<open>The metrics that other threads read agree with the lists.\<close>

definition synced :: "ConnectionPool \<Rightarrow> bool" where
  "synced p \<longleftrightarrow> cp_free_count p = length (cp_free_list p) \<and> cp_active_count p = card (cp_active p) \<and>
     cp_waiter_count p = length (cp_waiters p) \<and> cp_total_count p = length (cp_all p)"

definition pool_inv :: "ConnectionPool \<Rightarrow> bool" where
  "pool_inv p \<longleftrightarrow> pool_struct p \<and> synced p"

lemma pool_inv_new: "pool_inv (cp_new b c)"
  by (simp add: pool_inv_def pool_struct_def synced_def cp_new_def)

lemma pool_inv_sync: "pool_struct p \<Longrightarrow> pool_inv (sync_metrics p)"
  by (simp add: pool_inv_def pool_struct_def synced_def sync_metrics_def)

lemma pool_inv_acquired: "pool_inv (p\<lparr>cp_total_acquired := n\<rparr>) = pool_inv p"
  by (simp add: pool_inv_def pool_struct_def synced_def)

lemma heap_of:
  assumes "pool_struct p" "c \<in> set (cp_free_list p) \<union> cp_active p"
  obtains x where "cp_heap p c = Some x"
proof -
  have "c \<in> dom (cp_heap p)" using assms by (simp add: pool_struct_def)
  then show thesis using that by blast
qed

lemma acquire_start_inv:
  assumes "pool_inv p"
  shows "\<exists>o' p'. acquire_start now p = Some (o', p') \<and> pool_inv p'"
proof (cases "cp_shutting_down p")
  case False
  show ?thesis
  proof (cases "cp_free_list p")
    case Nil
    then have "pool_struct (p\<lparr>cp_waiters := cp_waiters p @ [cp_next_waiter p],
        cp_next_waiter := cp_next_waiter p + 1, cp_result := (cp_result p)(cp_next_waiter p := None)\<rparr>)"
      using assms False by (auto simp: pool_inv_def pool_struct_def)
    then show ?thesis using assms Nil False by (simp add: acquire_start_def Let_def pool_inv_sync)
  next
    case (Cons c cs)
    with assms obtain x where x: "cp_heap p c = Some x"
      using heap_of [of p c] by (auto simp: pool_inv_def)
    have "pool_struct (p\<lparr>cp_free_list := cs, cp_heap := (cp_heap p)(c \<mapsto> x\<lparr>px_state := IN_USE, px_last_used := now\<rparr>),
        cp_active := insert c (cp_active p), cp_total_acquired := cp_total_acquired p + 1\<rparr>)"
      using assms Cons x by (auto simp: pool_inv_def pool_struct_def split: if_splits)
    then show ?thesis using Cons False x by (simp add: acquire_start_def upd_conn_def pool_inv_sync)
  qed
qed (simp add: acquire_start_def assms)

lemma acquire_created_inv:
  assumes "pool_inv p" "a \<notin> set (cp_all p)"
  shows "\<exists>o' p'. acquire_created a r now p = Some (o', p') \<and> pool_inv p'"
proof (cases r)
  case (Ok opened)
  have "pool_struct (p\<lparr>cp_all := cp_all p @ [a], cp_heap := (cp_heap p)(a \<mapsto> \<lparr>px_backend_id = cp_backend_id p,
      px_open = opened, px_connected_at = now, px_last_used = now, px_queries_served = 0, px_state = IN_USE\<rparr>), cp_active := insert a (cp_active p), cp_total_acquired := cp_total_acquired p + 1\<rparr>)"
    using assms by (auto simp: pool_inv_def pool_struct_def split: if_splits)
  then show ?thesis using Ok by (simp add: acquire_created_def track_def upd_conn_def pool_inv_sync)
qed (simp add: acquire_created_def assms)

lemma acquire_woken_inv:
  assumes "pool_inv p"
  shows "pool_inv (snd (acquire_woken w p))"
proof -
  have "pool_struct (p\<lparr>cp_waiters := remove1 w (cp_waiters p)\<rparr>)"
    using assms by (auto simp: pool_inv_def pool_struct_def dest: notin_set_remove1)
  then show ?thesis
    using assms by (auto simp: acquire_woken_def pool_inv_acquired pool_inv_sync split: option.splits)
qed

lemma release_inv:
  assumes "pool_inv p"
  shows "\<exists>p'. release c healthy now p = Some p' \<and> pool_inv p'"
proof (cases "c \<in> cp_active p")
  case True
  with assms obtain x where x: "cp_heap p c = Some x" using heap_of [of p c] by (auto simp: pool_inv_def)
  show ?thesis
  proof (cases "\<not> healthy \<or> cp_shutting_down p \<or> \<not> px_open x")
    case drop: True
    have "pool_struct (untrack c (p\<lparr>cp_active := cp_active p - {c}, cp_heap := (cp_heap p)(c \<mapsto> x\<lparr>px_open := False\<rparr>)\<rparr>))"
      using assms True x by (auto simp: pool_inv_def pool_struct_def untrack_def split: if_splits)
    then show ?thesis using True x drop by (auto simp: release_def upd_conn_def pool_inv_sync)
  next
    case keep: False
    show ?thesis
    proof (cases "cp_waiters p")
      case Nil
      have "pool_struct (p\<lparr>cp_active := cp_active p - {c}, cp_heap := (cp_heap p)(c \<mapsto> x\<lparr>px_state := IDLE, px_last_used := now\<rparr>),
          cp_free_list := cp_free_list p @ [c]\<rparr>)"
        using assms True x by (auto simp: pool_inv_def pool_struct_def split: if_splits)
      then show ?thesis using True x keep Nil by (simp add: release_def upd_conn_def pool_inv_sync)
    next
      case (Cons w ws)
      have "pool_struct (p\<lparr>cp_waiters := ws, cp_heap := (cp_heap p)(c \<mapsto> x\<lparr>px_state := IN_USE\<rparr>),
          cp_active := insert c (cp_active p), cp_result := (cp_result p)(w := Some c)\<rparr>)"
        using assms True x Cons keep by (auto simp: pool_inv_def pool_struct_def split: if_splits)
      then show ?thesis using True x keep Cons by (simp add: release_def upd_conn_def pool_inv_sync)
    qed
  qed
qed (simp add: release_def assms)

lemma warm_created_inv:
  assumes "pool_inv p" "a \<notin> set (cp_all p)"
  shows "\<exists>o' p'. warm_created i a r now p = Some (o', p') \<and> pool_inv p'"
proof (cases r)
  case (Ok opened)
  have "pool_struct (p\<lparr>cp_all := cp_all p @ [a], cp_heap := (cp_heap p)(a \<mapsto> \<lparr>px_backend_id = cp_backend_id p,
      px_open = opened, px_connected_at = now, px_last_used = now, px_queries_served = 0, px_state = IDLE\<rparr>), cp_free_list := cp_free_list p @ [a]\<rparr>)"
    using assms by (auto simp: pool_inv_def pool_struct_def split: if_splits)
  then show ?thesis using Ok by (simp add: warm_created_def track_def upd_conn_def pool_inv_sync Let_def)
qed (simp add: warm_created_def assms)


lemma close_all_heap:
  assumes "set cs \<subseteq> dom (cp_heap p)"
  shows "\<exists>h. close_all cs p = Some (p\<lparr>cp_heap := h\<rparr>) \<and> dom h = dom (cp_heap p)"
  using assms
proof (induction cs arbitrary: p)
  case Nil
  then show ?case by (intro exI [of _ "cp_heap p"]) simp
next
  case (Cons c cs)
  then obtain x where x: "cp_heap p c = Some x" by auto
  let ?p = "p\<lparr>cp_heap := (cp_heap p)(c \<mapsto> x\<lparr>px_open := False\<rparr>)\<rparr>"
  have dom: "dom (cp_heap ?p) = dom (cp_heap p)" using x by auto
  then have "set cs \<subseteq> dom (cp_heap ?p)" using Cons.prems by simp
  from Cons.IH [OF this] obtain h where "close_all cs ?p = Some (?p\<lparr>cp_heap := h\<rparr>)" "dom h = dom (cp_heap ?p)"
    by blast
  with x dom show ?case by (intro exI [of _ h]) (simp add: upd_conn_def)
qed

lemma drain_eq:
  assumes "pool_inv p" "set (it (cp_active p)) = cp_active p"
  shows "\<exists>res. drain it p = Some (sync_metrics (p\<lparr>cp_shutting_down := True, cp_result := res,
    cp_waiters := [], cp_free_list := [], cp_active := {}, cp_all := [], cp_heap := (\<lambda>_. None)\<rparr>)) \<and>
    (\<forall>w. w \<notin> set (cp_waiters p) \<longrightarrow> res w = cp_result p w)"
proof -
  define p1 where "p1 = p\<lparr>cp_shutting_down := True,
       cp_result := fold (\<lambda>w res. res(w := None)) (cp_waiters p) (cp_result p), cp_waiters := []\<rparr>"
  have "set (cp_free_list p1) \<subseteq> dom (cp_heap p1)" "cp_active p1 \<subseteq> dom (cp_heap p1)"
    using assms(1) by (auto simp: p1_def pool_inv_def pool_struct_def)
  then obtain h where h: "close_all (cp_free_list p1) p1 = Some (p1\<lparr>cp_heap := h\<rparr>)" "cp_active p1 \<subseteq> dom h"
    using close_all_heap [of "cp_free_list p1" p1] by auto
  then obtain h' where "close_all (it (cp_active p)) (p1\<lparr>cp_heap := h, cp_free_list := []\<rparr>) =
      Some (p1\<lparr>cp_free_list := [], cp_heap := h'\<rparr>)"
    using close_all_heap [of "it (cp_active p)" "p1\<lparr>cp_heap := h, cp_free_list := []\<rparr>"] assms(2)
    by (auto simp: p1_def)
  moreover have "w \<notin> set ws \<Longrightarrow> fold (\<lambda>w res. res(w := None)) ws res w = res w" for w ws and res :: "nat \<Rightarrow> caddr option"
    by (induction ws arbitrary: res) auto
  ultimately show ?thesis
    using h(1) by (intro exI [of _ "cp_result p1"]) (simp add: drain_def p1_def)
qed

lemma drain_inv:
  assumes "pool_inv p" "set (it (cp_active p)) = cp_active p"
  shows "\<exists>p'. drain it p = Some p' \<and> pool_inv p'"
proof -
  have "pool_struct (p\<lparr>cp_shutting_down := True, cp_result := res,
    cp_waiters := [], cp_free_list := [], cp_active := {}, cp_all := [], cp_heap := (\<lambda>_. None)\<rparr>)" for res
    by (simp add: pool_struct_def)
  with drain_eq [of p it, OF assms] pool_inv_sync show ?thesis by metis
qed

text \<open>The reaper on the free list: what it keeps and what it closes.\<close>

lemma reap_loop_inv:
  assumes "pool_struct (p\<lparr>cp_free_list := keep @ cs\<rparr>)"
  shows "\<exists>keep' p'. reap_loop now max_idle cs keep p = Some (keep @ keep', p') \<and>
    pool_struct (p'\<lparr>cp_free_list := keep @ keep'\<rparr>) \<and> set keep' \<subseteq> set cs \<and>
    p' = p\<lparr>cp_all := cp_all p', cp_heap := cp_heap p'\<rparr> \<and>
    length (cp_all p') \<ge> min (length (cp_all p)) (unat (pool_min (cp_config p))) \<and>
    (\<forall>c x. c \<in> set cs - set keep' \<longrightarrow> cp_heap p c = Some x \<longrightarrow> now - px_last_used x > max_idle)"
  using assms
proof (induction cs arbitrary: keep p)
  case Nil
  then show ?case by simp
next
  case (Cons c cs)
  from heap_of [OF Cons.prems, of c] obtain x where x: "cp_heap p c = Some x" by auto
  show ?case
  proof (cases "now - px_last_used x > max_idle \<and> length (cp_all p) > unat (pool_min (cp_config p))")
    case True
    let ?q = "p\<lparr>cp_all := remove1 c (cp_all p), cp_heap := (cp_heap p)(c := None)\<rparr>"
    have mem: "c \<in> set (cp_all p)" using Cons.prems by (simp add: pool_struct_def)
    have "pool_struct (?q\<lparr>cp_free_list := keep @ cs\<rparr>)"
      using Cons.prems by (auto simp: pool_struct_def split: if_splits)
    from Cons.IH [OF this] obtain keep' p' where r: "reap_loop now max_idle cs keep ?q = Some (keep @ keep', p')"
      "pool_struct (p'\<lparr>cp_free_list := keep @ keep'\<rparr>)" "set keep' \<subseteq> set cs"
      "p' = ?q\<lparr>cp_all := cp_all p', cp_heap := cp_heap p'\<rparr>"
      "length (cp_all p') \<ge> min (length (cp_all ?q)) (unat (pool_min (cp_config ?q)))"
      "\<forall>c' y. c' \<in> set cs - set keep' \<longrightarrow> cp_heap ?q c' = Some y \<longrightarrow> now - px_last_used y > max_idle"
      by blast
    have "c \<notin> set cs" using Cons.prems by (auto simp: pool_struct_def)
    moreover have "min (length (cp_all p)) (unat (pool_min (cp_config p))) \<le> length (cp_all p')"
      using r(5) True mem by (simp add: length_remove1 min_def split: if_splits)
    moreover have "reap_loop now max_idle (c # cs) keep p = Some (keep @ keep', p')"
      using True x mem r(1) by (simp add: upd_conn_def untrack_def)
    moreover have "now - px_last_used y > max_idle" if "c' \<in> set (c # cs) - set keep'" "cp_heap p c' = Some y" for c' y
      using that True x r(6) by (cases "c' = c") auto
    moreover have "p' = p\<lparr>cp_all := cp_all p', cp_heap := cp_heap p'\<rparr>" using r(4) by simp
    ultimately show ?thesis
      using r(2,3) by (intro exI [of _ keep'] exI [of _ p']) (simp del: reap_loop.simps, blast)
  next
    case False
    have "pool_struct (p\<lparr>cp_free_list := (keep @ [c]) @ cs\<rparr>)" using Cons.prems by simp
    from Cons.IH [OF this] obtain keep' p' where r: "reap_loop now max_idle cs (keep @ [c]) p = Some ((keep @ [c]) @ keep', p')"
      "pool_struct (p'\<lparr>cp_free_list := (keep @ [c]) @ keep'\<rparr>)" "set keep' \<subseteq> set cs"
      "p' = p\<lparr>cp_all := cp_all p', cp_heap := cp_heap p'\<rparr>"
      "length (cp_all p') \<ge> min (length (cp_all p)) (unat (pool_min (cp_config p)))"
      "\<forall>c' y. c' \<in> set cs - set keep' \<longrightarrow> cp_heap p c' = Some y \<longrightarrow> now - px_last_used y > max_idle"
      by blast
    then show ?thesis using False x by (intro exI [of _ "c # keep'"] exI [of _ p']) auto
  qed
qed

lemma reap_inv:
  assumes "pool_inv p"
  shows "\<exists>p'. reap now p = Some p' \<and> pool_inv p' \<and>
    p' = p\<lparr>cp_all := cp_all p', cp_heap := cp_heap p', cp_free_list := cp_free_list p',
      cp_free_count := cp_free_count p', cp_total_count := cp_total_count p'\<rparr> \<and>
    set (cp_free_list p') \<subseteq> set (cp_free_list p) \<and>
    length (cp_all p') \<ge> min (length (cp_all p)) (unat (pool_min (cp_config p))) \<and>
    (\<forall>c x. c \<in> set (cp_free_list p) - set (cp_free_list p') \<longrightarrow> cp_heap p c = Some x \<longrightarrow>
      now - px_last_used x > uint (pool_idle_timeout_sec (cp_config p)) * 10 ^ 9)"
proof -
  have "pool_struct (p\<lparr>cp_free_list := [] @ cp_free_list p\<rparr>)" using assms by (simp add: pool_inv_def)
  from reap_loop_inv [OF this, of now "uint (pool_idle_timeout_sec (cp_config p)) * 10 ^ 9"] obtain keep q where
    r: "reap_loop now (uint (pool_idle_timeout_sec (cp_config p)) * 10 ^ 9) (cp_free_list p) [] p = Some (keep, q)"
      "pool_struct (q\<lparr>cp_free_list := keep\<rparr>)" "set keep \<subseteq> set (cp_free_list p)"
      "q = p\<lparr>cp_all := cp_all q, cp_heap := cp_heap q\<rparr>"
      "length (cp_all q) \<ge> min (length (cp_all p)) (unat (pool_min (cp_config p)))"
      "\<forall>c x. c \<in> set (cp_free_list p) - set keep \<longrightarrow> cp_heap p c = Some x \<longrightarrow>
        now - px_last_used x > uint (pool_idle_timeout_sec (cp_config p)) * 10 ^ 9"
    unfolding append_Nil by blast
  obtain all heap where q: "q = p\<lparr>cp_all := all, cp_heap := heap\<rparr>" using r(4) by blast
  have "synced p" using assms by (simp add: pool_inv_def)
  then have "sync_metrics (q\<lparr>cp_free_list := keep\<rparr>) = p\<lparr>cp_all := all, cp_heap := heap, cp_free_list := keep,
      cp_free_count := length keep, cp_total_count := length all\<rparr>"
    by (simp add: q sync_metrics_def synced_def)
  then show ?thesis
    using r pool_inv_sync [OF r(2)] by (intro exI [of _ "sync_metrics (q\<lparr>cp_free_list := keep\<rparr>)"]) (simp add: reap_def q)
qed

end
