(* ===== verification/MySqlConnection.thy ===== *)
theory MySqlConnection
  imports Sockets Handshake RoutingEngine ConnectionPool
begin

text \<open>
  \<open>protocol/mysql/mysql_connection.cpp\<close>: the connection of one client. A coroutine is a function
  on the connection's state; its value is \<^const>\<open>None\<close> when it does not return, and otherwise a
  value or the exception it throws. What the connection reaches through its pointers (the
  routing engine, the pools, the backend sockets) is the field \<open>mc_ext\<close> with the operations in
  the record \<open>services\<close>; the client's socket is the field \<open>mc_socket\<close> with \<open>recv\<close> and \<open>send\<close>.
\<close>

section \<open>State and services\<close>

text \<open>\<open>Undefined\<close> stands for undefined behaviour: it is not an exception that C++ could catch.\<close>

datatype exn = Broken_pipe | Out_of_range | Runtime_error | Undefined

record ('c, 'e) MySqlConnection =
  mc_socket :: 'c
  mc_ext :: 'e
  mc_connection_id :: u32
  mc_seq :: u8
  mc_client_caps :: u32
  mc_username :: string
  mc_current_db :: string
  mc_in_transaction :: bool
  mc_autocommit :: bool

text \<open>
  \<open>plan\<close> is \<open>RoutingEngine::plan\<close>, \<open>has_pool\<close> whether \<open>PoolManager::get_pool\<close> finds a pool, \<open>acquire\<close>
  and \<open>release\<close> the pool's operations, \<open>served\<close> the increment of \<open>queries_served\<close> (\<^const>\<open>None\<close> when
  the object is gone), \<open>bsend\<close> and \<open>brecv\<close> the socket of a pooled connection.
\<close>

record 'e services =
  sv_plan :: "string \<Rightarrow> SessionView \<Rightarrow> 'e \<Rightarrow> (RoutePlan, RoutingError) result \<times> 'e"
  sv_has_pool :: "BackendID \<Rightarrow> 'e \<Rightarrow> bool"
  sv_acquire :: "BackendID \<Rightarrow> 'e \<Rightarrow> (caddr, PoolError) result \<times> 'e"
  sv_release :: "BackendID \<Rightarrow> caddr \<Rightarrow> bool \<Rightarrow> 'e \<Rightarrow> 'e"
  sv_served :: "BackendID \<Rightarrow> caddr \<Rightarrow> 'e \<Rightarrow> 'e option"
  sv_bsend :: "caddr \<Rightarrow> 'e \<Rightarrow> bytes \<Rightarrow> bool \<times> 'e"
  sv_brecv :: "caddr \<Rightarrow> 'e \<Rightarrow> nat \<Rightarrow> bytes option \<times> 'e"

definition mc_new :: "'c \<Rightarrow> 'e \<Rightarrow> u32 \<Rightarrow> ('c, 'e) MySqlConnection" where
  "mc_new sock ext cid = \<lparr>mc_socket = sock, mc_ext = ext, mc_connection_id = cid, mc_seq = 0, mc_client_caps = 0,
     mc_username = [], mc_current_db = [], mc_in_transaction = False, mc_autocommit = True\<rparr>"

section \<open>Sending\<close>

definition mc_send :: "('c \<Rightarrow> bytes \<Rightarrow> bool \<times> 'c) \<Rightarrow> bytes \<Rightarrow> ('c, 'e) MySqlConnection
    \<Rightarrow> ((unit, exn) result \<times> ('c, 'e) MySqlConnection) option" where
  "mc_send send payload c = do {
     (r, seq, sock) \<leftarrow> write_packet send (mc_socket c) payload (mc_seq c);
     Some (if is_err r then Err Broken_pipe else Ok (), c\<lparr>mc_seq := seq, mc_socket := sock\<rparr>) }"

definition send_ok :: "('c \<Rightarrow> bytes \<Rightarrow> bool \<times> 'c) \<Rightarrow> ('c, 'e) MySqlConnection
    \<Rightarrow> ((unit, exn) result \<times> ('c, 'e) MySqlConnection) option" where
  "send_ok send c = mc_send send (make_ok 0 0 0x0002 0) c"

definition send_err :: "('c \<Rightarrow> bytes \<Rightarrow> bool \<times> 'c) \<Rightarrow> u16 \<Rightarrow> string \<Rightarrow> string \<Rightarrow> ('c, 'e) MySqlConnection
    \<Rightarrow> ((unit, exn) result \<times> ('c, 'e) MySqlConnection) option" where
  "send_err send code sql_state msg c = mc_send send (make_err code sql_state msg) c"

section \<open>Recognising statements\<close>

fun normalise_loop :: "string \<Rightarrow> bool \<Rightarrow> string \<Rightarrow> string" where
  "normalise_loop out in_space [] = out"
| "normalise_loop out in_space (c # cs) =
     (if length out \<ge> 16 then out
      else if isspace c
      then normalise_loop (if \<not> in_space \<and> out \<noteq> [] then out @ '' '' else out) True cs
      else normalise_loop (out @ [toupper c]) False cs)"

definition normalise_prefix :: "string \<Rightarrow> string" where
  "normalise_prefix sql = normalise_loop [] True sql"

definition starts_with :: "string \<Rightarrow> string \<Rightarrow> bool" where
  "starts_with s p \<longleftrightarrow> take (length p) s = p"

text \<open>\<open>s.find(p) != npos\<close>.\<close>

definition contains :: "string \<Rightarrow> string \<Rightarrow> bool" where
  "contains s p = list_ex (\<lambda>i. take (length p) (drop i s) = p) [0..<length s + 1]"

definition is_eof_packet :: "bytes \<Rightarrow> bool" where
  "is_eof_packet payload \<longleftrightarrow> payload \<noteq> [] \<and> hd payload = 0xFE \<and> length payload < 9"

fun routing_error_to_mysql :: "RoutingError \<Rightarrow> u16" where
  "routing_error_to_mysql NO_BACKEND_AVAILABLE = err_CON_COUNT_ERROR"
| "routing_error_to_mysql POOL_QUEUE_FULL = err_CON_COUNT_ERROR"
| "routing_error_to_mysql FIREWALL_BLOCKED = err_NOT_ALLOWED_COMMAND"
| "routing_error_to_mysql _ = 1105"

text \<open>
  The database of a \<open>USE\<close> statement: the text from the first character at index 3 or later that
  is neither a blank nor a tab, without trailing whitespace; \<open>substr(npos)\<close> throws.
\<close>

definition use_database :: "string \<Rightarrow> string option" where
  "use_database sql =
     (case dropWhile (\<lambda>c. c = CHR '' '' \<or> c = CHR 0x09) (drop 3 sql) of
        [] \<Rightarrow> None
      | db \<Rightarrow> Some (rev (dropWhile isspace (rev db))))"

section \<open>Streaming a result\<close>

partial_function (option) forward_until_eof :: "'e services \<Rightarrow> ('c \<Rightarrow> bytes \<Rightarrow> bool \<times> 'c) \<Rightarrow> caddr
    \<Rightarrow> ('c, 'e) MySqlConnection \<Rightarrow> ((bool, exn) result \<times> ('c, 'e) MySqlConnection) option" where
  "forward_until_eof S send a c = do {
     (r, e) \<leftarrow> read_packet (sv_brecv S a) (mc_ext c);
     (case r of
        Err _ \<Rightarrow> Some (Ok False, c\<lparr>mc_ext := e\<rparr>)
      | Ok pkt \<Rightarrow> do {
          (x, c) \<leftarrow> mc_send send (pk_payload pkt) (c\<lparr>mc_ext := e, mc_seq := pk_sequence pkt\<rparr>);
          (case x of
             Err ex \<Rightarrow> Some (Err ex, c)
           | Ok _ \<Rightarrow> if is_eof_packet (pk_payload pkt) then Some (Ok True, c)
                     else forward_until_eof S send a c) }) }"

definition proxy_result :: "'e services \<Rightarrow> ('c \<Rightarrow> bytes \<Rightarrow> bool \<times> 'c) \<Rightarrow> caddr
    \<Rightarrow> ('c, 'e) MySqlConnection \<Rightarrow> ((bool, exn) result \<times> ('c, 'e) MySqlConnection) option" where
  "proxy_result S send a c = do {
     (r, e) \<leftarrow> read_packet (sv_brecv S a) (mc_ext c);
     (case r of
        Err _ \<Rightarrow> Some (Ok False, c\<lparr>mc_ext := e\<rparr>)
      | Ok pkt \<Rightarrow> do {
          (x, c) \<leftarrow> mc_send send (pk_payload pkt) (c\<lparr>mc_ext := e, mc_seq := pk_sequence pkt\<rparr>);
          (case x of
             Err ex \<Rightarrow> Some (Err ex, c)
           | Ok _ \<Rightarrow>
               (let b0 = (if pk_payload pkt = [] then 0 else hd (pk_payload pkt)) in
                if b0 = OK_PACKET \<or> b0 = ERR_PACKET \<or> b0 = 0xFB then Some (Ok True, c)
                else do {
                  (y, c) \<leftarrow> forward_until_eof S send a c;
                  (case y of
                     Ok True \<Rightarrow> forward_until_eof S send a c
                   | _ \<Rightarrow> Some (y, c)) })) }) }"

section \<open>COM\_QUERY\<close>

text \<open>The body of the try block: a \<open>system_error\<close> becomes \<open>ok = false\<close>.\<close>

definition forward_query :: "'e services \<Rightarrow> ('c \<Rightarrow> bytes \<Rightarrow> bool \<times> 'c) \<Rightarrow> caddr \<Rightarrow> bytes
    \<Rightarrow> ('c, 'e) MySqlConnection \<Rightarrow> ((bool, exn) result \<times> ('c, 'e) MySqlConnection) option" where
  "forward_query S send a query_packet c = do {
     (w, bseq, e) \<leftarrow> write_packet (sv_bsend S a) (mc_ext c) query_packet 0;
     let c = c\<lparr>mc_ext := e\<rparr>;
     if is_err w then Some (Ok False, c)
     else do {
       (x, c) \<leftarrow> proxy_result S send a c;
       Some (if x = Err Broken_pipe then Ok False else x, c) } }"

definition route_and_forward :: "'e services \<Rightarrow> ('c \<Rightarrow> bytes \<Rightarrow> bool \<times> 'c) \<Rightarrow> bytes \<Rightarrow> string
    \<Rightarrow> ('c, 'e) MySqlConnection \<Rightarrow> ((unit, exn) result \<times> ('c, 'e) MySqlConnection) option" where
  "route_and_forward S send query_packet sql c =
     (let session = \<lparr>sv_current_schema = mc_current_db c, sv_in_transaction = mc_in_transaction c,
                     sv_autocommit = mc_autocommit c, sv_pinned_backend = None\<rparr>
      in case sv_plan S sql session (mc_ext c) of
           (Err e, x) \<Rightarrow>
             send_err send (routing_error_to_mysql e) ''HY000'' (''DBMesh routing: '' @ routing_error_str e)
               (c\<lparr>mc_ext := x\<rparr>)
         | (Ok pl, x) \<Rightarrow>
             (let b = rp_backend_id pl in
              if \<not> sv_has_pool S b x
              then send_err send 1105 ''HY000'' (''DBMesh: no pool for backend '' @ [CHR 0x27] @ b @ [CHR 0x27])
                     (c\<lparr>mc_ext := x\<rparr>)
              else case sv_acquire S b x of
                     (Err _, x) \<Rightarrow>
                       send_err send err_CON_COUNT_ERROR ''08004''
                         (''DBMesh: backend pool unavailable for '' @ [CHR 0x27] @ b @ [CHR 0x27]) (c\<lparr>mc_ext := x\<rparr>)
                   | (Ok a, x) \<Rightarrow> do {
                       (ok, c) \<leftarrow> forward_query S send a query_packet (c\<lparr>mc_ext := x\<rparr>);
                       (case ok of
                          Err ex \<Rightarrow> Some (Err ex, c)
                        | Ok healthy \<Rightarrow>
                            (let x = sv_release S b a healthy (mc_ext c) in
                             case sv_served S b a x of
                               None \<Rightarrow> Some (Err Undefined, c\<lparr>mc_ext := x\<rparr>)
                             | Some x \<Rightarrow>
                                 if \<not> healthy
                                 then send_err send err_CON_COUNT_ERROR ''08S01''
                                   (''DBMesh: backend '' @ [CHR 0x27] @ b @ [CHR 0x27] @ '' disconnected during query'')
                                   (c\<lparr>mc_ext := x\<rparr>)
                                 else Some (Ok (), c\<lparr>mc_ext := x\<rparr>))) }))"

definition handle_com_query :: "'e services \<Rightarrow> ('c \<Rightarrow> bytes \<Rightarrow> bool \<times> 'c) \<Rightarrow> bytes
    \<Rightarrow> ('c, 'e) MySqlConnection \<Rightarrow> ((unit, exn) result \<times> ('c, 'e) MySqlConnection) option" where
  "handle_com_query S send payload c =
     (let sql = map char_at (tl payload);
          prefix = normalise_prefix sql
      in if starts_with prefix ''SET ''
         then send_ok send (if contains prefix ''AUTOCOMMIT''
           then c\<lparr>mc_autocommit := \<not> contains prefix ''AUTOCOMMIT=0'' \<and> \<not> contains prefix ''AUTOCOMMIT = 0''\<rparr> else c)
         else if starts_with prefix ''USE ''
         then (case use_database sql of
                 None \<Rightarrow> Some (Err Out_of_range, c)
               | Some db \<Rightarrow> send_ok send (c\<lparr>mc_current_db := db\<rparr>))
         else if starts_with prefix ''BEGIN'' \<or> starts_with prefix ''START TRANS''
         then send_ok send (c\<lparr>mc_in_transaction := True\<rparr>)
         else if starts_with prefix ''COMMIT'' \<or> starts_with prefix ''ROLLBACK''
         then send_ok send (c\<lparr>mc_in_transaction := False\<rparr>)
         else route_and_forward S send payload sql c)"

section \<open>Commands\<close>

definition handle_com_init_db :: "('c \<Rightarrow> bytes \<Rightarrow> bool \<times> 'c) \<Rightarrow> bytes
    \<Rightarrow> ('c, 'e) MySqlConnection \<Rightarrow> ((unit, exn) result \<times> ('c, 'e) MySqlConnection) option" where
  "handle_com_init_db send payload c =
     send_ok send (if length payload > 1 then c\<lparr>mc_current_db := map char_at (tl payload)\<rparr> else c)"

definition handle_com_field_list :: "('c \<Rightarrow> bytes \<Rightarrow> bool \<times> 'c)
    \<Rightarrow> ('c, 'e) MySqlConnection \<Rightarrow> ((unit, exn) result \<times> ('c, 'e) MySqlConnection) option" where
  "handle_com_field_list send c = mc_send send (make_eof 0 status_AUTOCOMMIT) c"

text \<open>The result says whether the connection is to be closed.\<close>

definition handle_command :: "'e services \<Rightarrow> ('c \<Rightarrow> bytes \<Rightarrow> bool \<times> 'c) \<Rightarrow> MySqlPacket
    \<Rightarrow> ('c, 'e) MySqlConnection \<Rightarrow> ((bool, exn) result \<times> ('c, 'e) MySqlConnection) option" where
  "handle_command S send pkt c =
     (let c = c\<lparr>mc_seq := pk_sequence pkt + 1\<rparr>;
          command = hd (pk_payload pkt);
          continue = (\<lambda>m. do { (r, c) \<leftarrow> m; Some (case r of Ok _ \<Rightarrow> Ok False | Err ex \<Rightarrow> Err ex, c) })
      in if command = cmd_QUIT then Some (Ok True, c)
         else if command = cmd_PING then continue (send_ok send c)
         else if command = cmd_INIT_DB then continue (handle_com_init_db send (pk_payload pkt) c)
         else if command = cmd_QUERY then continue (handle_com_query S send (pk_payload pkt) c)
         else if command = cmd_FIELD_LIST then continue (handle_com_field_list send c)
         else if command = cmd_STATISTICS
         then continue (mc_send send (map byte_of (''DBMesh connection_id='' @ to_digits (unat (mc_connection_id c)))) c)
         else if command = cmd_SET_OPTION then continue (send_ok send c)
         else if command \<in> {cmd_STMT_PREPARE, cmd_STMT_EXECUTE, cmd_STMT_CLOSE, cmd_STMT_RESET}
         then continue (send_err send err_UNKNOWN_COM_ERROR ''08S01''
                ''Binary protocol not yet supported (Milestone 1.19)'' c)
         else continue (send_err send err_UNKNOWN_COM_ERROR ''08S01''
                (''Unknown command '' @ to_digits (unat command)) c))"

partial_function (option) command_loop :: "'e services \<Rightarrow> ('c \<Rightarrow> bytes \<Rightarrow> bool \<times> 'c)
    \<Rightarrow> ('c \<Rightarrow> nat \<Rightarrow> bytes option \<times> 'c)
    \<Rightarrow> ('c, 'e) MySqlConnection \<Rightarrow> ((unit, exn) result \<times> ('c, 'e) MySqlConnection) option" where
  "command_loop S send recv c = do {
     (r, sock) \<leftarrow> read_packet recv (mc_socket c);
     (case r of
        Err _ \<Rightarrow> Some (Ok (), c\<lparr>mc_seq := 0, mc_socket := sock\<rparr>)
      | Ok pkt \<Rightarrow>
          if pk_payload pkt = [] then Some (Ok (), c\<lparr>mc_seq := 0, mc_socket := sock\<rparr>)
          else do {
            (q, c) \<leftarrow> handle_command S send pkt (c\<lparr>mc_seq := 0, mc_socket := sock\<rparr>);
            (case q of
               Err ex \<Rightarrow> Some (Err ex, c)
             | Ok quit \<Rightarrow> if quit then Some (Ok (), c) else command_loop S send recv c) }) }"

text \<open>
  The whole session: greeting, response, authentication (the source accepts every user) and the
  command loop. \<open>rand_bytes\<close> is \<open>RAND_bytes\<close> and \<open>node\<close> the node's part of the configuration.
\<close>

definition do_run :: "'e services \<Rightarrow> ('c \<Rightarrow> bytes \<Rightarrow> bool \<times> 'c) \<Rightarrow> ('c \<Rightarrow> nat \<Rightarrow> bytes option \<times> 'c)
    \<Rightarrow> bytes option \<Rightarrow> NodeConfig
    \<Rightarrow> ('c, 'e) MySqlConnection \<Rightarrow> ((unit, exn) result \<times> ('c, 'e) MySqlConnection) option" where
  "do_run S send recv rand_bytes node c =
     (let hs = default_HandshakeV10\<lparr>hs_connection_id := mc_connection_id c,
            hs_server_version := (if node_name node = [] then ''8.0.30-dbmesh'' else ''8.0.30-dbmesh-'' @ node_name node)\<rparr>
      in case generate_auth_data rand_bytes hs of
           None \<Rightarrow> Some (Err Runtime_error, c)
         | Some hs \<Rightarrow> do {
             (r, c) \<leftarrow> mc_send send (hs_encode hs) (c\<lparr>mc_seq := 0\<rparr>);
             (case r of
                Err ex \<Rightarrow> Some (Err ex, c)
              | Ok _ \<Rightarrow> do {
                  (p, sock) \<leftarrow> read_packet recv (mc_socket c);
                  let c = c\<lparr>mc_seq := 1, mc_socket := sock\<rparr>;
                  (case p of
                     Err _ \<Rightarrow> Some (Ok (), c)
                   | Ok pkt \<Rightarrow>
                       (case hr_decode (pk_payload pkt) of
                          None \<Rightarrow> Some (Err Undefined, c)
                        | Some (Err _) \<Rightarrow> send_err send err_ACCESS_DENIED ''28000'' ''Protocol error'' c
                        | Some (Ok resp) \<Rightarrow> do {
                            let c = c\<lparr>mc_client_caps := hr_capability_flags resp AND caps_SERVER_FLAGS,
                              mc_username := hr_username resp, mc_current_db := hr_database resp\<rparr>;
                            (s, c) \<leftarrow> send_ok send (c\<lparr>mc_seq := 2\<rparr>);
                            (case s of
                               Err ex \<Rightarrow> Some (Err ex, c)
                             | Ok _ \<Rightarrow> command_loop S send recv c) })) }) })"

text \<open>
  \<open>run\<close> catches every exception; what it does with them is a log message. Undefined behaviour
  is not caught.
\<close>

definition mc_run :: "'e services \<Rightarrow> ('c \<Rightarrow> bytes \<Rightarrow> bool \<times> 'c) \<Rightarrow> ('c \<Rightarrow> nat \<Rightarrow> bytes option \<times> 'c)
    \<Rightarrow> bytes option \<Rightarrow> NodeConfig
    \<Rightarrow> ('c, 'e) MySqlConnection \<Rightarrow> ((unit, exn) result \<times> ('c, 'e) MySqlConnection) option" where
  "mc_run S send recv rand_bytes node c = do {
     (r, c) \<leftarrow> do_run S send recv rand_bytes node c;
     Some (if r = Err Undefined then r else Ok (), c) }"

section \<open>Relaying packets\<close>

definition frames :: "(u8 \<times> bytes) list \<Rightarrow> bytes" where
  "frames pkts = concat (map (\<lambda>(q, p). encode p q) pkts)"

definition small :: "(u8 \<times> bytes) list \<Rightarrow> bool" where
  "small pkts \<longleftrightarrow> list_all (\<lambda>(q, p). length p < MAX_PACKET_SIZE) pkts"

lemma frames_simps [simp]:
  "frames [] = []" "frames (x # xs) = encode (snd x) (fst x) @ frames xs" "frames (xs @ ys) = frames xs @ frames ys"
  by (auto simp: frames_def split: prod.splits)

lemma small_simps [simp]:
  "small []" "small (x # xs) \<longleftrightarrow> length (snd x) < MAX_PACKET_SIZE \<and> small xs" "small (xs @ ys) \<longleftrightarrow> small xs \<and> small ys"
  by (auto simp: small_def split: prod.splits)

lemma mc_send_small:
  assumes "reliable_send send sent" "length p < MAX_PACKET_SIZE"
  obtains sock where "sent sock = sent (mc_socket c) @ encode p (mc_seq c)"
    "mc_send send p c = Some (Ok (), c\<lparr>mc_seq := mc_seq c + 1, mc_socket := sock\<rparr>)"
proof -
  obtain sock where "sent sock = sent (mc_socket c) @ encode p (mc_seq c)"
    "write_packet send (mc_socket c) p (mc_seq c) = Some (Ok (), mc_seq c + 1, sock)"
    using write_small [OF assms, of "mc_socket c" "mc_seq c"] by blast
  with that show thesis by (simp add: mc_send_def)
qed

text \<open>What a relay keeps of the connection: everything but the two sockets and the sequence number.\<close>

definition relayed :: "('c, 'e) MySqlConnection \<Rightarrow> ('c, 'e) MySqlConnection \<Rightarrow> bool" where
  "relayed c c' \<longleftrightarrow> mc_connection_id c' = mc_connection_id c \<and> mc_client_caps c' = mc_client_caps c \<and>
     mc_username c' = mc_username c \<and> mc_current_db c' = mc_current_db c \<and>
     mc_in_transaction c' = mc_in_transaction c \<and> mc_autocommit c' = mc_autocommit c"

lemma relayed_trans: "relayed c c' \<Longrightarrow> relayed c' c'' \<Longrightarrow> relayed c c''"
  by (simp add: relayed_def)

lemma relay_one:
  assumes r: "reliable_recv (sv_brecv S a) inflight" and w: "reliable_send send sent"
    and s: "inflight (mc_ext c) = encode p q @ rest" and n: "length p < MAX_PACKET_SIZE"
  obtains e c' where "read_packet (sv_brecv S a) (mc_ext c) =
      Some (Ok \<lparr>pk_length = word_of_nat (length p), pk_sequence = q, pk_payload = p\<rparr>, e)"
    "mc_send send p (c\<lparr>mc_ext := e, mc_seq := q\<rparr>) = Some (Ok (), c')"
    "inflight (mc_ext c') = rest" "sent (mc_socket c') = sent (mc_socket c) @ encode p q" "relayed c c'"
proof -
  from read_small [OF r s n] obtain e where e: "inflight e = rest" "read_packet (sv_brecv S a) (mc_ext c) =
      Some (Ok \<lparr>pk_length = word_of_nat (length p), pk_sequence = q, pk_payload = p\<rparr>, e)" .
  from mc_send_small [OF w n, of "c\<lparr>mc_ext := e, mc_seq := q\<rparr>"] obtain sock where
    "sent sock = sent (mc_socket c) @ encode p q"
    "mc_send send p (c\<lparr>mc_ext := e, mc_seq := q\<rparr>) = Some (Ok (), c\<lparr>mc_ext := e, mc_seq := q + 1, mc_socket := sock\<rparr>)"
    by auto
  with e that show thesis by (simp add: relayed_def)
qed

lemma forward_frames:
  assumes r: "reliable_recv (sv_brecv S a) inflight" and w: "reliable_send send sent"
    and "inflight (mc_ext c) = frames (xs @ [y]) @ rest" "small (xs @ [y])"
    and "list_all (\<lambda>x. \<not> is_eof_packet (snd x)) xs" "is_eof_packet (snd y)"
  shows "\<exists>c'. forward_until_eof S send a c = Some (Ok True, c') \<and> inflight (mc_ext c') = rest \<and>
    sent (mc_socket c') = sent (mc_socket c) @ frames (xs @ [y]) \<and> relayed c c'"
  using assms(3-5)
proof (induction xs arbitrary: c)
  case Nil
  then have "inflight (mc_ext c) = encode (snd y) (fst y) @ rest" "length (snd y) < MAX_PACKET_SIZE" by simp_all
  from relay_one [OF r w this] show ?case
    using assms(6) by (subst forward_until_eof.simps) fastforce
next
  case (Cons x xs)
  then have "inflight (mc_ext c) = encode (snd x) (fst x) @ (frames (xs @ [y]) @ rest)" "length (snd x) < MAX_PACKET_SIZE"
    by simp_all
  from relay_one [OF r w this] obtain e c1 where 1: "read_packet (sv_brecv S a) (mc_ext c) =
      Some (Ok \<lparr>pk_length = word_of_nat (length (snd x)), pk_sequence = fst x, pk_payload = snd x\<rparr>, e)"
    "mc_send send (snd x) (c\<lparr>mc_ext := e, mc_seq := fst x\<rparr>) = Some (Ok (), c1)"
    "inflight (mc_ext c1) = frames (xs @ [y]) @ rest"
    "sent (mc_socket c1) = sent (mc_socket c) @ encode (snd x) (fst x)" "relayed c c1" .
  have "forward_until_eof S send a c = forward_until_eof S send a c1"
    using 1(1,2) Cons.prems(3) by (subst forward_until_eof.simps) simp
  with Cons.IH [OF 1(3)] Cons.prems 1(4,5) show ?case by (auto intro: relayed_trans)
qed

text \<open>The shape of a response: one packet, or a header, columns, EOF, rows, EOF.\<close>

definition single_response :: "bytes \<Rightarrow> bool" where
  "single_response p \<longleftrightarrow> p = [] \<or> hd p = OK_PACKET \<or> hd p = ERR_PACKET \<or> hd p = 0xFB"

definition result_set :: "(u8 \<times> bytes) \<Rightarrow> (u8 \<times> bytes) list \<Rightarrow> (u8 \<times> bytes) \<Rightarrow> (u8 \<times> bytes) list \<Rightarrow> (u8 \<times> bytes) \<Rightarrow> bool" where
  "result_set h cols e1 rows e2 \<longleftrightarrow>
     \<not> single_response (snd h) \<and> is_eof_packet (snd e1) \<and> is_eof_packet (snd e2) \<and>
     list_all (\<lambda>x. \<not> is_eof_packet (snd x)) cols \<and> list_all (\<lambda>x. \<not> is_eof_packet (snd x)) rows"

definition response :: "(u8 \<times> bytes) list \<Rightarrow> bool" where
  "response pkts \<longleftrightarrow> small pkts \<and>
     ((\<exists>x. pkts = [x] \<and> single_response (snd x)) \<or>
      (\<exists>h cols e1 rows e2. pkts = [h] @ (cols @ [e1]) @ (rows @ [e2]) \<and> result_set h cols e1 rows e2))"

lemma proxy_response:
  assumes r: "reliable_recv (sv_brecv S a) inflight" and w: "reliable_send send sent"
    and resp: "response pkts" and s: "inflight (mc_ext c) = frames pkts @ rest"
  shows "\<exists>c'. proxy_result S send a c = Some (Ok True, c') \<and> inflight (mc_ext c') = rest \<and>
    sent (mc_socket c') = sent (mc_socket c) @ frames pkts \<and> relayed c c'"
proof -
  consider (single) x where "pkts = [x]" "single_response (snd x)"
    | (set) h cols e1 rows e2 where "pkts = [h] @ (cols @ [e1]) @ (rows @ [e2])" "result_set h cols e1 rows e2"
    using resp unfolding response_def by blast
  then show ?thesis
  proof cases
    case single
    then have "inflight (mc_ext c) = encode (snd x) (fst x) @ rest" "length (snd x) < MAX_PACKET_SIZE"
      using s resp by (simp_all add: response_def)
    from relay_one [OF r w this] single show ?thesis
      by (fastforce simp: proxy_result_def single_response_def Let_def OK_PACKET_def)
  next
    case set
    then have small: "length (snd h) < MAX_PACKET_SIZE" "small (cols @ [e1])" "small (rows @ [e2])"
      using resp by (auto simp: response_def)
    have "inflight (mc_ext c) = encode (snd h) (fst h) @ (frames (cols @ [e1]) @ (frames (rows @ [e2]) @ rest))"
      using s set(1) by simp
    from relay_one [OF r w this small(1)] obtain e c1 where 1: "read_packet (sv_brecv S a) (mc_ext c) =
        Some (Ok \<lparr>pk_length = word_of_nat (length (snd h)), pk_sequence = fst h, pk_payload = snd h\<rparr>, e)"
      "mc_send send (snd h) (c\<lparr>mc_ext := e, mc_seq := fst h\<rparr>) = Some (Ok (), c1)"
      "inflight (mc_ext c1) = frames (cols @ [e1]) @ (frames (rows @ [e2]) @ rest)"
      "sent (mc_socket c1) = sent (mc_socket c) @ encode (snd h) (fst h)" "relayed c c1" .
    have rs: "\<not> single_response (snd h)" "is_eof_packet (snd e1)" "is_eof_packet (snd e2)"
      "list_all (\<lambda>x. \<not> is_eof_packet (snd x)) cols" "list_all (\<lambda>x. \<not> is_eof_packet (snd x)) rows"
      using set(2) by (simp_all add: result_set_def)
    from forward_frames [OF r w 1(3) small(2) rs(4,2)] obtain c2 where 2:
      "forward_until_eof S send a c1 = Some (Ok True, c2)" "inflight (mc_ext c2) = frames (rows @ [e2]) @ rest"
      "sent (mc_socket c2) = sent (mc_socket c1) @ frames (cols @ [e1])" "relayed c1 c2" by blast
    from forward_frames [OF r w 2(2) small(3) rs(5,3)] obtain c3 where 3:
      "forward_until_eof S send a c2 = Some (Ok True, c3)" "inflight (mc_ext c3) = rest"
      "sent (mc_socket c3) = sent (mc_socket c2) @ frames (rows @ [e2])" "relayed c2 c3" by blast
    have "proxy_result S send a c = Some (Ok True, c3)"
      using 1(1,2) 2(1) 3(1) rs(1) by (simp add: proxy_result_def single_response_def Let_def)
    moreover have "relayed c c3" using 1(5) 2(4) 3(4) relayed_trans by metis
    ultimately show ?thesis using 1(4) 2(3) 3(2,3) set(1) by simp
  qed
qed

section \<open>Every acquired connection is released\<close>

text \<open>A record of the calls to the pools, and how the services extend it.\<close>

datatype pool_event = Acq BackendID caddr | Rel BackendID caddr bool

definition traced :: "'e services \<Rightarrow> ('e \<Rightarrow> pool_event list) \<Rightarrow> bool" where
  "traced S tr \<longleftrightarrow>
     (\<forall>sql v e. tr (snd (sv_plan S sql v e)) = tr e) \<and>
     (\<forall>b e. tr (snd (sv_acquire S b e)) =
        tr e @ (case fst (sv_acquire S b e) of Ok a \<Rightarrow> [Acq b a] | Err _ \<Rightarrow> [])) \<and>
     (\<forall>b a h e. tr (sv_release S b a h e) = tr e @ [Rel b a h]) \<and>
     (\<forall>b a e e'. sv_served S b a e = Some e' \<longrightarrow> tr e' = tr e) \<and>
     (\<forall>a e bs. tr (snd (sv_bsend S a e bs)) = tr e) \<and>
     (\<forall>a e n. tr (snd (sv_brecv S a e n)) = tr e)"

lemma mc_send_ext: "mc_send send p c = Some (r, c') \<Longrightarrow> mc_ext c' = mc_ext c \<and> (\<forall>ex. r = Err ex \<longrightarrow> ex = Broken_pipe)"
  by (auto simp: mc_send_def split: bind_splits if_splits)

text \<open>A relay leaves alone what the sockets' operations leave alone.\<close>

lemma mc_send_keeps:
  assumes "\<And>s bs. f (snd (send s bs)) = f s" "mc_send send p c = Some (r, c')"
  shows "f (mc_socket c') = f (mc_socket c)"
  using assms(2) write_loop_keeps [of f send, OF assms(1)]
  by (auto simp: mc_send_def write_packet_def split: bind_splits)

lemma relay_keeps:
  assumes k: "\<And>s e n. f s (snd (sv_brecv S a e n)) = f s e" "\<And>s e bs. f (snd (send s bs)) e = f s e"
    and "read_packet (sv_brecv S a) (mc_ext c) = Some (o1, e)"
    and "mc_send send p (c\<lparr>mc_ext := e, mc_seq := q\<rparr>) = Some (r, c')"
  shows "f (mc_socket c') (mc_ext c') = f (mc_socket c) (mc_ext c)"
proof -
  have "f (snd (send s bs)) = f s" for s bs using k(2) by blast
  from mc_send_keeps [of f send, OF this assms(4)] mc_send_ext [OF assms(4)]
    read_packet_keeps [of "f (mc_socket c)", OF k(1) assms(3)] show ?thesis by simp
qed

lemma forward_keeps:
  assumes k: "\<And>s e n. f s (snd (sv_brecv S a e n)) = f s e" "\<And>s e bs. f (snd (send s bs)) e = f s e"
    and r: "forward_until_eof S send a c = Some (r, c')"
  shows "f (mc_socket c') (mc_ext c') = f (mc_socket c) (mc_ext c) \<and> (\<forall>ex. r = Err ex \<longrightarrow> ex = Broken_pipe)"
proof -
  let ?P = "\<lambda>S send a c y. (\<forall>s e n. f s (snd (sv_brecv S a e n)) = f s e) \<and> (\<forall>s e bs. f (snd (send s bs)) e = f s e) \<longrightarrow>
    f (mc_socket (snd y)) (mc_ext (snd y)) = f (mc_socket c) (mc_ext c) \<and> (\<forall>ex. fst y = Err ex \<longrightarrow> ex = Broken_pipe)"
  have "?P S send a c (r, c')"
  proof (rule forward_until_eof.raw_induct [where P = ?P, OF _ r], goal_cases)
    case 1: (1 fw S send a c y)
    show ?case
    proof (intro impI)
      assume k: "(\<forall>s e n. f s (snd (sv_brecv S a e n)) = f s e) \<and> (\<forall>s e bs. f (snd (send s bs)) e = f s e)"
      obtain o1 e where 2: "read_packet (sv_brecv S a) (mc_ext c) = Some (o1, e)"
        using 1(2) by (cases "read_packet (sv_brecv S a) (mc_ext c)") auto
      have e: "f (mc_socket c) e = f (mc_socket c) (mc_ext c)" using read_packet_keeps [of "f (mc_socket c)", OF _ 2] k by simp
      show "f (mc_socket (snd y)) (mc_ext (snd y)) = f (mc_socket c) (mc_ext c) \<and> (\<forall>ex. fst y = Err ex \<longrightarrow> ex = Broken_pipe)"
      proof (cases o1)
        case (Err x)
        with 1(2) 2 e show ?thesis by auto
      next
        case (Ok pkt)
        with 1(2) 2 obtain x c1 where x: "mc_send send (pk_payload pkt) (c\<lparr>mc_ext := e, mc_seq := pk_sequence pkt\<rparr>) = Some (x, c1)"
          by (auto split: bind_splits)
        have "f (mc_socket c1) (mc_ext c1) = f (mc_socket c) (mc_ext c)" using relay_keeps [OF _ _ 2 x, of f] k by simp
        with 1(2) 2 Ok x mc_send_ext [OF x] show ?thesis
          by (auto dest!: 1(1) [THEN mp, OF _ k] split: result.splits if_splits)
      qed
    qed
  qed
  then show ?thesis using k by simp
qed

lemma proxy_keeps:
  assumes k: "\<And>s e n. f s (snd (sv_brecv S a e n)) = f s e" "\<And>s e bs. f (snd (send s bs)) e = f s e"
    and r: "proxy_result S send a c = Some (r, c')"
  shows "f (mc_socket c') (mc_ext c') = f (mc_socket c) (mc_ext c) \<and> (\<forall>ex. r = Err ex \<longrightarrow> ex = Broken_pipe)"
proof -
  obtain o1 e where 2: "read_packet (sv_brecv S a) (mc_ext c) = Some (o1, e)"
    using r by (cases "read_packet (sv_brecv S a) (mc_ext c)") (auto simp: proxy_result_def)
  have e: "f (mc_socket c) e = f (mc_socket c) (mc_ext c)" using read_packet_keeps [of "f (mc_socket c)", OF _ 2] k by simp
  show ?thesis
  proof (cases o1)
    case (Err x)
    with r 2 e show ?thesis by (auto simp: proxy_result_def)
  next
    case (Ok pkt)
    with r 2 obtain x c1 where x: "mc_send send (pk_payload pkt) (c\<lparr>mc_ext := e, mc_seq := pk_sequence pkt\<rparr>) = Some (x, c1)"
      by (auto simp: proxy_result_def split: bind_splits)
    note c1 = relay_keeps [of f, OF k 2 x] mc_send_ext [OF x]
    show ?thesis
      using r 2 Ok x c1 unfolding proxy_result_def
      by (auto simp: Let_def dest!: forward_keeps [of f S a send, OF k] split: result.splits bind_splits if_splits bool.splits)
  qed
qed

lemma forward_query_keeps:
  assumes k: "\<And>s e bs. f s (snd (sv_bsend S a e bs)) = f s e" "\<And>s e n. f s (snd (sv_brecv S a e n)) = f s e"
    "\<And>s e bs. f (snd (send s bs)) e = f s e"
    and fw: "forward_query S send a q c = Some (r, c')"
  shows "f (mc_socket c') (mc_ext c') = f (mc_socket c) (mc_ext c) \<and> is_ok r"
proof -
  obtain w bseq e where 1: "write_packet (sv_bsend S a) (mc_ext c) q 0 = Some (w, bseq, e)"
    using fw by (cases "write_packet (sv_bsend S a) (mc_ext c) q 0") (auto simp: forward_query_def)
  have e: "f (mc_socket c) e = f (mc_socket c) (mc_ext c)"
    using write_loop_keeps [of "f (mc_socket c)" "sv_bsend S a", OF k(1)] 1 by (simp add: write_packet_def)
  show ?thesis
  proof (cases "is_err w")
    case True
    with fw 1 e show ?thesis by (auto simp: forward_query_def)
  next
    case False
    with fw 1 obtain x where x: "proxy_result S send a (c\<lparr>mc_ext := e\<rparr>) = Some (x, c')"
      "r = (if x = Err Broken_pipe then Ok False else x)"
      by (auto simp: forward_query_def split: bind_splits)
    with proxy_keeps [of f S a send, OF k(2,3) x(1)] e show ?thesis by (cases x) auto
  qed
qed

text \<open>The view of the session that the engine gets.\<close>

definition mc_view :: "('c, 'e) MySqlConnection \<Rightarrow> SessionView" where
  "mc_view c = \<lparr>sv_current_schema = mc_current_db c, sv_in_transaction = mc_in_transaction c,
     sv_autocommit = mc_autocommit c, sv_pinned_backend = None\<rparr>"

lemmas route_view = route_and_forward_def [folded mc_view_def]

lemma send_err_ext: "send_err send code st msg c = Some (r, c') \<Longrightarrow> mc_ext c' = mc_ext c \<and> r \<noteq> Err Undefined"
  by (auto simp: send_err_def dest!: mc_send_ext)

lemma route_cases:
  assumes "route_and_forward S send q sql c = Some (r, c')" "sv_plan S sql (mc_view c) (mc_ext c) = (pr, x1)"
  obtains (Not_routed) "mc_ext c' = x1" "r \<noteq> Err Undefined" "\<And>pl. pr = Ok pl \<Longrightarrow> \<not> sv_has_pool S (rp_backend_id pl) x1"
  | (Not_acquired) pl e x2 where "pr = Ok pl" "sv_has_pool S (rp_backend_id pl) x1"
      "sv_acquire S (rp_backend_id pl) x1 = (Err e, x2)" "mc_ext c' = x2" "r \<noteq> Err Undefined"
  | (Forwarded) pl a x2 ok c1 where "pr = Ok pl" "sv_has_pool S (rp_backend_id pl) x1"
      "sv_acquire S (rp_backend_id pl) x1 = (Ok a, x2)"
      "forward_query S send a q (c\<lparr>mc_ext := x2\<rparr>) = Some (ok, c1)"
      "case ok of
         Err ex \<Rightarrow> r = Err ex \<and> c' = c1
       | Ok h \<Rightarrow> (case sv_served S (rp_backend_id pl) a (sv_release S (rp_backend_id pl) a h (mc_ext c1)) of
                   None \<Rightarrow> r = Err Undefined \<and> mc_ext c' = sv_release S (rp_backend_id pl) a h (mc_ext c1)
                 | Some x \<Rightarrow> r \<noteq> Err Undefined \<and> mc_ext c' = x)"
proof (cases pr)
  case (Err e)
  with assms have "mc_ext c' = x1 \<and> r \<noteq> Err Undefined" by (auto simp: route_view dest!: send_err_ext)
  with Err Not_routed show thesis by blast
next
  case (Ok pl)
  let ?b = "rp_backend_id pl"
  obtain ar x2 where 2: "sv_acquire S ?b x1 = (ar, x2)" by fastforce
  consider (no) "\<not> sv_has_pool S ?b x1" | (err) e where "sv_has_pool S ?b x1" "ar = Err e"
    | (ok) a where "sv_has_pool S ?b x1" "ar = Ok a" by (cases ar) auto
  then show thesis
  proof cases
    case no
    with assms Ok have "mc_ext c' = x1 \<and> r \<noteq> Err Undefined" by (auto simp: route_view Let_def dest!: send_err_ext)
    with Ok no Not_routed show thesis by blast
  next
    case err
    with assms Ok 2 have "mc_ext c' = x2 \<and> r \<noteq> Err Undefined" by (auto simp: route_view Let_def dest!: send_err_ext)
    with Ok 2 err Not_acquired show thesis by blast
  next
    case ok
    obtain fr c1 where 3: "forward_query S send a q (c\<lparr>mc_ext := x2\<rparr>) = Some (fr, c1)"
      using assms Ok 2 ok by (auto simp: route_view Let_def split: bind_splits)
    show thesis
    proof (rule Forwarded [OF Ok ok(1) _ 3])
      show "case fr of
         Err ex \<Rightarrow> r = Err ex \<and> c' = c1
       | Ok h \<Rightarrow> (case sv_served S ?b a (sv_release S ?b a h (mc_ext c1)) of
                   None \<Rightarrow> r = Err Undefined \<and> mc_ext c' = sv_release S ?b a h (mc_ext c1)
                 | Some x \<Rightarrow> r \<noteq> Err Undefined \<and> mc_ext c' = x)"
        using assms Ok 2 ok 3
        by (auto simp: route_view Let_def dest!: send_err_ext split: option.splits if_splits result.splits)
    qed (use 2 ok in simp)
  qed
qed

lemma route_trace:
  assumes "traced S tr" "route_and_forward S send q sql c = Some (r, c')"
  shows "tr (mc_ext c') = tr (mc_ext c) \<or>
    (\<exists>pl a h. fst (sv_plan S sql (mc_view c) (mc_ext c)) = Ok pl \<and>
       tr (mc_ext c') = tr (mc_ext c) @ [Acq (rp_backend_id pl) a, Rel (rp_backend_id pl) a h])"
proof -
  have k: "\<And>sql v e. tr (snd (sv_plan S sql v e)) = tr e"
    "\<And>b e. tr (snd (sv_acquire S b e)) = tr e @ (case fst (sv_acquire S b e) of Ok a \<Rightarrow> [Acq b a] | Err _ \<Rightarrow> [])"
    "\<And>b a h e. tr (sv_release S b a h e) = tr e @ [Rel b a h]"
    "\<And>b a e e'. sv_served S b a e = Some e' \<Longrightarrow> tr e' = tr e"
    "\<And>a e bs. tr (snd (sv_bsend S a e bs)) = tr e" "\<And>a e n. tr (snd (sv_brecv S a e n)) = tr e"
    using assms(1) unfolding traced_def by blast+
  obtain pr x1 where 1: "sv_plan S sql (mc_view c) (mc_ext c) = (pr, x1)" by fastforce
  have t1: "tr x1 = tr (mc_ext c)" using k(1) [of sql "mc_view c" "mc_ext c"] 1 by simp
  from assms(2) 1 show ?thesis
  proof (cases rule: route_cases)
    case Not_routed
    with t1 show ?thesis by simp
  next
    case (Not_acquired pl e x2)
    with t1 k(2) [of "rp_backend_id pl" x1] show ?thesis by simp
  next
    case (Forwarded pl a x2 ok c1)
    have t2: "tr x2 = tr x1 @ [Acq (rp_backend_id pl) a]" using k(2) [of "rp_backend_id pl" x1] Forwarded(3) by simp
    from forward_query_keeps [of "\<lambda>_. tr", OF k(5,6) refl Forwarded(4)] obtain h where
      h: "ok = Ok h" "tr (mc_ext c1) = tr x2" by (cases ok) auto
    let ?x = "sv_release S (rp_backend_id pl) a h (mc_ext c1)"
    have "tr (mc_ext c') = tr ?x"
      using Forwarded(5) h(1) k(4) by (cases "sv_served S (rp_backend_id pl) a ?x") auto
    with h(2) t1 t2 k(3) 1 Forwarded(1) show ?thesis by auto
  qed
qed

section \<open>Sending over a two-way socket\<close>

lemma duplex_send:
  assumes "duplex send recv inflight sent" "length p < MAX_PACKET_SIZE"
  obtains sock where "sent sock = sent (mc_socket c) @ encode p (mc_seq c)" "inflight sock = inflight (mc_socket c)"
    "mc_send send p c = Some (Ok (), c\<lparr>mc_seq := mc_seq c + 1, mc_socket := sock\<rparr>)"
proof -
  from duplex_write [OF assms, of "mc_socket c" "mc_seq c"] obtain sock where
    "sent sock = sent (mc_socket c) @ encode p (mc_seq c)" "inflight sock = inflight (mc_socket c)"
    "write_packet send (mc_socket c) p (mc_seq c) = Some (Ok (), mc_seq c + 1, sock)" .
  with that show thesis by (simp add: mc_send_def)
qed


lemma route_relayed:
  assumes rr: "reliable_recv (sv_brecv S a) inflight" and w: "reliable_send send sent" and resp: "response pkts"
    and pl: "sv_plan S sql (mc_view c) (mc_ext c) = (Ok pl, x1)" and hp: "sv_has_pool S (rp_backend_id pl) x1"
    and aq: "sv_acquire S (rp_backend_id pl) x1 = (Ok a, x2)"
    and wr: "write_packet (sv_bsend S a) x2 query 0 = Some (Ok (), q', e1)" and fl: "inflight e1 = frames pkts @ rest"
    and kp: "\<And>s e n. keep s (snd (sv_brecv S a e n)) = keep s e" "\<And>s e bs. keep (snd (send s bs)) e = keep s e"
    and sv: "\<And>s e. keep s e = keep (mc_socket c) e1 \<Longrightarrow>
      \<exists>e'. sv_served S (rp_backend_id pl) a (sv_release S (rp_backend_id pl) a True e) = Some e'"
  shows "\<exists>c' e. route_and_forward S send query sql c = Some (Ok (), c') \<and>
    sent (mc_socket c') = sent (mc_socket c) @ frames pkts \<and> relayed c c' \<and> inflight e = rest \<and>
    keep (mc_socket c') e = keep (mc_socket c) e1 \<and>
    sv_served S (rp_backend_id pl) a (sv_release S (rp_backend_id pl) a True e) = Some (mc_ext c')"
proof -
  let ?c = "c\<lparr>mc_ext := e1\<rparr>"
  from proxy_response [OF rr w resp, of ?c rest] fl obtain c2 where c2: "proxy_result S send a ?c = Some (Ok True, c2)"
    "inflight (mc_ext c2) = rest" "sent (mc_socket c2) = sent (mc_socket c) @ frames pkts" "relayed ?c c2" by auto
  have k2: "keep (mc_socket c2) (mc_ext c2) = keep (mc_socket c) e1" using proxy_keeps [of keep S a send, OF kp c2(1)] by simp
  have f: "forward_query S send a query (c\<lparr>mc_ext := x2\<rparr>) = Some (Ok True, c2)"
    using wr c2(1) by (simp add: forward_query_def)
  obtain e' where e': "sv_served S (rp_backend_id pl) a (sv_release S (rp_backend_id pl) a True (mc_ext c2)) = Some e'"
    using sv [OF k2] by blast
  have "route_and_forward S send query sql c = Some (Ok (), c2\<lparr>mc_ext := e'\<rparr>)"
    using pl hp aq f e' by (simp add: route_view)
  moreover have "relayed c (c2\<lparr>mc_ext := e'\<rparr>)" using c2(4) by (simp add: relayed_def)
  ultimately show ?thesis using c2 k2 e' by fastforce
qed

text \<open>A query is answered as the backend answers it: when the engine plans a backend, its pool
  yields a connection and the backend's response (an OK or ERR packet, or a result set, of packets
  below the chunk size) arrives, the backend has received exactly the client's command as packet 0, the
  client receives exactly the frames that the backend sent, sequence numbers included, nothing
  behind the response is consumed, and the connection goes back to its pool as healthy.\<close>

lemma route_served:
  assumes d: "duplex (sv_bsend S a) (sv_brecv S a) inflight bsent" and w: "reliable_send send sent"
    and resp: "response pkts" and n: "length query < MAX_PACKET_SIZE"
    and pl: "sv_plan S sql (mc_view c) (mc_ext c) = (Ok pl, x1)" and hp: "sv_has_pool S (rp_backend_id pl) x1"
    and aq: "sv_acquire S (rp_backend_id pl) x1 = (Ok a, x2)" and fl: "inflight x2 = frames pkts @ rest"
    and sv: "\<And>e. \<exists>e'. sv_served S (rp_backend_id pl) a (sv_release S (rp_backend_id pl) a True e) = Some e'"
  shows "\<exists>c' e. route_and_forward S send query sql c = Some (Ok (), c') \<and>
    sent (mc_socket c') = sent (mc_socket c) @ frames pkts \<and>
    bsent e = bsent x2 @ encode query 0 \<and> inflight e = rest \<and>
    sv_served S (rp_backend_id pl) a (sv_release S (rp_backend_id pl) a True e) = Some (mc_ext c')"
proof -
  have rr: "reliable_recv (sv_brecv S a) inflight" and ks: "\<And>s n. bsent (snd (sv_brecv S a s n)) = bsent s"
    using d by (simp_all add: duplex_def)
  from duplex_write [OF d n, of x2 0] obtain e1 where e1: "bsent e1 = bsent x2 @ encode query 0"
    "inflight e1 = frames pkts @ rest" "write_packet (sv_bsend S a) x2 query 0 = Some (Ok (), 0 + 1, e1)" using fl by auto
  from route_relayed [OF rr w resp pl hp aq e1(3,2), of "\<lambda>_. bsent"] ks sv e1(1) show ?thesis by auto
qed

section \<open>A sample\<close>

text \<open>Services over a byte pipe that record the calls to the pools.\<close>

definition sample_services :: "(bytes \<times> bytes \<times> pool_event list) services" where
  "sample_services = \<lparr>
     sv_plan = (\<lambda>sql v e. (Ok \<lparr>rp_query_type = classify sql, rp_schema = sv_current_schema v, rp_backend_id = ''b'',
       rp_role = PRIMARY\<rparr>, e)),
     sv_has_pool = (\<lambda>b e. True),
     sv_acquire = (\<lambda>b (ins, outs, evs). (Ok 7, (ins, outs, evs @ [Acq b 7]))),
     sv_release = (\<lambda>b a h (ins, outs, evs). (ins, outs, evs @ [Rel b a h])),
     sv_served = (\<lambda>b a e. Some e),
     sv_bsend = (\<lambda>a (ins, outs, evs) bs. (True, (ins, outs @ bs, evs))),
     sv_brecv = (\<lambda>a (ins, outs, evs) n. (case pipe_recv ins n of (r, ins') \<Rightarrow> (r, (ins', outs, evs))))\<rparr>"

lemma sample_duplex: "duplex (sv_bsend sample_services a) (sv_brecv sample_services a) fst (fst \<circ> snd)"
  by (auto simp: duplex_def sample_services_def reliable_recv_def reliable_send_def pipe_recv_def split: prod.splits if_splits)

lemma sample_traced: "traced sample_services (snd \<circ> snd)"
  by (auto simp: traced_def sample_services_def split: prod.splits)

definition sample_result :: "(u8 \<times> bytes) list" where
  "sample_result = [(1, [1]), (2, make_column_def ''n'' col_type_VAR_STRING 255 0 charset_UTF8MB4),
     (3, make_eof 0 2), (4, make_text_row [''42'']), (5, make_eof 0 2)]"

lemma sample_response: "response sample_result"
proof -
  let ?col = "make_column_def ''n'' col_type_VAR_STRING 255 0 charset_UTF8MB4"
  have l: "length ?col = 23" "hd ?col \<noteq> 0xFE" by code_simp+
  have "result_set (1, [1]) [(2, ?col)] (3, make_eof 0 2) [(4, make_text_row [''42''])] (5, make_eof 0 2)"
    using l by (simp add: result_set_def single_response_def is_eof_packet_def OK_PACKET_def ERR_PACKET_def
        make_eof_def write_u8_def write_u16_le_def EOF_PACKET_def make_text_row_def write_lenenc_str_def write_lenenc_int_def)
  moreover have "small sample_result"
    using l by (simp add: sample_result_def MAX_PACKET_SIZE_def make_eof_def write_u8_def write_u16_le_def
        make_text_row_def write_lenenc_str_def write_lenenc_int_def)
  moreover have "sample_result = [(1, [1])] @ ([(2, ?col)] @ [(3, make_eof 0 2)]) @ ([(4, make_text_row [''42''])] @ [(5, make_eof 0 2)])"
    by (simp add: sample_result_def)
  ultimately show ?thesis unfolding response_def by blast
qed

end
