(* ===== verification/ClientSession.thy ===== *)
theory ClientSession
  imports MySqlConnection
begin

text \<open>
  What a client's session amounts to, over the whole of \<open>mysql_connection.cpp\<close>: the recognition of
  session statements against a reference, the session as an abstract machine that the command
  loop implements on the wire, and the balance of the calls to the pools.
\<close>


section \<open>The statement prefix against a reference\<close>

text \<open>Every run of whitespace becomes one blank.\<close>

function collapse :: "string \<Rightarrow> string" where
  "collapse [] = []"
| "collapse (c # cs) = (if isspace c then CHR '' '' # collapse (dropWhile isspace cs) else c # collapse cs)"
  by pat_completeness auto
termination by (relation "measure length") (auto simp: le_imp_less_Suc length_dropWhile_le)

definition prefix_ref :: "string \<Rightarrow> string" where
  "prefix_ref sql = take 16 (collapse (map toupper (dropWhile isspace sql)))"

lemma isspace_toupper [simp]: "isspace (toupper c) = isspace c"
  by (auto simp: isspace_def toupper_def islower_def Let_def)

lemma dropWhile_toupper: "dropWhile isspace (map toupper cs) = map toupper (dropWhile isspace cs)"
  by (induction cs) auto

lemma normalise_loop_collapse:
  "length out \<le> 16 \<Longrightarrow> normalise_loop out True cs = out @ take (16 - length out) (collapse (map toupper (dropWhile isspace cs)))"
  "length out \<le> 16 \<Longrightarrow> out \<noteq> [] \<Longrightarrow> normalise_loop out False cs = out @ take (16 - length out) (collapse (map toupper cs))"
  by (induction cs arbitrary: out)
     (auto simp: dropWhile_toupper Suc_diff_le take_Cons' not_less_eq_eq)

lemma normalise_prefix_collapse: "normalise_prefix sql = prefix_ref sql"
  by (simp add: normalise_prefix_def prefix_ref_def normalise_loop_collapse)


lemma collapse_word: "\<forall>c \<in> set K. \<not> isspace c \<Longrightarrow> collapse (K @ r) = K @ collapse r"
  by (induction K) auto

lemma collapse_space:
  "\<forall>c \<in> set ws. isspace c \<Longrightarrow> ws \<noteq> [] \<Longrightarrow> collapse (map toupper (ws @ r)) = CHR '' '' # collapse (map toupper (dropWhile isspace r))"
  by (cases ws) (simp_all add: dropWhile_toupper flip: map_append)

lemma upper_word: "map toupper kw = K \<Longrightarrow> \<forall>c \<in> set K. \<not> isspace c \<Longrightarrow> \<forall>c \<in> set kw. \<not> isspace c"
  by auto

lemma dropWhile_word: "\<forall>c \<in> set kw. \<not> isspace c \<Longrightarrow> kw \<noteq> [] \<Longrightarrow> dropWhile isspace (kw @ r) = kw @ r"
  by (cases kw) auto

lemma prefix_word:
  assumes "\<forall>c \<in> set lead. isspace c" "map toupper kw = K" "\<forall>c \<in> set K. \<not> isspace c" "K \<noteq> []"
  shows "normalise_prefix (lead @ kw @ r) = take 16 (K @ collapse (map toupper r))"
proof -
  have "\<forall>c \<in> set kw. \<not> isspace c" by (rule upper_word [OF assms(2,3)])
  moreover have "kw \<noteq> []" using assms(2,4) by fastforce
  ultimately have "dropWhile isspace (lead @ kw @ r) = kw @ r"
    using assms(1) dropWhile_word by (simp add: dropWhile_append2)
  then show ?thesis
    using assms(2,3) by (simp add: normalise_prefix_collapse prefix_ref_def collapse_word)
qed

lemma prefix_two_words:
  assumes "\<forall>c \<in> set lead. isspace c" "map toupper kw = K" "\<forall>c \<in> set K. \<not> isspace c" "K \<noteq> []"
    "\<forall>c \<in> set ws. isspace c" "ws \<noteq> []" "map toupper kw2 = K2" "\<forall>c \<in> set K2. \<not> isspace c" "K2 \<noteq> []"
  shows "normalise_prefix (lead @ kw @ ws @ kw2 @ r) = take 16 (K @ '' '' @ K2 @ collapse (map toupper r))"
proof -
  have "\<forall>c \<in> set kw2. \<not> isspace c" by (rule upper_word [OF assms(7,8)])
  moreover have "kw2 \<noteq> []" using assms(7,9) by fastforce
  ultimately have "dropWhile isspace (kw2 @ r) = kw2 @ r" by (rule dropWhile_word)
  then show ?thesis
    unfolding prefix_word [OF assms(1-4)] collapse_space [OF assms(5,6)]
    using assms(7,8) by (simp add: collapse_word)
qed

section \<open>The session that the statements describe\<close>

datatype session_event = Use string | Begin_txn | End_txn | Autocommit bool

fun session_step :: "session_event \<Rightarrow> SessionView \<Rightarrow> SessionView" where
  "session_step (Use db) v = v\<lparr>sv_current_schema := db\<rparr>"
| "session_step Begin_txn v = v\<lparr>sv_in_transaction := True\<rparr>"
| "session_step End_txn v = v\<lparr>sv_in_transaction := False\<rparr>"
| "session_step (Autocommit b) v = v\<lparr>sv_autocommit := b\<rparr>"

text \<open>The texts that mean an event, in any letter case.\<close>

inductive means :: "string \<Rightarrow> session_event \<Rightarrow> bool" where
  means_use: "map toupper kw = ''USE'' \<Longrightarrow> \<forall>c \<in> set ws. c = CHR '' '' \<or> c = CHR 0x09 \<Longrightarrow> ws \<noteq> [] \<Longrightarrow>
    db \<noteq> [] \<Longrightarrow> \<not> isspace (hd db) \<Longrightarrow> \<not> isspace (last db) \<Longrightarrow> \<forall>c \<in> set trail. isspace c \<Longrightarrow>
    means (kw @ ws @ db @ trail) (Use db)"
| means_begin: "\<forall>c \<in> set lead. isspace c \<Longrightarrow> map toupper kw = ''BEGIN'' \<Longrightarrow> means (lead @ kw @ r) Begin_txn"
| means_start: "\<forall>c \<in> set lead. isspace c \<Longrightarrow> map toupper kw = ''START'' \<Longrightarrow> \<forall>c \<in> set ws. isspace c \<Longrightarrow> ws \<noteq> [] \<Longrightarrow>
    map toupper kw2 = ''TRANSACTION'' \<Longrightarrow> means (lead @ kw @ ws @ kw2 @ r) Begin_txn"
| means_commit: "\<forall>c \<in> set lead. isspace c \<Longrightarrow> map toupper kw = ''COMMIT'' \<Longrightarrow> means (lead @ kw @ r) End_txn"
| means_rollback: "\<forall>c \<in> set lead. isspace c \<Longrightarrow> map toupper kw = ''ROLLBACK'' \<Longrightarrow> means (lead @ kw @ r) End_txn"
| means_autocommit: "\<forall>c \<in> set lead. isspace c \<Longrightarrow> map toupper kw = ''SET'' \<Longrightarrow> \<forall>c \<in> set ws. isspace c \<Longrightarrow> ws \<noteq> [] \<Longrightarrow>
    map toupper kw2 = (if b then ''AUTOCOMMIT=1'' else ''AUTOCOMMIT=0'') \<Longrightarrow>
    means (lead @ kw @ ws @ kw2 @ r) (Autocommit b)"

lemma isspace_blank: "c = CHR '' '' \<or> c = CHR 0x09 \<Longrightarrow> isspace c"
  by (auto simp: isspace_def)

lemma use_database_word:
  assumes "length kw = 3" "\<forall>c \<in> set ws. c = CHR '' '' \<or> c = CHR 0x09"
    "db \<noteq> []" "\<not> isspace (hd db)" "\<not> isspace (last db)" "\<forall>c \<in> set trail. isspace c"
  shows "use_database (kw @ ws @ db @ trail) = Some db"
proof -
  have "dropWhile (\<lambda>c. c = CHR '' '' \<or> c = CHR 0x09) (ws @ db @ trail) = db @ trail"
    using assms(2-4) isspace_blank [of "hd db"] by (cases db) (auto simp: dropWhile_append2)
  moreover have "rev (dropWhile isspace (rev (db @ trail))) = db"
    using assms(3,5,6) dropWhile_append2 [of "rev trail" isspace "rev db"]
    by (cases "rev db") (auto simp: rev_eq_Cons_iff)
  ultimately show ?thesis
    using assms(1,3) by (cases db) (simp_all add: use_database_def)
qed

lemma nospace_words [simp]:
  "\<forall>c \<in> set ''USE''. \<not> isspace c" "\<forall>c \<in> set ''BEGIN''. \<not> isspace c" "\<forall>c \<in> set ''START''. \<not> isspace c"
  "\<forall>c \<in> set ''TRANSACTION''. \<not> isspace c" "\<forall>c \<in> set ''COMMIT''. \<not> isspace c" "\<forall>c \<in> set ''ROLLBACK''. \<not> isspace c"
  "\<forall>c \<in> set ''SET''. \<not> isspace c" "\<forall>c \<in> set ''AUTOCOMMIT=0''. \<not> isspace c" "\<forall>c \<in> set ''AUTOCOMMIT=1''. \<not> isspace c"
  by (simp_all add: isspace_def)

lemma prefix_use:
  assumes "map toupper kw = ''USE''" "\<forall>c \<in> set ws. c = CHR '' '' \<or> c = CHR 0x09" "ws \<noteq> []"
  shows "\<exists>x. normalise_prefix (kw @ ws @ r) = ''USE '' @ x"
proof -
  have "\<forall>c \<in> set ws. isspace c" using assms(2) isspace_blank by blast
  from prefix_word [of "[]" kw "''USE''"] collapse_space [OF this assms(3)] assms(1) show ?thesis by simp
qed

definition session_set :: "session_event \<Rightarrow> ('c, 'e) MySqlConnection \<Rightarrow> ('c, 'e) MySqlConnection" where
  "session_set ev c = (case ev of Use db \<Rightarrow> c\<lparr>mc_current_db := db\<rparr> | Begin_txn \<Rightarrow> c\<lparr>mc_in_transaction := True\<rparr>
     | End_txn \<Rightarrow> c\<lparr>mc_in_transaction := False\<rparr> | Autocommit b \<Rightarrow> c\<lparr>mc_autocommit := b\<rparr>)"

lemma contains_autocommit:
  "contains ''SET AUTOCOMMIT=0'' ''AUTOCOMMIT''" "contains ''SET AUTOCOMMIT=0'' ''AUTOCOMMIT=0''"
  "contains ''SET AUTOCOMMIT=1'' ''AUTOCOMMIT''" "\<not> contains ''SET AUTOCOMMIT=1'' ''AUTOCOMMIT=0''"
  "\<not> contains ''SET AUTOCOMMIT=1'' ''AUTOCOMMIT = 0''"
  by code_simp+

lemma handle_means:
  assumes "means sql ev"
  shows "handle_com_query S send (b # map byte_of sql) c = send_ok send (session_set ev c)"
  using assms
proof cases
  case (means_use kw ws db trail)
  have "length kw = 3" using arg_cong [OF means_use(3), of length] by simp
  with means_use have "use_database sql = Some db" using use_database_word by simp
  moreover obtain x where "normalise_prefix sql = ''USE '' @ x"
    using prefix_use [OF means_use(3-5), of "db @ trail"] means_use(1) by auto
  ultimately show ?thesis using means_use(2)
    by (simp add: handle_com_query_def starts_with_def session_set_def)
next
  case (means_begin lead kw r)
  then show ?thesis
    by (simp add: handle_com_query_def starts_with_def session_set_def prefix_word)
next
  case (means_start lead kw ws kw2 r)
  then show ?thesis
    by (simp add: handle_com_query_def starts_with_def session_set_def prefix_two_words)
next
  case (means_commit lead kw r)
  then show ?thesis
    by (simp add: handle_com_query_def starts_with_def session_set_def prefix_word)
next
  case (means_rollback lead kw r)
  then show ?thesis
    by (simp add: handle_com_query_def starts_with_def session_set_def prefix_word)
next
  case (means_autocommit lead kw ws kw2 b r)
  then show ?thesis
    by (cases b) (simp_all add: handle_com_query_def starts_with_def session_set_def prefix_two_words contains_autocommit)
qed


section \<open>Sessions on the wire\<close>

abbreviation ok_payload :: bytes where
  "ok_payload \<equiv> make_ok 0 0 0x0002 0"

lemma ok_payload_small: "length ok_payload < MAX_PACKET_SIZE"
  by (simp add: make_ok_def write_u8_def write_u16_le_def write_lenenc_int_def MAX_PACKET_SIZE_def)

lemma send_ok_duplex:
  assumes "duplex send recv inflight sent"
  obtains sock where "sent sock = sent (mc_socket c) @ encode ok_payload (mc_seq c)" "inflight sock = inflight (mc_socket c)"
    "send_ok send c = Some (Ok (), c\<lparr>mc_seq := mc_seq c + 1, mc_socket := sock\<rparr>)"
  using duplex_send [OF assms ok_payload_small] unfolding send_ok_def by metis

definition query_packet :: "string \<Rightarrow> bytes" where
  "query_packet sql = cmd_QUERY # map byte_of sql"

lemma session_set_simps [simp]:
  "mc_socket (session_set ev c) = mc_socket c" "mc_seq (session_set ev c) = mc_seq c" "mc_ext (session_set ev c) = mc_ext c"
  "mc_view (session_set ev c) = session_step ev (mc_view c)"
  by (cases ev; simp add: session_set_def mc_view_def)+

lemma mc_view_simps [simp]:
  "mc_view (c\<lparr>mc_socket := s\<rparr>) = mc_view c" "mc_view (c\<lparr>mc_seq := q\<rparr>) = mc_view c" "mc_view (c\<lparr>mc_ext := e\<rparr>) = mc_view c"
  by (simp_all add: mc_view_def)

lemma handle_session_command:
  assumes d: "duplex send recv inflight sent" and m: "means sql ev"
  shows "\<exists>c'. handle_command S send \<lparr>pk_length = n, pk_sequence = q, pk_payload = query_packet sql\<rparr> c = Some (Ok False, c') \<and>
    inflight (mc_socket c') = inflight (mc_socket c) \<and> sent (mc_socket c') = sent (mc_socket c) @ encode ok_payload (q + 1) \<and>
    mc_ext c' = mc_ext c \<and> mc_view c' = session_step ev (mc_view c)"
proof -
  let ?c = "session_set ev (c\<lparr>mc_seq := q + 1\<rparr>)"
  from send_ok_duplex [OF d, of ?c] obtain sock where
    "sent sock = sent (mc_socket c) @ encode ok_payload (q + 1)" "inflight sock = inflight (mc_socket c)"
    "send_ok send ?c = Some (Ok (), ?c\<lparr>mc_seq := mc_seq ?c + 1, mc_socket := sock\<rparr>)" by auto
  then show ?thesis
    by (simp add: handle_command_def query_packet_def handle_means [OF m] cmd_QUERY_def cmd_QUIT_def cmd_PING_def cmd_INIT_DB_def)
qed

text \<open>The packets of a session: each statement is a packet with its own sequence number.\<close>

definition session_packets :: "(u8 \<times> string) list \<Rightarrow> bytes" where
  "session_packets qs = frames (map (\<lambda>(q, sql). (q, query_packet sql)) qs)"

lemma command_loop_quit:
  assumes d: "duplex send recv inflight sent" and "inflight (mc_socket c) = encode [cmd_QUIT] q @ rest"
  shows "\<exists>c'. command_loop S send recv c = Some (Ok (), c') \<and> inflight (mc_socket c') = rest \<and>
    sent (mc_socket c') = sent (mc_socket c) \<and> mc_ext c' = mc_ext c \<and> mc_view c' = mc_view c"
proof -
  have "length [cmd_QUIT] < MAX_PACKET_SIZE" by (simp add: MAX_PACKET_SIZE_def)
  with assms(2) obtain s where "inflight s = rest" "sent s = sent (mc_socket c)"
    "read_packet recv (mc_socket c) = Some (Ok \<lparr>pk_length = 1, pk_sequence = q, pk_payload = [cmd_QUIT]\<rparr>, s)"
    using duplex_recv [OF d, of "[cmd_QUIT]" "mc_socket c" q rest] by auto
  then show ?thesis by (subst command_loop.simps) (simp add: handle_command_def)
qed

lemma command_loop_step:
  assumes d: "duplex send recv inflight sent" and "length sql < MAX_PACKET_SIZE - 1"
    and "inflight (mc_socket c) = encode (query_packet sql) q @ rest"
  obtains s where "inflight s = rest" "sent s = sent (mc_socket c)"
    "\<forall>c1. handle_command S send \<lparr>pk_length = word_of_nat (length (query_packet sql)), pk_sequence = q, pk_payload = query_packet sql\<rparr>
        (c\<lparr>mc_seq := 0, mc_socket := s\<rparr>) = Some (Ok False, c1) \<longrightarrow> command_loop S send recv c = command_loop S send recv c1"
proof -
  have "length (query_packet sql) < MAX_PACKET_SIZE" using assms(2) by (auto simp: query_packet_def)
  from duplex_recv [OF d this assms(3)] obtain s where s: "inflight s = rest" "sent s = sent (mc_socket c)"
    "read_packet recv (mc_socket c) = Some (Ok \<lparr>pk_length = word_of_nat (length (query_packet sql)), pk_sequence = q, pk_payload = query_packet sql\<rparr>, s)" .
  show thesis
    by (rule that [OF s(1,2)], subst command_loop.simps) (simp add: s(3), simp add: query_packet_def)
qed

lemma command_loop_session:
  assumes d: "duplex send recv inflight sent"
    and "list_all2 (\<lambda>(q, sql) ev. means sql ev \<and> length sql < MAX_PACKET_SIZE - 1) qs evs"
    and "inflight (mc_socket c) = session_packets qs @ encode [cmd_QUIT] q @ rest"
  shows "\<exists>c'. command_loop S send recv c = Some (Ok (), c') \<and> inflight (mc_socket c') = rest \<and>
    sent (mc_socket c') = sent (mc_socket c) @ frames (map (\<lambda>(q, sql). (q + 1, ok_payload)) qs) \<and>
    mc_ext c' = mc_ext c \<and> mc_view c' = fold session_step evs (mc_view c)"
  using assms(2,3)
proof (induction qs evs arbitrary: c rule: list_all2_induct)
  case Nil
  then show ?case using command_loop_quit [OF d, of c q rest S] by (simp add: session_packets_def)
next
  case (Cons x qs ev evs)
  obtain q1 sql where x: "x = (q1, sql)" by fastforce
  have n: "length sql < MAX_PACKET_SIZE - 1" and m: "means sql ev" using Cons.hyps(1) x by auto
  have "inflight (mc_socket c) = encode (query_packet sql) q1 @ (session_packets qs @ encode [cmd_QUIT] q @ rest)"
    using Cons.prems x by (simp add: session_packets_def)
  from command_loop_step [OF d n this, of S] obtain s where s: "inflight s = session_packets qs @ encode [cmd_QUIT] q @ rest"
    "sent s = sent (mc_socket c)"
    "\<forall>c1. handle_command S send \<lparr>pk_length = word_of_nat (length (query_packet sql)), pk_sequence = q1, pk_payload = query_packet sql\<rparr>
        (c\<lparr>mc_seq := 0, mc_socket := s\<rparr>) = Some (Ok False, c1) \<longrightarrow> command_loop S send recv c = command_loop S send recv c1" .
  from handle_session_command [OF d m, of S _ q1 "c\<lparr>mc_seq := 0, mc_socket := s\<rparr>"] s obtain c1 where c1:
    "command_loop S send recv c = command_loop S send recv c1"
    "inflight (mc_socket c1) = session_packets qs @ encode [cmd_QUIT] q @ rest"
    "sent (mc_socket c1) = sent (mc_socket c) @ encode ok_payload (q1 + 1)"
    "mc_ext c1 = mc_ext c" "mc_view c1 = session_step ev (mc_view c)" by fastforce
  with Cons.IH [OF c1(2)] x show ?case by auto
qed

section \<open>A session from its greeting to its end\<close>

text \<open>A statement that is neither \<open>SET\<close>, \<open>USE\<close> nor a transaction statement is routed.\<close>

definition routed :: "string \<Rightarrow> bool" where
  "routed sql \<longleftrightarrow> (let prefix = normalise_prefix sql in
     \<not> starts_with prefix ''SET '' \<and> \<not> starts_with prefix ''USE '' \<and> \<not> starts_with prefix ''BEGIN'' \<and>
     \<not> starts_with prefix ''START TRANS'' \<and> \<not> starts_with prefix ''COMMIT'' \<and> \<not> starts_with prefix ''ROLLBACK'')"

lemma handle_routed:
  "routed sql \<Longrightarrow> handle_com_query S send (query_packet sql) c = route_and_forward S send (query_packet sql) sql c"
  by (simp add: handle_com_query_def routed_def query_packet_def Let_def)

lemma command_routed:
  assumes "routed sql" "route_and_forward S send (query_packet sql) sql (c\<lparr>mc_seq := q + 1\<rparr>) = Some (Ok (), c')"
  shows "handle_command S send \<lparr>pk_length = n, pk_sequence = q, pk_payload = query_packet sql\<rparr> c = Some (Ok False, c')"
  using handle_routed [OF assms(1), of S send "c\<lparr>mc_seq := q + 1\<rparr>"] assms(2)
  by (simp add: handle_command_def query_packet_def cmd_QUERY_def cmd_QUIT_def cmd_PING_def cmd_INIT_DB_def)

text \<open>The greeting of a session.\<close>

definition greeting :: "bytes option \<Rightarrow> NodeConfig \<Rightarrow> u32 \<Rightarrow> HandshakeV10 option" where
  "greeting rand_bytes node cid =
     generate_auth_data rand_bytes (default_HandshakeV10\<lparr>hs_connection_id := cid,
       hs_server_version := (if node_name node = [] then ''8.0.30-dbmesh'' else ''8.0.30-dbmesh-'' @ node_name node)\<rparr>)"

lemma login:
  assumes d: "duplex send recv inflight sent" and g: "greeting rand_bytes node cid = Some hs"
    and n: "length (hs_encode hs) < MAX_PACKET_SIZE" "length packet < MAX_PACKET_SIZE" and v: "hr_decode packet = Some (Ok resp)"
    and i: "inflight sock = encode packet q @ rest"
  obtains c1 where "inflight (mc_socket c1) = rest"
    "sent (mc_socket c1) = sent sock @ encode (hs_encode hs) 0 @ encode ok_payload 2" "mc_ext c1 = e"
    "mc_view c1 = \<lparr>sv_current_schema = hr_database resp, sv_in_transaction = False, sv_autocommit = True, sv_pinned_backend = None\<rparr>"
    "\<And>c2. command_loop S send recv c1 = Some (Ok (), c2) \<Longrightarrow> mc_run S send recv rand_bytes node (mc_new sock e cid) = Some (Ok (), c2)"
proof -
  let ?c = "(mc_new sock e cid)\<lparr>mc_seq := 0\<rparr>"
  from duplex_send [OF d n(1), of ?c] obtain s1 where
    s1: "sent s1 = sent sock @ encode (hs_encode hs) 0" "inflight s1 = inflight sock"
      "mc_send send (hs_encode hs) ?c = Some (Ok (), ?c\<lparr>mc_seq := mc_seq ?c + 1, mc_socket := s1\<rparr>)"
    by (auto simp: mc_new_def)
  from duplex_recv [OF d n(2), of s1 q rest] s1(2) i obtain s2 where
    s2: "inflight s2 = rest" "sent s2 = sent s1"
      "read_packet recv s1 = Some (Ok \<lparr>pk_length = word_of_nat (length packet), pk_sequence = q, pk_payload = packet\<rparr>, s2)" by auto
  let ?c2 = "(mc_new s2 e cid)\<lparr>mc_seq := 2, mc_client_caps := hr_capability_flags resp AND caps_SERVER_FLAGS,
      mc_username := hr_username resp, mc_current_db := hr_database resp\<rparr>"
  from send_ok_duplex [OF d, of ?c2] obtain s3 where
    s3: "sent s3 = sent s2 @ encode ok_payload 2" "inflight s3 = inflight s2"
      "send_ok send ?c2 = Some (Ok (), ?c2\<lparr>mc_seq := mc_seq ?c2 + 1, mc_socket := s3\<rparr>)" by (auto simp: mc_new_def)
  show thesis
  proof (rule that [of "?c2\<lparr>mc_seq := 3, mc_socket := s3\<rparr>"])
    fix c2 assume l: "command_loop S send recv (?c2\<lparr>mc_seq := 3, mc_socket := s3\<rparr>) = Some (Ok (), c2)"
    show "mc_run S send recv rand_bytes node (mc_new sock e cid) = Some (Ok (), c2)"
      using g s1(3) s2(3) s3(3) v l
      by (simp add: mc_run_def do_run_def greeting_def mc_new_def Let_def)
  qed (use s1 s2 s3 i in \<open>simp_all add: mc_new_def mc_view_def\<close>)
qed

section \<open>From one query to a whole session\<close>

lemma send_ok_ext: "send_ok send c = Some (r, c') \<Longrightarrow> mc_ext c' = mc_ext c"
  by (auto simp: send_ok_def dest: mc_send_ext)

lemma query_cases:
  assumes "handle_com_query S send payload c = Some (r, c')"
  shows "mc_ext c' = mc_ext c \<or> route_and_forward S send payload (map char_at (tl payload)) c = Some (r, c')"
  using assms by (auto simp: handle_com_query_def Let_def dest!: send_ok_ext split: if_splits option.splits)

lemma command_cases:
  assumes "handle_command S send pkt c = Some (r, c')"
  shows "mc_ext c' = mc_ext c \<or>
    (\<exists>r'. handle_com_query S send (pk_payload pkt) (c\<lparr>mc_seq := pk_sequence pkt + 1\<rparr>) = Some (r', c'))"
  using assms
  by (auto simp: handle_command_def Let_def send_ok_def send_err_def handle_com_init_db_def handle_com_field_list_def
      dest!: mc_send_ext split: if_splits bind_splits)

text \<open>
  A session touches its surroundings only through routed queries: a preorder on the state of the
  surroundings that every routed query respects is respected by a session.
\<close>

locale session_relation =
  fixes S :: "'e services" and send :: "'c \<Rightarrow> bytes \<Rightarrow> bool \<times> 'c" and R :: "'e \<Rightarrow> 'e \<Rightarrow> bool"
  assumes R_refl: "R e e" and R_trans: "R e1 e2 \<Longrightarrow> R e2 e3 \<Longrightarrow> R e1 e3"
    and route: "route_and_forward S send q sql c = Some (r, c') \<Longrightarrow> R (mc_ext c) (mc_ext c')"
begin

lemma query_related: "handle_com_query S send payload c = Some (r, c') \<Longrightarrow> R (mc_ext c) (mc_ext c')"
  by (metis query_cases route R_refl)

lemma command_related: "handle_command S send pkt c = Some (r, c') \<Longrightarrow> R (mc_ext c) (mc_ext c')"
  using command_cases [of S send pkt c r c'] query_related [of "pk_payload pkt" "c\<lparr>mc_seq := pk_sequence pkt + 1\<rparr>"] R_refl
  by fastforce

lemma loop_related:
  assumes r: "command_loop S send recv c = Some (r, c')"
  shows "R (mc_ext c) (mc_ext c')"
proof -
  let ?P = "\<lambda>S' send' recv c y. S' = S \<and> send' = send \<longrightarrow> R (mc_ext c) (mc_ext (snd y))"
  have "?P S send recv c (r, c')"
  proof (rule command_loop.raw_induct [where P = ?P, OF _ r], goal_cases)
    case 1: (1 loop S' send' recv c y)
    show ?case
    proof (intro impI)
      assume "S' = S \<and> send' = send"
      then have 2: "S' = S" "send' = send" by simp_all
      from 1(2) show "R (mc_ext c) (mc_ext (snd y))"
        using R_refl unfolding 2
        by (fastforce dest!: 1(1) [unfolded 2, THEN mp, OF _ conjI, OF _ refl refl] command_related
            intro: R_trans split: bind_splits result.splits if_splits)
    qed
  qed
  then show ?thesis by simp
qed

lemma run_related:
  assumes "mc_run S send recv rand_bytes node c = Some (r, c')"
  shows "R (mc_ext c) (mc_ext c')"
proof -
  obtain r0 where "do_run S send recv rand_bytes node c = Some (r0, c')"
    using assms by (auto simp: mc_run_def split: bind_splits)
  then show ?thesis
    using R_refl unfolding do_run_def Let_def
    by (fastforce simp: send_ok_def send_err_def dest!: mc_send_ext loop_related
        split: option.splits bind_splits result.splits)
qed

end

section \<open>The pools over a whole session\<close>

fun balanced :: "pool_event list \<Rightarrow> bool" where
  "balanced [] = True"
| "balanced (Acq b a # Rel b' a' h # evs) = (b' = b \<and> a' = a \<and> balanced evs)"
| "balanced _ = False"

lemma balanced_append: "balanced xs \<Longrightarrow> balanced ys \<Longrightarrow> balanced (xs @ ys)"
  by (induction xs rule: balanced.induct) auto

text \<open>Between two states the calls to the pools are balanced.\<close>

definition grows :: "'e services \<Rightarrow> ('e \<Rightarrow> pool_event list) \<Rightarrow> 'e \<Rightarrow> 'e \<Rightarrow> bool" where
  "grows S tr e e' \<longleftrightarrow> (traced S tr \<longrightarrow> (\<exists>evs. tr e' = tr e @ evs \<and> balanced evs))"

lemma route_grows: "route_and_forward S send q sql c = Some (r, c') \<Longrightarrow> grows S tr (mc_ext c) (mc_ext c')"
  unfolding grows_def by (auto dest: route_trace intro: exI [of _ "[]"])

interpretation pool_calls: session_relation S send "grows S tr" for S send tr
proof
  show "grows S tr e e" for e by (simp add: grows_def)
  show "grows S tr e1 e3" if "grows S tr e1 e2" "grows S tr e2 e3" for e1 e2 e3
    using that unfolding grows_def by (metis append.assoc balanced_append)
qed (rule route_grows)

lemma contains_spaced:
  assumes "p = ''SET AUTOCOMMIT '' @ take 1 x"
  shows "contains p ''AUTOCOMMIT''" "\<not> contains p ''AUTOCOMMIT=0''" "\<not> contains p ''AUTOCOMMIT = 0''"
  using assms by (cases x; simp add: contains_def upt_rec)+

lemma handle_autocommit_spaced:
  assumes "\<forall>c \<in> set lead. isspace c" "map toupper kw = ''SET''" "\<forall>c \<in> set ws. isspace c" "ws \<noteq> []"
    "map toupper kw2 = ''AUTOCOMMIT''" "\<forall>c \<in> set ws2. isspace c" "ws2 \<noteq> []"
  shows "handle_com_query S send (b # map byte_of (lead @ kw @ ws @ kw2 @ ws2 @ r)) c = send_ok send (c\<lparr>mc_autocommit := True\<rparr>)"
proof -
  have "normalise_prefix (lead @ kw @ ws @ kw2 @ ws2 @ r) = ''SET AUTOCOMMIT '' @ take 1 (collapse (map toupper (dropWhile isspace r)))"
    using prefix_two_words [OF assms(1,2) _ _ assms(3,4,5), of "ws2 @ r"] collapse_space [OF assms(6,7), of r]
    by (simp add: isspace_def)
  from contains_spaced [OF this] this show ?thesis
    by (simp add: handle_com_query_def starts_with_def)
qed

lemma handle_comment:
  "handle_com_query S send (query_packet (''/*'' @ r)) c = route_and_forward S send (query_packet (''/*'' @ r)) (''/*'' @ r) c"
proof -
  have "\<exists>x. normalise_prefix (''/*'' @ r) = ''/*'' @ x"
    by (auto simp: normalise_prefix_collapse prefix_ref_def isspace_def toupper_def islower_def)
  then show ?thesis by (auto simp: handle_com_query_def starts_with_def query_packet_def)
qed

section \<open>Properties\<close>

text \<open>C40. The incremental normalisation of a statement's prefix equals its description: leading
  whitespace dropped, letters in upper case, every run of whitespace one blank, and the first 16
  characters of that.\<close>

theorem normalise_prefix_equiv:
  "normalise_prefix sql = take 16 (collapse (map toupper (dropWhile isspace sql)))"
  by (simp add: normalise_prefix_collapse prefix_ref_def)

text \<open>C5. The command loop implements the abstract session machine: a client that sends session
  statements (\<open>USE\<close>, \<open>BEGIN\<close>, \<open>START TRANSACTION\<close>, \<open>COMMIT\<close>, \<open>ROLLBACK\<close>, \<open>SET AUTOCOMMIT=b\<close>, in
  any letter case) and then \<open>COM_QUIT\<close> gets one OK packet per statement, numbered after its request;
  the loop returns, no pool is called, and the view of the session that the router sees is the one
  that the abstract machine reaches.\<close>

theorem session_refines:
  assumes "duplex send recv inflight sent"
    and "list_all2 (\<lambda>(q, sql) ev. means sql ev \<and> length sql < MAX_PACKET_SIZE - 1) qs evs"
    and "inflight (mc_socket c) = session_packets qs @ encode [cmd_QUIT] q @ rest"
  shows "\<exists>c'. command_loop S send recv c = Some (Ok (), c') \<and> inflight (mc_socket c') = rest \<and>
    sent (mc_socket c') = sent (mc_socket c) @ frames (map (\<lambda>(q, sql). (q + 1, make_ok 0 0 0x0002 0)) qs) \<and>
    mc_ext c' = mc_ext c \<and> mc_view c' = fold session_step evs (mc_view c)"
  using assms by (rule command_loop_session)

lemma sample_means: "means ''use shop'' (Use ''shop'')" "means ''Begin'' Begin_txn"
proof -
  have "map toupper ''use'' = ''USE''" "map toupper ''Begin'' = ''BEGIN''" by code_simp+
  then show "means ''use shop'' (Use ''shop'')" "means ''Begin'' Begin_txn"
    using means_use [of "''use''" "'' ''" "''shop''" "[]"] means_begin [of "[]" "''Begin''" "[]"]
    by (simp_all add: isspace_def)
qed

theorem session_refines_witness:
  "\<exists>c'. command_loop sample_services two_pipes_send two_pipes_recv
     (mc_new (session_packets [(0, ''use shop''), (0, ''Begin'')] @ encode [cmd_QUIT] 0, []) ([], [], []) 1) = Some (Ok (), c') \<and>
     mc_view c' = \<lparr>sv_current_schema = ''shop'', sv_in_transaction = True, sv_autocommit = True, sv_pinned_backend = None\<rparr>"
proof -
  let ?c = "mc_new (session_packets [(0, ''use shop''), (0, ''Begin'')] @ encode [cmd_QUIT] 0, []) ([], [], []) 1"
  have "list_all2 (\<lambda>(q, sql) ev. means sql ev \<and> length sql < MAX_PACKET_SIZE - 1)
      [(0 :: u8, ''use shop''), (0, ''Begin'')] [Use ''shop'', Begin_txn]"
    using sample_means by (simp add: MAX_PACKET_SIZE_def)
  from session_refines [OF two_pipes_duplex this, of ?c 0 "[]" sample_services] show ?thesis
    by (auto simp: mc_new_def mc_view_def)
qed

text \<open>No client leaks a pooled connection: whatever the client and the backends send, and however
  the session ends, a session that ends has called the pools in pairs only: each connection it
  acquired was released exactly once, to the pool it came from, before the next was acquired.\<close>

lemma session_no_leak:
  assumes "traced S tr" and "mc_run S send recv rand_bytes node c = Some (r, c')"
  shows "\<exists>evs. tr (mc_ext c') = tr (mc_ext c) @ evs \<and> balanced evs"
  using pool_calls.run_related [OF assms(2), of tr] assms(1) by (simp add: grows_def)

lemma hangup_returns:
  assumes "reliable_send send sent" "length (hs_encode hs) < MAX_PACKET_SIZE"
    "generate_auth_data rand_bytes (default_HandshakeV10\<lparr>hs_connection_id := mc_connection_id c,
            hs_server_version := (if node_name node = [] then ''8.0.30-dbmesh'' else ''8.0.30-dbmesh-'' @ node_name node)\<rparr>) = Some hs"
  shows "\<exists>c'. mc_run S send (\<lambda>s n. (None, s)) rand_bytes node c = Some (Ok (), c')"
proof -
  from mc_send_small [OF assms(1,2), of "c\<lparr>mc_seq := 0\<rparr>"] obtain sock where
    "mc_send send (hs_encode hs) (c\<lparr>mc_seq := 0\<rparr>) = Some (Ok (), c\<lparr>mc_seq := 0 + 1, mc_socket := sock\<rparr>)" by auto
  then show ?thesis using assms(3) by (simp add: mc_run_def do_run_def read_packet_def)
qed

text \<open>\<open>SET AUTOCOMMIT = 0\<close> written with whitespace before the equals sign turns autocommit on,
  whatever the value: the 16 characters that are looked at end before the value.\<close>

lemma autocommit_spaced_ignored:
  assumes "\<forall>c \<in> set lead. isspace c" and "map toupper kw = ''SET''" and "\<forall>c \<in> set ws. isspace c" and "ws \<noteq> []"
    and "map toupper kw2 = ''AUTOCOMMIT''" and "\<forall>c \<in> set ws2. isspace c" and "ws2 \<noteq> []"
  shows "handle_com_query S send (query_packet (lead @ kw @ ws @ kw2 @ ws2 @ r)) c = send_ok send (c\<lparr>mc_autocommit := True\<rparr>)"
  unfolding query_packet_def using assms by (rule handle_autocommit_spaced)

text \<open>A statement that starts with a comment is always forwarded, also when the classifier, which
  strips comments, sees a \<open>BEGIN\<close>: the transaction is opened on a pooled connection that goes back to
  its pool, and the session does not record it.\<close>

lemma comment_begin_forwarded:
  "handle_com_query S send (query_packet (''/*'' @ r)) c = route_and_forward S send (query_packet (''/*'' @ r)) (''/*'' @ r) c \<and>
   classify ''/**/BEGIN'' = BEGIN"
proof -
  have "classify ''/**/BEGIN'' = BEGIN" by code_simp
  then show ?thesis using handle_comment by blast
qed

end
