(* ===== verification/PoolSystem.thy ===== *)
theory PoolSystem
  imports ConnectionPool
begin

text \<open>
  The coroutines that use one pool, as a transition system: each task is suspended at a
  \<open>co_await\<close> of \<open>connection_pool.cpp\<close> or holds a connection, and a step runs one handler on the
  strand, in any order. Exclusivity of connections, exact metrics and freedom from use after
  free are invariants of every interleaving.
\<close>

section \<open>Tasks and steps\<close>

datatype task = Creating | Waiting nat | Holding caddr | Warming nat | Reaping

record sys =
  sy_pool :: ConnectionPool
  sy_tasks :: "nat \<Rightarrow> task option"

fun task_of :: "acquire_outcome \<Rightarrow> task option" where
  "task_of (Acquired a) = Some (Holding a)"
| "task_of Connect = Some Creating"
| "task_of (Wait w) = Some (Waiting w)"
| "task_of (Failed e) = None"

definition sys_new :: "BackendID \<Rightarrow> PoolConfig \<Rightarrow> sys" where
  "sys_new b c = \<lparr>sy_pool = cp_new b c, sy_tasks = (\<lambda>_. None)\<rparr>"

inductive pool_step :: "sys \<Rightarrow> sys \<Rightarrow> bool" where
  ps_acquire: "sy_tasks s t = None \<Longrightarrow> acquire_start now (sy_pool s) = Some (r, p') \<Longrightarrow>
    pool_step s \<lparr>sy_pool = p', sy_tasks = (sy_tasks s)(t := task_of r)\<rparr>"
| ps_created: "sy_tasks s t = Some Creating \<Longrightarrow> a \<notin> set (cp_all (sy_pool s)) \<Longrightarrow>
    acquire_created a res now (sy_pool s) = Some (r, p') \<Longrightarrow>
    pool_step s \<lparr>sy_pool = p', sy_tasks = (sy_tasks s)(t := task_of r)\<rparr>"
| ps_woken: "sy_tasks s t = Some (Waiting w) \<Longrightarrow> acquire_woken w (sy_pool s) = (r, p') \<Longrightarrow>
    pool_step s \<lparr>sy_pool = p', sy_tasks = (sy_tasks s)(t := task_of r)\<rparr>"
| ps_release: "sy_tasks s t = Some (Holding a) \<Longrightarrow> release a healthy now (sy_pool s) = Some p' \<Longrightarrow>
    pool_step s \<lparr>sy_pool = p', sy_tasks = (sy_tasks s)(t := None)\<rparr>"
| ps_close: "sy_tasks s t = Some (Holding a) \<Longrightarrow>
    upd_conn a (\<lambda>x. x\<lparr>px_open := False\<rparr>) (sy_pool s) = Some p' \<Longrightarrow>
    pool_step s \<lparr>sy_pool = p', sy_tasks = sy_tasks s\<rparr>"
| ps_warm: "sy_tasks s t = None \<Longrightarrow>
    pool_step s \<lparr>sy_pool = sy_pool s, sy_tasks = (sy_tasks s)(t := map_option Warming (warm_next 0 (sy_pool s)))\<rparr>"
| ps_warm_created: "sy_tasks s t = Some (Warming i) \<Longrightarrow> a \<notin> set (cp_all (sy_pool s)) \<Longrightarrow>
    warm_created i a res now (sy_pool s) = Some (n, p') \<Longrightarrow>
    pool_step s \<lparr>sy_pool = p', sy_tasks = (sy_tasks s)(t := map_option Warming n)\<rparr>"
| ps_reaper_start: "sy_tasks s t = None \<Longrightarrow> \<not> cp_shutting_down (sy_pool s) \<Longrightarrow>
    pool_step s \<lparr>sy_pool = sy_pool s, sy_tasks = (sy_tasks s)(t := Some Reaping)\<rparr>"
| ps_reap: "sy_tasks s t = Some Reaping \<Longrightarrow> \<not> cp_shutting_down (sy_pool s) \<Longrightarrow>
    reap now (sy_pool s) = Some p' \<Longrightarrow> pool_step s \<lparr>sy_pool = p', sy_tasks = sy_tasks s\<rparr>"
| ps_reaper_stop: "sy_tasks s t = Some Reaping \<Longrightarrow> cp_shutting_down (sy_pool s) \<Longrightarrow>
    pool_step s \<lparr>sy_pool = sy_pool s, sy_tasks = (sy_tasks s)(t := None)\<rparr>"
| ps_drain: "set (it (cp_active (sy_pool s))) = cp_active (sy_pool s) \<Longrightarrow> drain it (sy_pool s) = Some p' \<Longrightarrow>
    pool_step s \<lparr>sy_pool = p', sy_tasks = sy_tasks s\<rparr>"

section \<open>Ownership\<close>

text \<open>A task owns the connection it holds, or the one that was handed to its waiter.\<close>

fun owns :: "ConnectionPool \<Rightarrow> task \<Rightarrow> caddr option" where
  "owns p (Holding a) = Some a"
| "owns p (Waiting w) = cp_result p w"
| "owns p _ = None"

definition owner :: "sys \<Rightarrow> nat \<Rightarrow> caddr option" where
  "owner s t = Option.bind (sy_tasks s t) (owns (sy_pool s))"

definition excl :: "(nat \<Rightarrow> caddr option) \<Rightarrow> caddr set \<Rightarrow> bool" where
  "excl f A \<longleftrightarrow> ran f = A \<and> (\<forall>t t' a. f t = Some a \<longrightarrow> f t' = Some a \<longrightarrow> t = t')"

lemma excl_add: "excl f A \<Longrightarrow> f t = None \<Longrightarrow> a \<notin> A \<Longrightarrow> excl (f(t \<mapsto> a)) (insert a A)"
  by (auto simp: excl_def ran_map_upd intro: ranI)

lemma excl_del: "excl f A \<Longrightarrow> f t = Some a \<Longrightarrow> excl (f(t := None)) (A - {a})"
  by (auto simp: excl_def ran_def split: if_splits) (metis option.inject)+

lemma excl_move: "excl f A \<Longrightarrow> f t = Some a \<Longrightarrow> f u = None \<Longrightarrow> excl (f(t := None, u \<mapsto> a)) A"
proof -
  assume "excl f A" "f t = Some a" "f u = None"
  moreover have "a \<in> A" using calculation by (auto simp: excl_def ran_def)
  ultimately show ?thesis
    using excl_add [OF excl_del, of f A t a u a] by (simp add: insert_absorb)
qed

definition waiters_ok :: "sys \<Rightarrow> bool" where
  "waiters_ok s \<longleftrightarrow>
     (\<forall>t w. sy_tasks s t = Some (Waiting w) \<longrightarrow> w < cp_next_waiter (sy_pool s)) \<and>
     (\<forall>t t' w. sy_tasks s t = Some (Waiting w) \<longrightarrow> sy_tasks s t' = Some (Waiting w) \<longrightarrow> t = t') \<and>
     (\<forall>w \<in> set (cp_waiters (sy_pool s)). \<exists>t. sy_tasks s t = Some (Waiting w))"

text \<open>Before the pool shuts down, the owned connections are exactly the active ones, each owned once, and
  a waiting task is either queued or already has its connection.\<close>

definition owners_ok :: "sys \<Rightarrow> bool" where
  "owners_ok s \<longleftrightarrow>
     excl (owner s) (cp_active (sy_pool s)) \<and>
     (\<forall>t w. sy_tasks s t = Some (Waiting w) \<longrightarrow>
       w \<in> set (cp_waiters (sy_pool s)) \<or> cp_result (sy_pool s) w \<noteq> None)"

definition sys_inv :: "sys \<Rightarrow> bool" where
  "sys_inv s \<longleftrightarrow> pool_inv (sy_pool s) \<and> waiters_ok s \<and> (\<not> cp_shutting_down (sy_pool s) \<longrightarrow> owners_ok s)"

lemma sys_inv_new: "sys_inv (sys_new b c)"
proof -
  have "owner (sys_new b c) = (\<lambda>_. None)" by (simp add: fun_eq_iff owner_def sys_new_def)
  then show ?thesis
    using pool_inv_new [of b c]
    by (simp add: sys_inv_def waiters_ok_def owners_ok_def excl_def sys_new_def) (simp add: cp_new_def)
qed

section \<open>Steps that leave the waiters alone\<close>

lemma owns_cong: "cp_result p' = cp_result p \<Longrightarrow> owns p' k = owns p k"
  by (cases k) simp_all

lemma owner_upd:
  assumes "cp_result p' = cp_result (sy_pool s)"
  shows "owner \<lparr>sy_pool = p', sy_tasks = (sy_tasks s)(t := k)\<rparr> = (owner s)(t := Option.bind k (owns p'))"
  using owns_cong [OF assms] by (auto simp: owner_def fun_eq_iff intro!: Option.bind_cong)

text \<open>The fields that waiters and ownership depend on.\<close>

definition same_queue :: "ConnectionPool \<Rightarrow> ConnectionPool \<Rightarrow> bool" where
  "same_queue p p' \<longleftrightarrow> cp_waiters p' = cp_waiters p \<and> cp_result p' = cp_result p \<and>
     cp_next_waiter p' = cp_next_waiter p \<and> cp_shutting_down p' = cp_shutting_down p"

lemma waiting_task: "waiters_ok s \<Longrightarrow> w \<in> set (cp_waiters (sy_pool s)) \<Longrightarrow> \<exists>t. sy_tasks s t = Some (Waiting w)"
  unfolding waiters_ok_def by blast

lemma waiters_ok_task:
  assumes "waiters_ok s" "same_queue (sy_pool s) p'"
    "\<forall>w. sy_tasks s t \<noteq> Some (Waiting w)" "\<forall>w. k \<noteq> Some (Waiting w)"
  shows "waiters_ok \<lparr>sy_pool = p', sy_tasks = (sy_tasks s)(t := k)\<rparr>"
proof -
  have "\<exists>t'. ((sy_tasks s)(t := k)) t' = Some (Waiting w)" if w: "w \<in> set (cp_waiters (sy_pool s))" for w
  proof -
    obtain t' where "sy_tasks s t' = Some (Waiting w)" using waiting_task [OF assms(1) w] by blast
    moreover from this assms(3) have "t' \<noteq> t" by auto
    ultimately show ?thesis by (intro exI [of _ t']) simp
  qed
  then show ?thesis using assms by (auto simp: waiters_ok_def same_queue_def)
qed

lemma sys_inv_task:
  assumes "sys_inv s" "pool_inv p'" "same_queue (sy_pool s) p'"
    and "\<forall>w. sy_tasks s t \<noteq> Some (Waiting w)" "\<forall>w. k \<noteq> Some (Waiting w)"
    and "\<not> cp_shutting_down (sy_pool s) \<Longrightarrow> excl (owner s) (cp_active (sy_pool s)) \<Longrightarrow>
      excl ((owner s)(t := Option.bind k (owns p'))) (cp_active p')"
  shows "sys_inv \<lparr>sy_pool = p', sy_tasks = (sy_tasks s)(t := k)\<rparr>"
proof -
  have "owner \<lparr>sy_pool = p', sy_tasks = (sy_tasks s)(t := k)\<rparr> = (owner s)(t := Option.bind k (owns p'))"
    using assms(3) by (intro owner_upd) (simp add: same_queue_def)
  then show ?thesis
    using assms waiters_ok_task [of s p' t k] by (auto simp: sys_inv_def owners_ok_def same_queue_def)
qed

lemma owner_none: "sy_tasks s t = None \<Longrightarrow> owner s t = None"
  by (simp add: owner_def)

lemma owner_idle: "sy_tasks s t = Some k \<Longrightarrow> owns (sy_pool s) k = None \<Longrightarrow> owner s t = None"
  by (simp add: owner_def)

lemma fun_upd_None: "f t = None \<Longrightarrow> f(t := None) = f"
  by auto

lemma created_step:
  assumes "sys_inv s" "sy_tasks s t = Some Creating" "a \<notin> set (cp_all (sy_pool s))"
    "acquire_created a res now (sy_pool s) = Some (r, p')"
  shows "sys_inv \<lparr>sy_pool = p', sy_tasks = (sy_tasks s)(t := task_of r)\<rparr>"
proof -
  have inv: "pool_inv (sy_pool s)" using assms(1) by (simp add: sys_inv_def)
  have "a \<notin> cp_active (sy_pool s)" using inv assms(3) by (auto simp: pool_inv_def pool_struct_def)
  moreover have "owner s t = None" using assms(2) by (simp add: owner_def)
  moreover have "pool_inv p'" using acquire_created_inv [OF inv assms(3), of res now] assms(4) by simp
  ultimately show ?thesis
    using assms excl_add [of "owner s" "cp_active (sy_pool s)" t a]
    by (intro sys_inv_task)
       (auto simp: acquire_created_def upd_conn_def track_def sync_metrics_def same_queue_def fun_upd_None
         split: result.splits)
qed

lemma warm_created_step:
  assumes "sys_inv s" "sy_tasks s t = Some (Warming i)" "a \<notin> set (cp_all (sy_pool s))"
    "warm_created i a res now (sy_pool s) = Some (n, p')"
  shows "sys_inv \<lparr>sy_pool = p', sy_tasks = (sy_tasks s)(t := map_option Warming n)\<rparr>"
proof -
  have inv: "pool_inv (sy_pool s)" using assms(1) by (simp add: sys_inv_def)
  have "owner s t = None" using assms(2) by (simp add: owner_def)
  moreover have "pool_inv p'" using warm_created_inv [OF inv assms(3), of i res now] assms(4) by simp
  moreover have "Option.bind (map_option Warming n) (owns p') = None" by (cases n) simp_all
  ultimately show ?thesis
    using assms
    by (intro sys_inv_task)
       (auto simp: warm_created_def upd_conn_def track_def sync_metrics_def same_queue_def fun_upd_None Let_def
         split: result.splits)
qed

lemma same_tasks: "\<lparr>sy_pool = p', sy_tasks = sy_tasks s\<rparr> = \<lparr>sy_pool = p', sy_tasks = (sy_tasks s)(t := sy_tasks s t)\<rparr>"
  by simp

lemma sys_inv_pool:
  assumes "sys_inv s" "pool_inv p'" "same_queue (sy_pool s) p'" "cp_active p' = cp_active (sy_pool s)"
  shows "sys_inv \<lparr>sy_pool = p', sy_tasks = sy_tasks s\<rparr>"
proof -
  have "owner \<lparr>sy_pool = p', sy_tasks = sy_tasks s\<rparr> = owner s"
    using owns_cong [of p' "sy_pool s"] assms(3)
    by (auto simp: owner_def fun_eq_iff same_queue_def intro!: Option.bind_cong)
  then show ?thesis
    using assms by (auto simp: sys_inv_def owners_ok_def waiters_ok_def same_queue_def)
qed

lemma close_step:
  assumes "sys_inv s" "upd_conn a (\<lambda>x. x\<lparr>px_open := False\<rparr>) (sy_pool s) = Some p'"
  shows "sys_inv \<lparr>sy_pool = p', sy_tasks = sy_tasks s\<rparr>"
proof -
  obtain x where x: "cp_heap (sy_pool s) a = Some x"
    and p': "p' = (sy_pool s)\<lparr>cp_heap := (cp_heap (sy_pool s))(a \<mapsto> x\<lparr>px_open := False\<rparr>)\<rparr>"
    using assms(2) by (auto simp: upd_conn_def split: bind_splits)
  have "pool_inv p'"
    using assms(1) x by (auto simp: p' sys_inv_def pool_inv_def pool_struct_def synced_def split: if_splits)
  then show ?thesis using assms(1) by (intro sys_inv_pool) (simp_all add: p' same_queue_def)
qed

lemma reap_step:
  assumes "sys_inv s" "reap now (sy_pool s) = Some p'"
  shows "sys_inv \<lparr>sy_pool = p', sy_tasks = sy_tasks s\<rparr>"
proof -
  have "pool_inv (sy_pool s)" using assms(1) by (simp add: sys_inv_def)
  from reap_inv [OF this, of now] assms(2) have inv: "pool_inv p'" and
    eq: "p' = (sy_pool s)\<lparr>cp_all := cp_all p', cp_heap := cp_heap p', cp_free_list := cp_free_list p',
      cp_free_count := cp_free_count p', cp_total_count := cp_total_count p'\<rparr>"
    by auto
  have "same_queue (sy_pool s) p'" "cp_active p' = cp_active (sy_pool s)"
    unfolding same_queue_def by (subst eq, simp)+
  with inv show ?thesis using assms(1) by (intro sys_inv_pool)
qed

lemma drain_step:
  assumes "sys_inv s" "set (it (cp_active (sy_pool s))) = cp_active (sy_pool s)" "drain it (sy_pool s) = Some p'"
  shows "sys_inv \<lparr>sy_pool = p', sy_tasks = sy_tasks s\<rparr>"
proof -
  have inv: "pool_inv (sy_pool s)" using assms(1) by (simp add: sys_inv_def)
  obtain res where p': "p' = sync_metrics ((sy_pool s)\<lparr>cp_shutting_down := True, cp_result := res,
    cp_waiters := [], cp_free_list := [], cp_active := {}, cp_all := [], cp_heap := (\<lambda>_. None)\<rparr>)"
    using drain_eq [of "sy_pool s" it, OF inv assms(2)] assms(3) by auto
  have "pool_inv p'" using drain_inv [of "sy_pool s" it, OF inv assms(2)] assms(3) by simp
  then show ?thesis
    using assms(1) by (simp add: sys_inv_def waiters_ok_def) (simp add: p' sync_metrics_def)
qed

section \<open>Steps of the waiters\<close>

lemma acquire_step:
  assumes "sys_inv s" "sy_tasks s t = None" "acquire_start now (sy_pool s) = Some (r, p')"
  shows "sys_inv \<lparr>sy_pool = p', sy_tasks = (sy_tasks s)(t := task_of r)\<rparr>"
proof -
  let ?p = "sy_pool s"
  have inv: "pool_inv ?p" using assms(1) by (simp add: sys_inv_def)
  have inv': "pool_inv p'" using acquire_start_inv [OF inv, of now] assms(3) by simp
  have none: "owner s t = None" using assms(2) by (simp add: owner_def)
  show ?thesis
  proof (cases "\<exists>w. r = Wait w")
    case False
    have "c \<notin> cp_active ?p" if "cp_free_list ?p = c # cs" for c cs
      using inv that by (auto simp: pool_inv_def pool_struct_def)
    then show ?thesis
      using assms inv' none excl_add [of "owner s" "cp_active ?p" t] False
      by (intro sys_inv_task)
         (auto simp: acquire_start_def upd_conn_def sync_metrics_def same_queue_def fun_upd_None Let_def
           split: if_splits list.splits bind_splits)
  next
    case True
    let ?w = "cp_next_waiter ?p"
    from True assms(3) have r: "r = Wait ?w" and sd: "\<not> cp_shutting_down ?p" and
      p': "p' = sync_metrics (?p\<lparr>cp_waiters := cp_waiters ?p @ [?w], cp_next_waiter := ?w + 1,
        cp_result := (cp_result ?p)(?w := None)\<rparr>)"
      by (auto simp: acquire_start_def Let_def split: if_splits list.splits bind_splits)
    have fresh: "sy_tasks s t' \<noteq> Some (Waiting ?w)" for t'
      using assms(1) by (auto simp: sys_inv_def waiters_ok_def)
    have "owner \<lparr>sy_pool = p', sy_tasks = (sy_tasks s)(t \<mapsto> Waiting ?w)\<rparr> t' = owner s t'" for t'
    proof (cases "t' = t")
      case False
      have "owns p' k = owns ?p k" if "sy_tasks s t' = Some k" for k
        using that fresh [of t'] by (cases k) (auto simp: p' sync_metrics_def)
      then show ?thesis using False by (auto simp: owner_def split: bind_split)
    qed (simp add: owner_def p' sync_metrics_def assms(2))
    then have own: "owner \<lparr>sy_pool = p', sy_tasks = (sy_tasks s)(t \<mapsto> Waiting ?w)\<rparr> = owner s" by auto
    have "waiters_ok \<lparr>sy_pool = p', sy_tasks = (sy_tasks s)(t \<mapsto> Waiting ?w)\<rparr>"
    proof -
      have "\<exists>t'. ((sy_tasks s)(t \<mapsto> Waiting ?w)) t' = Some (Waiting w)" if w: "w \<in> set (cp_waiters ?p)" for w
      proof -
        obtain t' where "sy_tasks s t' = Some (Waiting w)"
          using waiting_task [OF _ w] assms(1) by (auto simp: sys_inv_def)
        with assms(2) show ?thesis by (intro exI [of _ t']) auto
      qed
      then show ?thesis
        using assms(1) fresh by (auto simp: sys_inv_def waiters_ok_def p' sync_metrics_def less_Suc_eq)
    qed
    moreover have "w \<in> set (cp_waiters p') \<or> cp_result p' w \<noteq> None"
      if "((sy_tasks s)(t \<mapsto> Waiting ?w)) t' = Some (Waiting w)" for t' w
    proof (cases "w = ?w")
      case False
      then have "sy_tasks s t' = Some (Waiting w)" using that by (auto split: if_splits)
      then have "w \<in> set (cp_waiters ?p) \<or> cp_result ?p w \<noteq> None"
        using assms(1) sd by (auto simp: sys_inv_def owners_ok_def)
      with False show ?thesis by (simp add: p' sync_metrics_def)
    qed (simp add: p' sync_metrics_def)
    moreover have "cp_active p' = cp_active ?p" by (simp add: p' sync_metrics_def)
    ultimately show ?thesis
      using assms(1) inv' sd own r unfolding sys_inv_def owners_ok_def by simp
  qed
qed

lemma woken_step:
  assumes "sys_inv s" "sy_tasks s t = Some (Waiting w)" "acquire_woken w (sy_pool s) = (r, p')"
  shows "sys_inv \<lparr>sy_pool = p', sy_tasks = (sy_tasks s)(t := task_of r)\<rparr>"
proof -
  let ?p = "sy_pool s" and ?s' = "\<lparr>sy_pool = p', sy_tasks = (sy_tasks s)(t := task_of r)\<rparr>"
  have inv: "pool_inv ?p" using assms(1) by (simp add: sys_inv_def)
  have inv': "pool_inv p'" using acquire_woken_inv [OF inv, of w] assms(3) by simp
  have res: "cp_result p' = cp_result ?p" "cp_active p' = cp_active ?p" "cp_shutting_down p' = cp_shutting_down ?p"
    "cp_next_waiter p' = cp_next_waiter ?p"
    and ws: "set (cp_waiters p') = set (cp_waiters ?p) - {w}"
    and ow: "Option.bind (task_of r) (owns p') = owner s t"
    and nw: "\<forall>w. task_of r \<noteq> Some (Waiting w)"
    using assms(2,3) inv
    by (auto simp: acquire_woken_def sync_metrics_def owner_def pool_inv_def pool_struct_def split: option.splits)
  have "owner ?s' = owner s" using owner_upd [OF res(1), of t "task_of r"] ow by auto
  moreover have "waiters_ok ?s'"
  proof -
    have "\<exists>t'. ((sy_tasks s)(t := task_of r)) t' = Some (Waiting v)" if v: "v \<in> set (cp_waiters ?p) - {w}" for v
    proof -
      obtain t' where "sy_tasks s t' = Some (Waiting v)"
        using waiting_task [of s v] v assms(1) by (auto simp: sys_inv_def)
      with v assms(2) show ?thesis by (intro exI [of _ t']) auto
    qed
    then show ?thesis using assms(1) nw ws res by (auto simp: sys_inv_def waiters_ok_def)
  qed
  moreover have "v \<noteq> w" if "((sy_tasks s)(t := task_of r)) t' = Some (Waiting v)" for t' v
    using that nw assms(1,2) by (auto simp: sys_inv_def waiters_ok_def split: if_splits)
  ultimately show ?thesis
    using assms(1) inv' res ws nw unfolding sys_inv_def owners_ok_def by (auto split: if_splits)
qed

lemma release_cases:
  assumes "release a healthy now p = Some p'"
  obtains (unknown) "a \<notin> cp_active p" "p' = p"
  | (returned) "a \<in> cp_active p" "same_queue p p'" "cp_active p' = cp_active p - {a}"
  | (handed) w ws where "a \<in> cp_active p" "\<not> cp_shutting_down p" "cp_waiters p = w # ws" "cp_waiters p' = ws"
      "cp_result p' = (cp_result p)(w \<mapsto> a)" "cp_active p' = cp_active p" "cp_next_waiter p' = cp_next_waiter p"
      "cp_shutting_down p' = cp_shutting_down p"
proof (cases "a \<in> cp_active p")
  case True
  then obtain x where x: "cp_heap p a = Some x"
    using assms by (cases "cp_heap p a") (auto simp: release_def)
  show thesis
  proof (cases "\<not> healthy \<or> cp_shutting_down p \<or> \<not> px_open x")
    case drop: True
    then have "same_queue p p'" "cp_active p' = cp_active p - {a}"
      using assms True x by (auto simp: release_def upd_conn_def same_queue_def Let_def pool_defs)
    with True show thesis by (rule returned)
  next
    case keep: False
    show thesis
    proof (cases "cp_waiters p")
      case Nil
      then have "same_queue p p'" "cp_active p' = cp_active p - {a}"
        using assms True x keep by (auto simp: release_def upd_conn_def same_queue_def Let_def pool_defs)
      with True show thesis by (rule returned)
    next
      case (Cons w ws)
      then have "cp_waiters p' = ws" "cp_result p' = (cp_result p)(w \<mapsto> a)" "cp_active p' = cp_active p"
        "cp_next_waiter p' = cp_next_waiter p" "cp_shutting_down p' = cp_shutting_down p"
        using assms True x keep by (auto simp: release_def upd_conn_def Let_def pool_defs)
      with True keep Cons show thesis by (intro handed) auto
    qed
  qed
next
  case False
  moreover from this assms have "p' = p" by (simp add: release_def)
  ultimately show thesis by (rule unknown)
qed

lemma handed_step:
  assumes "sys_inv s" "sy_tasks s t = Some (Holding a)" "pool_inv p'"
    and q: "a \<in> cp_active (sy_pool s)" "\<not> cp_shutting_down (sy_pool s)" "cp_waiters (sy_pool s) = w # ws"
      "cp_waiters p' = ws" "cp_result p' = (cp_result (sy_pool s))(w \<mapsto> a)" "cp_active p' = cp_active (sy_pool s)"
      "cp_next_waiter p' = cp_next_waiter (sy_pool s)" "cp_shutting_down p' = cp_shutting_down (sy_pool s)"
  shows "sys_inv \<lparr>sy_pool = p', sy_tasks = (sy_tasks s)(t := None)\<rparr>"
proof -
  let ?p = "sy_pool s" and ?s' = "\<lparr>sy_pool = p', sy_tasks = (sy_tasks s)(t := None)\<rparr>"
  from assms(1) q(2) have inv: "waiters_ok s" "owners_ok s" "pool_inv ?p" by (simp_all add: sys_inv_def)
  obtain u where u: "sy_tasks s u = Some (Waiting w)" using waiting_task [OF inv(1), of w] q(3) by auto
  have only: "t' = u" if "sy_tasks s t' = Some (Waiting w)" for t'
    using that u inv(1) unfolding waiters_ok_def by blast
  have w: "cp_result ?p w = None" "w \<notin> set ws" using inv(3) q(3) by (auto simp: pool_inv_def pool_struct_def)
  have "owner ?s' t' = ((owner s)(t := None, u \<mapsto> a)) t'" for t'
  proof (cases "sy_tasks s t'")
    case (Some k)
    then show ?thesis
      using only [of t'] u assms(2) q(5) by (cases k) (auto simp: owner_def)
  qed (use u assms(2) in \<open>auto simp: owner_def\<close>)
  then have "owner ?s' = (owner s)(t := None, u \<mapsto> a)" by auto
  moreover have "owner s t = Some a" "owner s u = None" using assms(2) u w(1) by (simp_all add: owner_def)
  ultimately have "excl (owner ?s') (cp_active p')"
    using excl_move [of "owner s" "cp_active ?p" t a u] inv(2) q(6) by (simp add: owners_ok_def)
  moreover have "waiters_ok ?s'"
  proof -
    have "\<exists>t'. ((sy_tasks s)(t := None)) t' = Some (Waiting v)" if v: "v \<in> set ws" for v
    proof -
      obtain t' where "sy_tasks s t' = Some (Waiting v)" using waiting_task [OF inv(1), of v] q(3) v by auto
      with assms(2) show ?thesis by (intro exI [of _ t']) auto
    qed
    then show ?thesis using inv(1) q unfolding waiters_ok_def by auto
  qed
  moreover have "v \<in> set ws \<or> cp_result p' v \<noteq> None" if "((sy_tasks s)(t := None)) t' = Some (Waiting v)" for t' v
  proof -
    have "sy_tasks s t' = Some (Waiting v)" using that by (auto split: if_splits)
    then have "v \<in> set (w # ws) \<or> cp_result ?p v \<noteq> None" using inv(2) q(3) by (auto simp: owners_ok_def)
    then show ?thesis using q(5) by auto
  qed
  ultimately show ?thesis
    using assms(3) q(4) unfolding sys_inv_def owners_ok_def by simp
qed

lemma release_step:
  assumes "sys_inv s" "sy_tasks s t = Some (Holding a)" "release a healthy now (sy_pool s) = Some p'"
  shows "sys_inv \<lparr>sy_pool = p', sy_tasks = (sy_tasks s)(t := None)\<rparr>"
proof -
  have inv: "pool_inv (sy_pool s)" using assms(1) by (simp add: sys_inv_def)
  have inv': "pool_inv p'" using release_inv [OF inv, of a healthy now] assms(3) by simp
  have own: "owner s t = Some a" using assms(2) by (simp add: owner_def)
  from assms(3) show ?thesis
  proof (cases rule: release_cases)
    case unknown
    have "excl (owner s) (cp_active (sy_pool s)) \<Longrightarrow> a \<in> cp_active (sy_pool s)"
      using own by (auto simp: excl_def intro: ranI)
    with unknown inv show ?thesis
      using assms(1,2) by (intro sys_inv_task) (auto simp: same_queue_def)
  next
    case returned
    then show ?thesis
      using assms(1,2) inv' own excl_del [of "owner s" "cp_active (sy_pool s)" t a]
      by (intro sys_inv_task) auto
  next
    case (handed w ws)
    then show ?thesis by (rule handed_step [OF assms(1,2) inv'])
  qed
qed

lemma idle_task_step:
  assumes "sys_inv s" "owner s t = None" "\<forall>w. sy_tasks s t \<noteq> Some (Waiting w)" "\<forall>w. k \<noteq> Some (Waiting w)"
    "Option.bind k (owns (sy_pool s)) = None"
  shows "sys_inv \<lparr>sy_pool = sy_pool s, sy_tasks = (sy_tasks s)(t := k)\<rparr>"
  using assms by (intro sys_inv_task) (auto simp: sys_inv_def same_queue_def fun_upd_None)

lemma sys_inv_step: "pool_step s s' \<Longrightarrow> sys_inv s \<Longrightarrow> sys_inv s'"
proof (induction rule: pool_step.induct)
  case (ps_warm s t)
  have "Option.bind (map_option Warming n) (owns (sy_pool s)) = None" for n by (cases n) simp_all
  with ps_warm show ?case by (intro idle_task_step) (auto simp: owner_def)
next
  case (ps_reaper_start s t)
  then show ?case by (intro idle_task_step) (auto simp: owner_def)
next
  case (ps_reaper_stop s t)
  then show ?case by (intro idle_task_step) (auto simp: owner_def)
qed (auto intro: acquire_step created_step woken_step release_step close_step warm_created_step reap_step
    drain_step)

interpretation pool_sys: inductive_invariant "\<lambda>s. \<exists>b c. s = sys_new b c" pool_step sys_inv
  by unfold_locales (auto intro: sys_inv_new sys_inv_step)

section \<open>Running a schedule\<close>

text \<open>A schedule names the handler of each step; a schedule that runs is a path of the step relation.\<close>

datatype pool_op =
    OpAcquire nat | OpCreated nat caddr "(bool, PoolError) result" | OpWoken nat
  | OpRelease nat bool | OpDrain

fun exec_op :: "pool_op \<Rightarrow> sys \<Rightarrow> sys option" where
  "exec_op (OpAcquire t) s =
     (if sy_tasks s t = None
      then do { (r, p') \<leftarrow> acquire_start 0 (sy_pool s);
                Some \<lparr>sy_pool = p', sy_tasks = (sy_tasks s)(t := task_of r)\<rparr> }
      else None)"
| "exec_op (OpCreated t a res) s =
     (if sy_tasks s t = Some Creating \<and> a \<notin> set (cp_all (sy_pool s))
      then do { (r, p') \<leftarrow> acquire_created a res 0 (sy_pool s);
                Some \<lparr>sy_pool = p', sy_tasks = (sy_tasks s)(t := task_of r)\<rparr> }
      else None)"
| "exec_op (OpWoken t) s =
     (case sy_tasks s t of
        Some (Waiting w) \<Rightarrow>
          (let (r, p') = acquire_woken w (sy_pool s)
           in Some \<lparr>sy_pool = p', sy_tasks = (sy_tasks s)(t := task_of r)\<rparr>)
      | _ \<Rightarrow> None)"
| "exec_op (OpRelease t healthy) s =
     (case sy_tasks s t of
        Some (Holding a) \<Rightarrow> do { p' \<leftarrow> release a healthy 0 (sy_pool s);
                                 Some \<lparr>sy_pool = p', sy_tasks = (sy_tasks s)(t := None)\<rparr> }
      | _ \<Rightarrow> None)"
| "exec_op OpDrain s =
     (if set (sorted_list_of_set (cp_active (sy_pool s))) = cp_active (sy_pool s)
      then do { p' \<leftarrow> drain sorted_list_of_set (sy_pool s); Some \<lparr>sy_pool = p', sy_tasks = sy_tasks s\<rparr> }
      else None)"

fun exec :: "pool_op list \<Rightarrow> sys \<Rightarrow> sys option" where
  "exec [] s = Some s"
| "exec (x # xs) s = do { s' \<leftarrow> exec_op x s; exec xs s' }"

lemma exec_op_step: "exec_op x s = Some s' \<Longrightarrow> pool_step s s'"
  by (cases x)
     (auto split: if_splits bind_splits option.splits task.splits prod.splits
       intro: ps_acquire ps_created ps_woken ps_release ps_drain)

lemma exec_reachable: "exec xs s = Some s' \<Longrightarrow> pool_step\<^sup>*\<^sup>* s s'"
  by (induction xs arbitrary: s)
     (auto split: bind_splits dest: exec_op_step intro: converse_rtranclp_into_rtranclp)

declare exec.simps [simp del] exec_op.simps [simp del]

definition tiny :: sys where
  "tiny = sys_new ''b'' (default_PoolConfig\<lparr>pool_max := 1\<rparr>)"

lemmas exec_defs = exec.simps exec_op.simps tiny_def sys_new_def cp_new_def default_PoolConfig_def acquire_start_def acquire_created_def
  acquire_woken_def release_def drain_def track_def untrack_def upd_conn_def sync_metrics_def Let_def

lemma tiny_reachable:
  assumes "exec xs tiny = Some s"
  shows "pool_step\<^sup>*\<^sup>* (sys_new ''b'' (default_PoolConfig\<lparr>pool_max := 1\<rparr>)) s"
  using exec_reachable [OF assms] by (simp add: tiny_def)

section \<open>Properties\<close>

text \<open>C4. While the pool is running, no two tasks ever hold the same connection: in every reachable
  state a held connection is tracked, active and in use, not in the free list, and held by one
  task only.\<close>

theorem pool_exclusive:
  assumes "pool_step\<^sup>*\<^sup>* (sys_new b c) s" and "\<not> cp_shutting_down (sy_pool s)"
    and "sy_tasks s t = Some (Holding a)"
  shows "a \<in> cp_active (sy_pool s) \<and> a \<notin> set (cp_free_list (sy_pool s)) \<and>
    map_option px_state (cp_heap (sy_pool s) a) = Some IN_USE \<and>
    (\<forall>t'. sy_tasks s t' = Some (Holding a) \<longrightarrow> t' = t)"
proof -
  have inv: "sys_inv s" using pool_sys.reachable_inv assms(1) by blast
  then have ex: "excl (owner s) (cp_active (sy_pool s))" using assms(2) by (simp add: sys_inv_def owners_ok_def)
  have "owner s t' = Some a" if "sy_tasks s t' = Some (Holding a)" for t' using that by (simp add: owner_def)
  with ex assms(3) have act: "a \<in> cp_active (sy_pool s)" "\<forall>t'. sy_tasks s t' = Some (Holding a) \<longrightarrow> t' = t"
    unfolding excl_def by (blast intro: ranI)+
  have "pool_struct (sy_pool s)" using inv by (simp add: sys_inv_def pool_inv_def)
  moreover from this act(1) obtain x where "cp_heap (sy_pool s) a = Some x" using heap_of [of "sy_pool s" a] by auto
  ultimately show ?thesis using act by (auto simp: pool_struct_def)
qed

theorem pool_exclusive_witness:
  "\<exists>s. exec [OpAcquire 1, OpCreated 1 7 (Ok True), OpAcquire 2, OpRelease 1 True, OpWoken 2] tiny = Some s \<and>
     7 \<in> cp_active (sy_pool s) \<and> (\<forall>t'. sy_tasks s t' = Some (Holding 7) \<longrightarrow> t' = 2)"
proof -
  let ?xs = "[OpAcquire 1, OpCreated 1 7 (Ok True), OpAcquire 2, OpRelease 1 True, OpWoken 2]"
  have "map_option (\<lambda>s. (cp_shutting_down (sy_pool s), sy_tasks s 2)) (exec ?xs tiny) = Some (False, Some (Holding 7))"
    by (simp add: exec_defs)
  then obtain s where s: "exec ?xs tiny = Some s" "\<not> cp_shutting_down (sy_pool s)" "sy_tasks s 2 = Some (Holding 7)"
    by auto
  with pool_exclusive [OF tiny_reachable [OF s(1)] s(2,3)] show ?thesis by blast
qed

text \<open>C12. No interleaving makes the pool follow a freed connection: in every reachable state, also after
  a shutdown, each handler runs to its next suspension, whatever it is called with.\<close>

theorem pool_no_use_after_free:
  assumes "pool_step\<^sup>*\<^sup>* (sys_new b c) s" and "a \<notin> set (cp_all (sy_pool s))"
    and "set (it (cp_active (sy_pool s))) = cp_active (sy_pool s)"
  shows "acquire_start now (sy_pool s) \<noteq> None \<and> acquire_created a res now (sy_pool s) \<noteq> None \<and>
    release x healthy now (sy_pool s) \<noteq> None \<and> warm_created i a res now (sy_pool s) \<noteq> None \<and>
    reap now (sy_pool s) \<noteq> None \<and> drain it (sy_pool s) \<noteq> None"
proof -
  have inv: "pool_inv (sy_pool s)" using pool_sys.reachable_inv assms(1) by (auto simp: sys_inv_def)
  show ?thesis
    using acquire_start_inv [OF inv, of now] acquire_created_inv [OF inv assms(2), of res now]
      release_inv [OF inv, of x healthy now] warm_created_inv [OF inv assms(2), of i res now]
      reap_inv [OF inv, of now] drain_inv [of "sy_pool s" it, OF inv assms(3)]
    by auto
qed

theorem pool_no_use_after_free_witness:
  "release 7 False 3 (sy_pool tiny) \<noteq> None"
  using pool_no_use_after_free [of "''b''" "default_PoolConfig\<lparr>pool_max := 1\<rparr>" tiny 0 sorted_list_of_set 3 "Ok True" 7 False 0]
  by (simp add: tiny_def sys_new_def cp_new_def)

text \<open>The metrics are exact in every reachable state, also after a shutdown: they count the free, the
  active and all tracked connections, and the total is the sum of free and active ones.\<close>

lemma pool_metrics_exact:
  assumes "pool_step\<^sup>*\<^sup>* (sys_new b c) s"
  shows "cp_free_count (sy_pool s) = length (cp_free_list (sy_pool s)) \<and>
    cp_active_count (sy_pool s) = card (cp_active (sy_pool s)) \<and>
    cp_waiter_count (sy_pool s) = length (cp_waiters (sy_pool s)) \<and>
    cp_total_count (sy_pool s) = cp_free_count (sy_pool s) + cp_active_count (sy_pool s)"
proof -
  have inv: "pool_struct (sy_pool s)" "synced (sy_pool s)"
    using pool_sys.reachable_inv assms by (auto simp: sys_inv_def pool_inv_def)
  have "length (cp_all (sy_pool s)) = card (set (cp_all (sy_pool s)))"
    using inv(1) distinct_card [of "cp_all (sy_pool s)"] unfolding pool_struct_def by argo
  also have "\<dots> = card (set (cp_free_list (sy_pool s)) \<union> cp_active (sy_pool s))"
    using inv(1) by (simp add: pool_struct_def)
  also have "\<dots> = length (cp_free_list (sy_pool s)) + card (cp_active (sy_pool s))"
    using inv(1) by (simp add: pool_struct_def card_Un_disjoint distinct_card)
  finally show ?thesis using inv(2) by (simp add: synced_def)
qed








text \<open>C38. A shutdown between the hand-over of a connection and the wake-up of its waiter leaves the
  result of the waiter in place while the connection is destroyed: the wake-up returns a freed
  connection as acquired.\<close>

theorem drain_dangling_handover:
  "\<exists>s w a. pool_step\<^sup>*\<^sup>* tiny s \<and> (\<exists>t. sy_tasks s t = Some (Waiting w)) \<and>
     fst (acquire_woken w (sy_pool s)) = Acquired a \<and> cp_heap (sy_pool s) a = None"
proof -
  let ?xs = "[OpAcquire 1, OpCreated 1 7 (Ok True), OpAcquire 2, OpRelease 1 True, OpDrain]"
  have "map_option (\<lambda>s. (sy_tasks s 2, fst (acquire_woken 0 (sy_pool s)), map_option px_open (cp_heap (sy_pool s) 7)))
      (exec ?xs tiny) = Some (Some (Waiting 0), Acquired 7, None)"
    by (simp add: exec_defs)
  then obtain s where "exec ?xs tiny = Some s" "sy_tasks s 2 = Some (Waiting 0)"
    "fst (acquire_woken 0 (sy_pool s)) = Acquired 7" "cp_heap (sy_pool s) 7 = None" by auto
  then show ?thesis using exec_reachable by blast
qed

end
