(* ===== verification/PoolManager.thy ===== *)
theory PoolManager
  imports PoolSystem
begin

text \<open>
  \<open>pool/src/pool_manager.cpp\<close>: one pool per backend id. The lock makes every access to the map
  one step; \<open>warm_all\<close> and \<open>shutdown\<close> visit the pools one after the other in the order \<open>ids\<close> in
  which the hash map happens to iterate, and are modelled as run without another task in between
  (the interleavings inside one pool are those of \<open>PoolSystem\<close>).
\<close>

section \<open>State and operations\<close>

text \<open>\<open>pm_reapers\<close> records the idle reapers that were spawned.\<close>

record PoolManager =
  pm_pools :: "BackendID \<Rightarrow> ConnectionPool option"
  pm_reapers :: "BackendID list"

definition pm_new :: PoolManager where
  "pm_new = \<lparr>pm_pools = (\<lambda>_. None), pm_reapers = []\<rparr>"

definition create_pool_with_factory :: "BackendConfig \<Rightarrow> PoolManager \<Rightarrow> PoolManager" where
  "create_pool_with_factory backend m =
     (if pm_pools m (bc_id backend) \<noteq> None then m
      else m\<lparr>pm_pools := (pm_pools m)(bc_id backend \<mapsto> cp_new (bc_id backend) (bc_pool backend)),
             pm_reapers := pm_reapers m @ [bc_id backend]\<rparr>)"

definition get_pool :: "BackendID \<Rightarrow> PoolManager \<Rightarrow> ConnectionPool option" where
  "get_pool backend_id m = pm_pools m backend_id"

definition pool_count :: "PoolManager \<Rightarrow> nat" where
  "pool_count m = card (dom (pm_pools m))"

lemma warm_created_config: "warm_created i a r now p = Some (n, p') \<Longrightarrow> cp_config p' = cp_config p"
  by (auto simp: warm_created_def upd_conn_def track_def sync_metrics_def Let_def split: result.splits bind_splits)

text \<open>
  \<open>warm\<close> of one pool: \<open>mk i\<close> is what the factory yields at index \<open>i\<close> (the address of the new
  object, whether it is open or the error, and the time).
\<close>

type_synonym factory = "nat \<Rightarrow> caddr \<times> (bool, PoolError) result \<times> time"

function warm_loop :: "factory \<Rightarrow> nat \<Rightarrow> ConnectionPool \<Rightarrow> ConnectionPool option" where
  "warm_loop mk i p =
     (if warm_next i p = None then Some p
      else case mk i of (a, r, now) \<Rightarrow>
        (case warm_created i a r now p of
           None \<Rightarrow> None
         | Some (n, p') \<Rightarrow> if is_err r then Some p' else warm_loop mk (i + 1) p'))"
  by pat_completeness auto
termination
  by (relation "measure (\<lambda>(mk, i, p). unat (pool_min (cp_config p)) - i)")
     (auto simp: warm_next_def dest!: warm_created_config split: if_splits)

declare warm_loop.simps [simp del]

fun warm_all :: "(BackendID \<Rightarrow> factory) \<Rightarrow> BackendID list \<Rightarrow> PoolManager \<Rightarrow> PoolManager option" where
  "warm_all mk [] m = Some m"
| "warm_all mk (b # bs) m = do {
     p \<leftarrow> pm_pools m b;
     p \<leftarrow> warm_loop (mk b) 0 p;
     warm_all mk bs (m\<lparr>pm_pools := (pm_pools m)(b \<mapsto> p)\<rparr>) }"

fun drain_ids :: "(caddr set \<Rightarrow> caddr list) \<Rightarrow> BackendID list \<Rightarrow> PoolManager \<Rightarrow> PoolManager option" where
  "drain_ids it [] m = Some m"
| "drain_ids it (b # bs) m = do {
     p \<leftarrow> pm_pools m b;
     p \<leftarrow> drain it p;
     drain_ids it bs (m\<lparr>pm_pools := (pm_pools m)(b \<mapsto> p)\<rparr>) }"

definition pm_shutdown :: "(caddr set \<Rightarrow> caddr list) \<Rightarrow> BackendID list \<Rightarrow> PoolManager \<Rightarrow> PoolManager option" where
  "pm_shutdown it ids m = do {
     m \<leftarrow> drain_ids it ids m;
     Some (m\<lparr>pm_pools := (\<lambda>_. None)\<rparr>) }"

text \<open>What a hash map's iteration promises: every key once.\<close>

definition visits_keys :: "BackendID list \<Rightarrow> PoolManager \<Rightarrow> bool" where
  "visits_keys ids m \<longleftrightarrow> distinct ids \<and> set ids = dom (pm_pools m)"

section \<open>Creating pools\<close>

lemma create_pool:
  "pm_pools (create_pool_with_factory c m) b =
     (if b = bc_id c \<and> pm_pools m b = None then Some (cp_new b (bc_pool c)) else pm_pools m b)"
  by (auto simp: create_pool_with_factory_def)

lemma create_pools:
  "pm_pools (fold create_pool_with_factory bs m) b =
     (case pm_pools m b of Some p \<Rightarrow> Some p
      | None \<Rightarrow> map_option (\<lambda>c. cp_new b (bc_pool c)) (find (\<lambda>c. bc_id c = b) bs))"
proof (induction bs arbitrary: m)
  case (Cons c bs)
  show ?case by (cases "pm_pools m b") (simp_all add: Cons.IH create_pool)
qed (auto split: option.splits)

lemma cp_new_inject: "cp_new b c = cp_new b' c' \<longleftrightarrow> b = b' \<and> c = c'"
  by (auto simp: cp_new_def)

section \<open>Warming one pool\<close>

text \<open>A factory that always connects, with addresses that differ from each other and from \<open>A\<close>.\<close>

definition connects :: "factory \<Rightarrow> caddr set \<Rightarrow> bool" where
  "connects mk A \<longleftrightarrow> inj (fst \<circ> mk) \<and> (\<forall>i. fst (mk i) \<notin> A \<and> is_ok (fst (snd (mk i))))"

lemma warm_created_grows:
  assumes "pool_inv p" "a \<notin> set (cp_all p)" "is_ok r"
  shows "\<exists>n p'. warm_created i a r now p = Some (n, p') \<and> pool_inv p' \<and> cp_config p' = cp_config p \<and>
    cp_all p' = cp_all p @ [a] \<and> cp_active p' = cp_active p \<and> cp_shutting_down p' = cp_shutting_down p"
proof -
  from warm_created_inv [OF assms(1,2), of i r now] obtain n p' where
    1: "warm_created i a r now p = Some (n, p')" "pool_inv p'" by blast
  with assms(3) warm_created_config [OF 1(1)] show ?thesis
    by (cases r) (auto simp: warm_created_def upd_conn_def track_def sync_metrics_def Let_def)
qed

lemma warm_loop_fills:
  assumes "pool_inv p" "connects mk A" "set (cp_all p) \<subseteq> A \<union> (fst \<circ> mk) ` {..<i}" "\<not> cp_shutting_down p"
    "length (cp_all p) = i" "cp_active p = {}" "i \<le> unat (pool_min (cp_config p))" "i \<le> unat (pool_max (cp_config p))"
  shows "\<exists>p'. warm_loop mk i p = Some p' \<and> pool_inv p' \<and> cp_active p' = {} \<and> \<not> cp_shutting_down p' \<and>
    length (cp_all p') = min (unat (pool_min (cp_config p))) (unat (pool_max (cp_config p)))"
  using assms
proof (induction "unat (pool_min (cp_config p)) - i" arbitrary: i p)
  case 0
  then show ?case by (subst warm_loop.simps) (simp add: warm_next_def min_def)
next
  case (Suc k)
  show ?case
  proof (cases "i < unat (pool_max (cp_config p))")
    case False
    with Suc.prems Suc.hyps(2) show ?thesis by (subst warm_loop.simps) (simp add: warm_next_def min_def)
  next
    case True
    obtain a r now where f: "mk i = (a, r, now)" by (cases "mk i") auto
    have ok: "is_ok r" and a: "a \<notin> A" using Suc.prems(2) f unfolding connects_def by (metis fst_conv snd_conv)+
    have "a \<notin> (fst \<circ> mk) ` {..<i}"
      using Suc.prems(2) f by (auto simp: connects_def inj_def) (metis fst_conv less_irrefl)
    with a Suc.prems(3) have fresh: "a \<notin> set (cp_all p)" by blast
    from warm_created_grows [OF Suc.prems(1) fresh ok, of i now] obtain n p' where
      p': "warm_created i a r now p = Some (n, p')" "pool_inv p'" "cp_config p' = cp_config p"
        "cp_all p' = cp_all p @ [a]" "cp_active p' = cp_active p" "cp_shutting_down p' = cp_shutting_down p" by blast
    have "set (cp_all p') \<subseteq> A \<union> (fst \<circ> mk) ` {..<i + 1}"
      using Suc.prems(3) p'(4) f by (auto simp: lessThan_Suc)
    moreover have "k = unat (pool_min (cp_config p')) - (i + 1)" using Suc.hyps(2) p'(3) by simp
    ultimately obtain q where "warm_loop mk (i + 1) p' = Some q" "pool_inv q" "cp_active q = {}" "\<not> cp_shutting_down q"
      "length (cp_all q) = min (unat (pool_min (cp_config p))) (unat (pool_max (cp_config p)))"
      using Suc.hyps(1) [of p' "i + 1"] p' Suc.prems Suc.hyps(2) True by force
    moreover have "warm_next i p \<noteq> None" using Suc.hyps(2) Suc.prems(4,5) True by (simp add: warm_next_def)
    ultimately show ?thesis using f p'(1) ok by (subst warm_loop.simps) (cases r; auto)
  qed
qed


text \<open>A new pool, warmed to its minimum.\<close>

definition warmed :: "PoolConfig \<Rightarrow> ConnectionPool \<Rightarrow> bool" where
  "warmed cfg p \<longleftrightarrow> pool_inv p \<and> cp_active p = {} \<and> \<not> cp_shutting_down p \<and>
     length (cp_free_list p) = min (unat (pool_min cfg)) (unat (pool_max cfg))"

lemma free_all: "pool_inv p \<Longrightarrow> cp_active p = {} \<Longrightarrow> length (cp_free_list p) = length (cp_all p)"
  using distinct_card [of "cp_free_list p"] distinct_card [of "cp_all p"] by (simp add: pool_inv_def pool_struct_def)

lemma warm_new:
  assumes "connects mk {}"
  shows "\<exists>p. warm_loop mk 0 (cp_new b cfg) = Some p \<and> warmed cfg p"
proof -
  have "cp_config (cp_new b cfg) = cfg" "cp_all (cp_new b cfg) = []" "cp_active (cp_new b cfg) = {}"
    "\<not> cp_shutting_down (cp_new b cfg)" by (simp_all add: cp_new_def)
  with warm_loop_fills [OF pool_inv_new assms, of b cfg 0] obtain p where
    "warm_loop mk 0 (cp_new b cfg) = Some p" "pool_inv p" "cp_active p = {}" "\<not> cp_shutting_down p"
    "length (cp_all p) = min (unat (pool_min cfg)) (unat (pool_max cfg))" by auto
  with free_all [of p] show ?thesis by (auto simp: warmed_def)
qed

lemma warm_all_new:
  assumes "distinct bs" "\<forall>b \<in> set bs. \<exists>cfg. pm_pools m b = Some (cp_new b cfg)" "\<And>b. connects (mk b) {}"
  shows "\<exists>m'. warm_all mk bs m = Some m' \<and>
    (\<forall>b. if b \<in> set bs then \<exists>cfg p. pm_pools m b = Some (cp_new b cfg) \<and> pm_pools m' b = Some p \<and> warmed cfg p
         else pm_pools m' b = pm_pools m b)"
  using assms(1,2)
proof (induction bs arbitrary: m)
  case (Cons b bs)
  then obtain cfg where cfg: "pm_pools m b = Some (cp_new b cfg)" by auto
  obtain p where p: "warm_loop (mk b) 0 (cp_new b cfg) = Some p" "warmed cfg p" using warm_new assms(3) by blast
  let ?m = "m\<lparr>pm_pools := (pm_pools m)(b \<mapsto> p)\<rparr>"
  have "\<forall>b \<in> set bs. \<exists>cfg. pm_pools ?m b = Some (cp_new b cfg)" using Cons.prems by auto
  from Cons.IH [OF _ this] Cons.prems(1) obtain m' where m': "warm_all mk bs ?m = Some m'"
    "\<forall>b'. if b' \<in> set bs then \<exists>cfg q. pm_pools ?m b' = Some (cp_new b' cfg) \<and> pm_pools m' b' = Some q \<and> warmed cfg q
         else pm_pools m' b' = pm_pools ?m b'" by auto
  have "if b' \<in> set (b # bs) then \<exists>cfg q. pm_pools m b' = Some (cp_new b' cfg) \<and> pm_pools m' b' = Some q \<and> warmed cfg q
         else pm_pools m' b' = pm_pools m b'" for b'
    using m'(2) [rule_format, of b'] Cons.prems(1) cfg p(2) by (cases "b' = b") (auto split: if_splits)
  moreover have "warm_all mk (b # bs) m = Some m'" using m'(1) cfg p(1) by simp
  ultimately show ?case by blast
qed simp

section \<open>Shutting down\<close>

lemma drain_ids_ok:
  assumes "set bs \<subseteq> dom (pm_pools m)" "\<forall>b p. pm_pools m b = Some p \<longrightarrow> pool_inv p" "\<And>A. finite A \<Longrightarrow> set (it A) = A"
  shows "\<exists>m'. drain_ids it bs m = Some m'"
  using assms(1,2)
proof (induction bs arbitrary: m)
  case (Cons b bs)
  then obtain p where p: "pm_pools m b = Some p" "pool_inv p" by auto
  have "finite (cp_active p)" using p(2) by (simp add: pool_inv_def pool_struct_def)
  from drain_inv [OF p(2), of it] assms(3) [OF this] obtain p' where p': "drain it p = Some p'" "pool_inv p'" by blast
  have "\<exists>m'. drain_ids it bs (m\<lparr>pm_pools := (pm_pools m)(b \<mapsto> p')\<rparr>) = Some m'"
    using Cons.prems p' by (intro Cons.IH) (auto split: if_splits)
  with p p' show ?case by simp
qed simp

section \<open>Properties\<close>

text \<open>C24. Start-up fills every pool: with one pool created per configured backend (the first of each id)
  and backends that accept connections, \<open>warm_all\<close> returns whatever the iteration order, and every
  pool then keeps its invariant and has exactly \<open>min(min, max)\<close> idle connections, none of them active.\<close>

theorem warm_all_fills:
  assumes "m = fold create_pool_with_factory backends pm_new" and "visits_keys ids m" and "\<And>b. connects (mk b) {}"
  shows "\<exists>m'. warm_all mk ids m = Some m' \<and>
    (\<forall>b. case find (\<lambda>c. bc_id c = b) backends of
           None \<Rightarrow> get_pool b m' = None
         | Some c \<Rightarrow> \<exists>p. get_pool b m' = Some p \<and> warmed (bc_pool c) p)"
proof -
  have pools: "pm_pools m b = map_option (\<lambda>c. cp_new b (bc_pool c)) (find (\<lambda>c. bc_id c = b) backends)" for b
    unfolding assms(1) create_pools by (simp add: pm_new_def)
  have ids: "distinct ids" "set ids = dom (pm_pools m)" using assms(2) by (simp_all add: visits_keys_def)
  have "\<forall>b \<in> set ids. \<exists>cfg. pm_pools m b = Some (cp_new b cfg)"
    using ids(2) pools by auto blast
  from warm_all_new [of _ _ mk, OF ids(1) this assms(3)] obtain m' where m': "warm_all mk ids m = Some m'"
    "\<forall>b. if b \<in> dom (pm_pools m) then \<exists>cfg p. pm_pools m b = Some (cp_new b cfg) \<and> pm_pools m' b = Some p \<and> warmed cfg p
         else pm_pools m' b = pm_pools m b" unfolding ids(2) by blast
  have "case find (\<lambda>c. bc_id c = b) backends of None \<Rightarrow> get_pool b m' = None
         | Some c \<Rightarrow> \<exists>p. get_pool b m' = Some p \<and> warmed (bc_pool c) p" for b
  proof (cases "find (\<lambda>c. bc_id c = b) backends")
    case None
    with m'(2) [rule_format, of b] pools [of b] show ?thesis by (simp add: get_pool_def dom_def)
  next
    case (Some c)
    with m'(2) [rule_format, of b] pools [of b] show ?thesis by (auto simp: get_pool_def dom_def cp_new_inject)
  qed
  then show ?thesis using m'(1) by blast
qed

text \<open>Backends that always accept, with fresh addresses.\<close>

definition sample_factory :: "BackendID \<Rightarrow> factory" where
  "sample_factory b i = (i, Ok True, 0)"

definition sample_backends :: "BackendConfig list" where
  "sample_backends = [default_BackendConfig\<lparr>bc_id := ''a''\<rparr>, default_BackendConfig\<lparr>bc_id := ''b''\<rparr>]"

lemma sample_pools:
  "connects (sample_factory b) {}" "visits_keys [''b'', ''a''] (fold create_pool_with_factory sample_backends pm_new)"
  by (auto simp: connects_def sample_factory_def inj_def visits_keys_def sample_backends_def
      create_pool_with_factory_def pm_new_def)

theorem warm_all_fills_witness:
  "\<exists>m' p. warm_all sample_factory [''b'', ''a''] (fold create_pool_with_factory sample_backends pm_new) = Some m' \<and>
     get_pool ''a'' m' = Some p \<and> warmed (bc_pool default_BackendConfig) p \<and> get_pool ''c'' m' = None"
proof -
  obtain m' where m': "warm_all sample_factory [''b'', ''a''] (fold create_pool_with_factory sample_backends pm_new) = Some m'"
    "\<forall>b. case find (\<lambda>c. bc_id c = b) sample_backends of None \<Rightarrow> get_pool b m' = None
         | Some c \<Rightarrow> \<exists>p. get_pool b m' = Some p \<and> warmed (bc_pool c) p"
    using warm_all_fills [of _ _ _ sample_factory, OF refl sample_pools(2,1)] by blast
  from m'(2) [rule_format, of "''a''"] m'(2) [rule_format, of "''c''"] m'(1) show ?thesis
    by (auto simp: sample_backends_def)
qed

text \<open>Shutting down succeeds when every pool keeps its invariant, in any order of the pools and of
  the connections, and leaves no pool.\<close>

lemma shutdown_clears:
  assumes "visits_keys ids m" and "\<forall>b p. pm_pools m b = Some p \<longrightarrow> pool_inv p" and "\<And>A. finite A \<Longrightarrow> set (it A) = A"
  shows "\<exists>m'. pm_shutdown it ids m = Some m' \<and> pool_count m' = 0"
  using drain_ids_ok [of ids m it] assms by (auto simp: pm_shutdown_def pool_count_def visits_keys_def)

end
