(* ===== verification/Mesh.thy ===== *)
theory Mesh
  imports ClientSession PoolManager
begin

text \<open>
  A client session over the program's own routing engine and connection pools: the record
  \<open>services\<close> of \<open>mysql_connection.cpp\<close> filled with \<open>RoutingEngine::plan\<close>, \<open>PoolManager::get_pool\<close> and the
  pool's handlers, while no other task uses the pools.
\<close>

section \<open>A whole acquire\<close>

text \<open>
  \<open>acquire\<close> when no other handler of the pool runs while it is suspended: \<open>a\<close> and \<open>r\<close> are what the
  factory yields, should it be called; a wait ends with the timer.
\<close>

definition acquire :: "caddr \<Rightarrow> (bool, PoolError) result \<Rightarrow> time \<Rightarrow> ConnectionPool
    \<Rightarrow> ((caddr, PoolError) result \<times> ConnectionPool) option" where
  "acquire a r now p = do {
     (o1, p) \<leftarrow> acquire_start now p;
     (o2, p) \<leftarrow> (case o1 of
         Connect \<Rightarrow> acquire_created a r now p
       | Wait w \<Rightarrow> Some (acquire_woken w p)
       | _ \<Rightarrow> Some (o1, p));
     (case o2 of Acquired c \<Rightarrow> Some (Ok c, p) | Failed e \<Rightarrow> Some (Err e, p) | _ \<Rightarrow> None) }"

section \<open>The services of the program\<close>

text \<open>What the program is given: registries, configuration, random draws, the clock, the allocator, the
  factories' results and the backend sockets' operations.\<close>

record 's environment =
  en_schemas :: SchemaRegistry
  en_registry :: BackendRegistry
  en_routing :: RoutingConfig
  en_raw :: "nat \<Rightarrow> nat"
  en_ctx :: RoutingContext
  en_clock :: "nat \<Rightarrow> time"
  en_alloc :: "BackendID \<Rightarrow> caddr set \<Rightarrow> caddr"
  en_connect :: "BackendID \<Rightarrow> nat \<Rightarrow> (bool, PoolError) result"
  en_send :: "'s \<Rightarrow> bytes \<Rightarrow> bool \<times> 's"
  en_recv :: "'s \<Rightarrow> nat \<Rightarrow> bytes option \<times> 's"

text \<open>\<open>me_ticks\<close> counts the calls; \<open>me_defined\<close> is lost by undefined behaviour.\<close>

record 's mesh =
  me_ticks :: nat
  me_counters :: counters
  me_pools :: PoolManager
  me_sock :: "caddr \<Rightarrow> 's"
  me_defined :: bool

definition set_pool :: "BackendID \<Rightarrow> ConnectionPool option \<Rightarrow> 's mesh \<Rightarrow> 's mesh" where
  "set_pool b po e =
     (case po of
        None \<Rightarrow> e\<lparr>me_defined := False\<rparr>
      | Some p \<Rightarrow> e\<lparr>me_ticks := me_ticks e + 1, me_pools := (me_pools e)\<lparr>pm_pools := (pm_pools (me_pools e))(b \<mapsto> p)\<rparr>\<rparr>)"

definition mesh_plan :: "'s environment \<Rightarrow> string \<Rightarrow> SessionView \<Rightarrow> 's mesh \<Rightarrow> (RoutePlan, RoutingError) result \<times> 's mesh" where
  "mesh_plan E sql v e =
     (case plan (en_schemas E) (en_registry E) (en_routing E) (en_raw E (me_ticks e)) (en_ctx E) (me_counters e) sql v of
        (r, cnt) \<Rightarrow> (r, e\<lparr>me_counters := cnt\<rparr>))"

definition mesh_acquire :: "'s environment \<Rightarrow> BackendID \<Rightarrow> 's mesh \<Rightarrow> (caddr, PoolError) result \<times> 's mesh" where
  "mesh_acquire E b e =
     (case Option.bind (get_pool b (me_pools e)) (\<lambda>p.
          acquire (en_alloc E b (set (cp_all p))) (en_connect E b (me_ticks e)) (en_clock E (me_ticks e)) p) of
        None \<Rightarrow> (Err POOL_SHUTDOWN, set_pool b None e)
      | Some (r, p) \<Rightarrow> (r, set_pool b (Some p) e))"

definition mesh_release :: "'s environment \<Rightarrow> BackendID \<Rightarrow> caddr \<Rightarrow> bool \<Rightarrow> 's mesh \<Rightarrow> 's mesh" where
  "mesh_release E b a healthy e =
     set_pool b (Option.bind (get_pool b (me_pools e)) (release a healthy (en_clock E (me_ticks e)))) e"

definition mesh_served :: "BackendID \<Rightarrow> caddr \<Rightarrow> 's mesh \<Rightarrow> 's mesh option" where
  "mesh_served b a e = do {
     p \<leftarrow> get_pool b (me_pools e);
     p \<leftarrow> upd_conn a (\<lambda>x. x\<lparr>px_queries_served := px_queries_served x + 1\<rparr>) p;
     Some (set_pool b (Some p) e) }"

definition mesh_services :: "'s environment \<Rightarrow> 's mesh services" where
  "mesh_services E = \<lparr>
     sv_plan = mesh_plan E,
     sv_has_pool = (\<lambda>b e. get_pool b (me_pools e) \<noteq> None),
     sv_acquire = mesh_acquire E,
     sv_release = mesh_release E,
     sv_served = mesh_served,
     sv_bsend = (\<lambda>a e bs. case en_send E (me_sock e a) bs of (ok, s) \<Rightarrow> (ok, e\<lparr>me_sock := (me_sock e)(a := s)\<rparr>)),
     sv_brecv = (\<lambda>a e n. case en_recv E (me_sock e a) n of (r, s) \<Rightarrow> (r, e\<lparr>me_sock := (me_sock e)(a := s)\<rparr>))\<rparr>"

section \<open>One pool\<close>

text \<open>A pool that nobody uses, and a pool that one session borrowed from.\<close>

definition idle :: "ConnectionPool \<Rightarrow> bool" where
  "idle p \<longleftrightarrow> pool_inv p \<and> cp_active p = {} \<and> cp_waiters p = []"

definition lent :: "caddr \<Rightarrow> ConnectionPool \<Rightarrow> bool" where
  "lent a p \<longleftrightarrow> pool_inv p \<and> cp_active p = {a} \<and> cp_waiters p = []"

lemma acquire_idle:
  assumes "idle p" "a \<notin> set (cp_all p)"
  shows "\<exists>r' p'. acquire a r now p = Some (r', p') \<and> (case r' of Ok c \<Rightarrow> lent c p' | Err _ \<Rightarrow> idle p')"
proof -
  have inv: "pool_inv p" "cp_active p = {}" "cp_waiters p = []" using assms by (simp_all add: idle_def)
  from acquire_start_inv [OF inv(1), of now] obtain o1 p1 where
    1: "acquire_start now p = Some (o1, p1)" "pool_inv p1" by blast
  show ?thesis
  proof (cases o1)
    case (Acquired c)
    with 1 inv have "lent c p1"
      by (auto simp: lent_def acquire_start_def upd_conn_def pool_defs Let_def split: list.splits if_splits bind_splits)
    with 1 Acquired show ?thesis by (simp add: acquire_def)
  next
    case Connect
    with 1(1) have p1: "p1 = p" by (auto simp: acquire_start_def Let_def split: list.splits if_splits bind_splits)
    from acquire_created_inv [OF inv(1) assms(2), of r now] obtain o2 p2 where
      2: "acquire_created a r now p = Some (o2, p2)" "pool_inv p2" by blast
    with inv have "(\<exists>e. o2 = Failed e \<and> idle p2) \<or> (\<exists>c. o2 = Acquired c \<and> lent c p2)"
      by (auto simp: idle_def lent_def acquire_created_def upd_conn_def track_def pool_defs split: result.splits bind_splits)
    with 1(1) 2(1) Connect p1 show ?thesis by (auto simp: acquire_def)
  next
    case (Wait w)
    with 1(1) inv have "cp_waiters p1 = [w] \<and> cp_active p1 = {} \<and> cp_result p1 w = None"
      by (auto simp: acquire_start_def pool_defs Let_def split: list.splits if_splits bind_splits)
    moreover have "pool_inv (snd (acquire_woken w p1))" using acquire_woken_inv [OF 1(2)] .
    ultimately show ?thesis using 1(1) Wait by (auto simp: acquire_def acquire_woken_def idle_def pool_defs)
  next
    case (Failed e)
    with 1(1) have "p1 = p" by (auto simp: acquire_start_def Let_def split: list.splits if_splits bind_splits)
    with 1(1) Failed assms(1) show ?thesis by (simp add: acquire_def)
  qed
qed

lemma release_lent:
  assumes "lent a p"
  shows "\<exists>x p'. cp_heap p a = Some x \<and> release a healthy now p = Some p' \<and> idle p' \<and>
    (cp_heap p' a = None \<longleftrightarrow> \<not> healthy \<or> cp_shutting_down p \<or> \<not> px_open x)"
proof -
  have inv: "pool_inv p" "cp_active p = {a}" "cp_waiters p = []" using assms by (simp_all add: lent_def)
  then obtain x where x: "cp_heap p a = Some x" using heap_of [of p a] by (auto simp: pool_inv_def)
  from release_inv [OF inv(1), of a healthy now] obtain p' where
    p': "release a healthy now p = Some p'" "pool_inv p'" by blast
  have "a \<in> set (cp_all p)" using inv by (auto simp: pool_inv_def pool_struct_def)
  with p'(1) inv x have "cp_active p' = {} \<and> cp_waiters p' = [] \<and>
      (cp_heap p' a = None \<longleftrightarrow> \<not> healthy \<or> cp_shutting_down p \<or> \<not> px_open x)"
    by (auto simp: release_def upd_conn_def untrack_def pool_defs Let_def split: if_splits)
  with p' x show ?thesis by (auto simp: idle_def)
qed

lemma served_idle:
  assumes "idle p" "upd_conn a (\<lambda>x. x\<lparr>px_queries_served := n x\<rparr>) p = Some p'"
  shows "idle p'"
proof -
  obtain x where x: "cp_heap p a = Some x" "p' = p\<lparr>cp_heap := (cp_heap p)(a \<mapsto> x\<lparr>px_queries_served := n x\<rparr>)\<rparr>"
    using assms(2) by (auto simp: upd_conn_def split: bind_splits)
  then have "dom ((cp_heap p)(a \<mapsto> x\<lparr>px_queries_served := n x\<rparr>)) = dom (cp_heap p)" by auto
  with assms(1) x show ?thesis by (simp add: idle_def pool_inv_def pool_struct_def synced_def)
qed

section \<open>A session over the pools\<close>

text \<open>What \<open>operator new\<close> promises: the address of a new object is not one of a live object.\<close>

definition alloc_ok :: "'s environment \<Rightarrow> bool" where
  "alloc_ok E \<longleftrightarrow> (\<forall>b A. finite A \<longrightarrow> en_alloc E b A \<notin> A)"

definition mesh_ok :: "'s mesh \<Rightarrow> bool" where
  "mesh_ok e \<longleftrightarrow> me_defined e \<and> (\<forall>b p. get_pool b (me_pools e) = Some p \<longrightarrow> idle p)"

definition mesh_lent :: "BackendID \<Rightarrow> caddr \<Rightarrow> 's mesh \<Rightarrow> bool" where
  "mesh_lent b a e \<longleftrightarrow> me_defined e \<and> (\<exists>p. get_pool b (me_pools e) = Some p \<and> lent a p) \<and>
     (\<forall>b' p. b' \<noteq> b \<longrightarrow> get_pool b' (me_pools e) = Some p \<longrightarrow> idle p)"

lemma set_pool_simps [simp]:
  "get_pool b' (me_pools (set_pool b (Some p) e)) = (if b' = b then Some p else get_pool b' (me_pools e))"
  "me_defined (set_pool b (Some p) e) = me_defined e" "me_sock (set_pool b (Some p) e) = me_sock e"
  by (simp_all add: set_pool_def get_pool_def)

lemma mesh_ok_set: "mesh_ok e \<Longrightarrow> idle p \<Longrightarrow> mesh_ok (set_pool b (Some p) e)"
  by (auto simp: mesh_ok_def)

lemma acquire_mesh:
  assumes "alloc_ok E" "mesh_ok e" "get_pool b (me_pools e) \<noteq> None" "mesh_acquire E b e = (r, e')"
  shows "case r of Ok a \<Rightarrow> mesh_lent b a e' | Err _ \<Rightarrow> mesh_ok e'"
proof -
  from assms obtain p where p: "get_pool b (me_pools e) = Some p" "idle p" by (auto simp: mesh_ok_def)
  have "en_alloc E b (set (cp_all p)) \<notin> set (cp_all p)" using assms(1) by (simp add: alloc_ok_def)
  from acquire_idle [OF p(2) this, of "en_connect E b (me_ticks e)" "en_clock E (me_ticks e)"]
  obtain r' p' where a: "acquire (en_alloc E b (set (cp_all p))) (en_connect E b (me_ticks e)) (en_clock E (me_ticks e)) p = Some (r', p')"
    "case r' of Ok c \<Rightarrow> lent c p' | Err _ \<Rightarrow> idle p'" by blast
  then have "r = r'" "e' = set_pool b (Some p') e" using assms(4) p(1) by (simp_all add: mesh_acquire_def)
  with assms(2) a(2) show ?thesis by (auto simp: mesh_lent_def mesh_ok_def split: result.splits)
qed

lemma release_mesh:
  assumes "mesh_lent b a e" "get_pool b (me_pools e) = Some p"
  shows "mesh_ok (mesh_release E b a h e) \<and>
    (mesh_served b a (mesh_release E b a h e) = None \<longleftrightarrow>
       \<not> h \<or> cp_shutting_down p \<or> (\<exists>x. cp_heap p a = Some x \<and> \<not> px_open x))"
proof -
  have l: "lent a p" using assms by (auto simp: mesh_lent_def)
  from release_lent [OF l, of h "en_clock E (me_ticks e)"] obtain x p' where
    r: "cp_heap p a = Some x" "release a h (en_clock E (me_ticks e)) p = Some p'" "idle p'"
      "cp_heap p' a = None \<longleftrightarrow> \<not> h \<or> cp_shutting_down p \<or> \<not> px_open x" by (elim exE conjE) (rule that)
  have m: "mesh_release E b a h e = set_pool b (Some p') e" using r(2) assms(2) by (simp add: mesh_release_def)
  have "mesh_ok (set_pool b (Some p') e)" using assms r(3) by (auto simp: mesh_ok_def mesh_lent_def)
  moreover have "mesh_served b a (set_pool b (Some p') e) = None \<longleftrightarrow> cp_heap p' a = None"
    by (cases "cp_heap p' a") (auto simp: mesh_served_def upd_conn_def)
  ultimately show ?thesis using r(1,4) by (simp add: m)
qed

lemma served_mesh:
  assumes "mesh_ok e" "mesh_served b a e = Some e'"
  shows "mesh_ok e'"
proof -
  obtain p p' where "get_pool b (me_pools e) = Some p" "e' = set_pool b (Some p') e"
    "upd_conn a (\<lambda>x. x\<lparr>px_queries_served := px_queries_served x + 1\<rparr>) p = Some p'"
    using assms(2) by (auto simp: mesh_served_def split: bind_splits)
  with assms(1) served_idle [of p a "\<lambda>x. px_queries_served x + 1" p'] show ?thesis
    by (auto simp: mesh_ok_def)
qed

lemmas mesh_sel = mesh_services_def services.select_convs

text \<open>Forwarding leaves the pools alone.\<close>

definition bookkeeping :: "'s mesh \<Rightarrow> PoolManager \<times> bool" where
  "bookkeeping e = (me_pools e, me_defined e)"

lemma forward_mesh:
  assumes "forward_query (mesh_services E) send a q c = Some (ok, c')"
  shows "me_pools (mc_ext c') = me_pools (mc_ext c) \<and> me_defined (mc_ext c') = me_defined (mc_ext c) \<and> is_ok ok"
  using forward_query_keeps [of "\<lambda>_. bookkeeping" "mesh_services E" a, OF _ _ refl assms]
  by (simp add: mesh_services_def bookkeeping_def split: prod.splits)

lemma plan_mesh: "mesh_plan E sql v e = (pr, x1) \<Longrightarrow> me_pools x1 = me_pools e \<and> me_defined x1 = me_defined e"
  by (auto simp: mesh_plan_def split: prod.splits)

lemma route_mesh:
  assumes "route_and_forward (mesh_services E) send q sql c = Some (r, c')" "alloc_ok E" "mesh_ok (mc_ext c)"
  shows "mesh_ok (mc_ext c')"
proof -
  obtain pr x1 where pl: "sv_plan (mesh_services E) sql (mc_view c) (mc_ext c) = (pr, x1)" by fastforce
  have x1: "mesh_ok x1" using plan_mesh [of E] pl assms(3) by (fastforce simp: mesh_sel mesh_ok_def)
  from assms(1) pl show ?thesis
  proof (cases rule: route_cases)
    case Not_routed
    with x1 show ?thesis by simp
  next
    case (Not_acquired p e x2)
    with acquire_mesh [OF assms(2) x1] show ?thesis by (fastforce simp: mesh_sel)
  next
    case (Forwarded p a x2 ok c1)
    let ?b = "rp_backend_id p"
    have "mesh_lent ?b a x2" using acquire_mesh [OF assms(2) x1] Forwarded(2,3) by (fastforce simp: mesh_sel)
    with forward_mesh [OF Forwarded(4)] have l: "mesh_lent ?b a (mc_ext c1)" "is_ok ok" by (simp_all add: mesh_lent_def)
    then obtain h pool where h: "ok = Ok h" "get_pool ?b (me_pools (mc_ext c1)) = Some pool"
      by (cases ok) (auto simp: mesh_lent_def)
    from release_mesh [OF l(1) h(2), of E h] Forwarded(5) h(1) show ?thesis
      by (auto simp: mesh_sel dest: served_mesh split: option.splits)
  qed
qed

definition keeps_ok :: "'s environment \<Rightarrow> 's mesh \<Rightarrow> 's mesh \<Rightarrow> bool" where
  "keeps_ok E e e' \<longleftrightarrow> (alloc_ok E \<longrightarrow> mesh_ok e \<longrightarrow> mesh_ok e')"

interpretation pool_states: session_relation "mesh_services E" send "keeps_ok E" for E send
  by unfold_locales (auto simp: keeps_ok_def dest: route_mesh)

section \<open>Properties\<close>

text \<open>C13. A session leaves the program's own pools as it found them: over the routing engine and the
  connection pools of the program, whatever the client and the backends send, when the session ends every
  pool satisfies its invariant, none of its connections is lent and nobody waits.\<close>

theorem session_returns_connections:
  assumes "alloc_ok E" and "mesh_ok e" and "mc_run (mesh_services E) send recv rand_bytes node (mc_new sock e cid) = Some (r, c')"
  shows "mesh_ok (mc_ext c')"
  using pool_states.run_related [OF assms(3)] assms(1,2) by (simp add: keeps_ok_def mc_new_def)

text \<open>C33. A query whose backend breaks ends in undefined behaviour, and no other does: once a connection is
  borrowed from a running pool and the query is forwarded, the increment of \<open>queries_served\<close> follows a
  destroyed connection exactly when the forwarding failed.\<close>

theorem broken_backend_undefined:
  assumes "alloc_ok E" and "mesh_ok (mc_ext c)"
    and "mesh_plan E sql (mc_view c) (mc_ext c) = (Ok pl, x1)" and "get_pool (rp_backend_id pl) (me_pools x1) \<noteq> None"
    and "mesh_acquire E (rp_backend_id pl) x1 = (Ok a, x2)"
    and "get_pool (rp_backend_id pl) (me_pools x2) = Some p" and "\<not> cp_shutting_down p"
    and "cp_heap p a = Some x" and "px_open x"
    and "forward_query (mesh_services E) send a q (c\<lparr>mc_ext := x2\<rparr>) = Some (Ok h, c1)"
    and "route_and_forward (mesh_services E) send q sql c = Some (r, c')"
  shows "r = Err Undefined \<longleftrightarrow> \<not> h"
proof -
  let ?b = "rp_backend_id pl"
  have x1: "mesh_ok x1" using plan_mesh [OF assms(3)] assms(2) by (simp add: mesh_ok_def)
  have "mesh_lent ?b a x2" using acquire_mesh [OF assms(1) x1 assms(4,5)] by simp
  with forward_mesh [OF assms(10)] assms(6) have l: "mesh_lent ?b a (mc_ext c1)"
    and p: "get_pool ?b (me_pools (mc_ext c1)) = Some p" by (simp_all add: mesh_lent_def)
  have pl: "sv_plan (mesh_services E) sql (mc_view c) (mc_ext c) = (Ok pl, x1)" using assms(3) by (simp add: mesh_sel)
  from assms(11) pl show ?thesis
  proof (cases rule: route_cases)
    case (Forwarded pl' a' x2' ok c1')
    with assms(5,10) have "ok = Ok h" "c1' = c1" "pl' = pl" "a' = a" by (auto simp: mesh_sel)
    with Forwarded(5) release_mesh [OF l p, of E h] assms(7-9) show ?thesis
      by (auto simp: mesh_sel split: option.splits)
  qed (use assms(4,5,10) in \<open>auto simp: mesh_sel\<close>)
qed

section \<open>A sample proxy\<close>

text \<open>Two backends whose sockets answer every command with an OK packet; even addresses belong to the
  first backend.\<close>

definition sample_answer :: "BackendID \<Rightarrow> bytes \<Rightarrow> (u8 \<times> bytes) list" where
  "sample_answer b q = [(1, make_ok 0 0 0x0002 0)]"

definition sample_env :: "(BackendID \<times> bytes) environment" where
  "sample_env = \<lparr>en_schemas = sample_schemas, en_registry = br_run rev sample_ops, en_routing = default_RoutingConfig,
     en_raw = (\<lambda>_. 0), en_ctx = no_context, en_clock = (\<lambda>_. 0),
     en_alloc = (\<lambda>b A. let k = Suc (Max (insert 0 A)) in if b = ''a'' then 2 * k else 2 * k + 1),
     en_connect = (\<lambda>_ _. Ok True),
     en_send = (\<lambda>(b, ins) bs. (True, (b, ins @ frames (sample_answer b (drop 4 bs))))),
     en_recv = (\<lambda>(b, ins) n. case pipe_recv ins n of (r, ins') \<Rightarrow> (r, (b, ins')))\<rparr>"

definition sample_state :: "(BackendID \<times> bytes) mesh" where
  "sample_state = \<lparr>me_ticks = 0, me_counters = (\<lambda>_. 0),
     me_pools = fold create_pool_with_factory [sample_backend ''a'' PRIMARY, sample_backend ''b'' REPLICA] pm_new,
     me_sock = (\<lambda>a. (if even a then ''a'' else ''b'', [])), me_defined = True\<rparr>"

lemma sample_alloc: "alloc_ok (sample_env\<lparr>en_send := f\<rparr>)"
proof -
  have "2 * Suc (Max (insert 0 A)) \<notin> A" "2 * Suc (Max (insert 0 A)) + 1 \<notin> A" if "finite A" for A :: "nat set"
  proof -
    have le: "x \<le> Max (insert 0 A)" if "x \<in> A" for x using \<open>finite A\<close> that by simp
    show "2 * Suc (Max (insert 0 A)) \<notin> A" "2 * Suc (Max (insert 0 A)) + 1 \<notin> A"
      using le [of "2 * Suc (Max (insert 0 A))"] le [of "2 * Suc (Max (insert 0 A)) + 1"] by auto
  qed
  then show ?thesis by (simp add: alloc_ok_def sample_env_def Let_def)
qed

lemma sample_get_pool: "get_pool b (me_pools sample_state) =
    (if b = ''a'' \<or> b = ''b'' then Some (cp_new b default_PoolConfig) else None)"
  by (simp add: sample_state_def get_pool_def create_pool_with_factory_def pm_new_def sample_backend_def default_BackendConfig_def)

lemma idle_new: "idle (cp_new b cfg)"
  by (simp add: idle_def pool_inv_new) (simp add: cp_new_def)

lemma sample_ok: "mesh_ok sample_state"
  by (auto simp: mesh_ok_def sample_get_pool idle_new split: if_splits) (simp add: sample_state_def)

theorem session_returns_connections_witness:
  "\<exists>c'. mc_run (mesh_services sample_env) pipe_send (\<lambda>s n. (None, s)) (Some (replicate 20 7)) default_NodeConfig (mc_new [] sample_state 1) =
     Some (Ok (), c') \<and> mesh_ok (mc_ext c')"
proof -
  let ?c = "mc_new ([] :: bytes) sample_state 1"
  let ?hs = "default_HandshakeV10\<lparr>hs_connection_id := 1, hs_server_version := ''8.0.30-dbmesh'', hs_auth_data := replicate 20 7\<rparr>"
  have f: "map (\<lambda>b. if b = 0 then 1 else b) (fill 20 (replicate 20 7)) = (replicate 20 7 :: bytes)" by code_simp
  have "length (hs_encode ?hs) < 200" by code_simp
  then have "length (hs_encode ?hs) < MAX_PACKET_SIZE" by (simp add: MAX_PACKET_SIZE_def)
  from hangup_returns [OF pipe_reliable(1) this, where rand_bytes = "Some (replicate 20 7)" and c = ?c and node = default_NodeConfig and S = "mesh_services sample_env"] obtain c' where
    r: "mc_run (mesh_services sample_env) pipe_send (\<lambda>s n. (None, s)) (Some (replicate 20 7)) default_NodeConfig ?c = Some (Ok (), c')"
    by (auto simp: generate_auth_data_def mc_new_def default_NodeConfig_def f)
  with session_returns_connections [OF _ sample_ok r] sample_alloc [of "en_send sample_env"] show ?thesis by simp
qed

text \<open>The sample proxy with backends that are gone.\<close>

definition broken_env :: "(BackendID \<times> bytes) environment" where
  "broken_env = sample_env\<lparr>en_send := \<lambda>s bs. (False, s)\<rparr>"

theorem broken_backend_undefined_witness:
  "\<exists>c'. route_and_forward (mesh_services broken_env) pipe_send [3, 59] ''DELETE FROM t'' (mc_new [] sample_state 1) = Some (Err Undefined, c')"
proof -
  let ?c = "mc_new ([] :: bytes) sample_state 1" and ?sql = "''DELETE FROM t''" and ?S = "mesh_services broken_env"
  let ?pl = "\<lparr>rp_query_type = DELETE, rp_schema = [], rp_backend_id = ''a'', rp_role = PRIMARY\<rparr>"
  have v: "mc_view ?c = sample_session" by (simp add: mc_view_def mc_new_def sample_session_def)
  obtain x1 where x1: "mesh_plan broken_env ?sql (mc_view ?c) (mc_ext ?c) = (Ok ?pl, x1)" "me_pools x1 = me_pools sample_state" "me_ticks x1 = 0"
    using sample_plan unfolding v
    by (cases "plan sample_schemas (br_run rev sample_ops) default_RoutingConfig 0 no_context (\<lambda>_. 0) ?sql sample_session")
      (simp add: mesh_plan_def broken_env_def sample_env_def mc_new_def, simp add: sample_state_def)
  let ?p = "cp_new ''a'' default_PoolConfig"
  obtain p where p: "acquire 2 (Ok True) 0 ?p = Some (Ok 2, p)" "\<not> cp_shutting_down p" "\<exists>x. cp_heap p 2 = Some x \<and> px_open x"
    by (simp add: acquire_def acquire_start_def acquire_created_def cp_new_def default_PoolConfig_def track_def upd_conn_def sync_metrics_def)
  then obtain x where x: "cp_heap p 2 = Some x" "px_open x" by blast
  let ?x2 = "set_pool ''a'' (Some p) x1"
  have aq: "mesh_acquire broken_env (rp_backend_id ?pl) x1 = (Ok 2, ?x2)"
    using p(1) x1(2,3) by (simp add: mesh_acquire_def sample_get_pool broken_env_def sample_env_def cp_new_def numeral_2_eq_2)
  have "write_packet (sv_bsend ?S 2) e [3, 59] 0 = Some (Err WRITE_FAILED, 1, e)" for e
    unfolding write_packet_def by (subst write_loop.simps) (simp add: mesh_services_def broken_env_def)
  then have fw: "forward_query ?S pipe_send 2 [3, 59] (?c\<lparr>mc_ext := ?x2\<rparr>) = Some (Ok False, ?c\<lparr>mc_ext := ?x2\<rparr>)"
    by (simp add: forward_query_def)
  let ?msg = "''DBMesh: backend '' @ [CHR 0x27] @ ''a'' @ [CHR 0x27] @ '' disconnected during query''"
  have "length (make_err err_CON_COUNT_ERROR ''08S01'' ?msg) < 200" by code_simp
  then have "length (make_err err_CON_COUNT_ERROR ''08S01'' ?msg) < MAX_PACKET_SIZE" by (simp add: MAX_PACKET_SIZE_def)
  from mc_send_small [OF pipe_reliable(1) this] have "\<exists>y. send_err pipe_send err_CON_COUNT_ERROR ''08S01'' ?msg c = Some y" for c :: "(bytes, (BackendID \<times> bytes) mesh) MySqlConnection"
    unfolding send_err_def by blast
  then have "\<exists>y. route_and_forward ?S pipe_send [3, 59] ?sql ?c = Some y"
    using x1(1) aq fw x1(2) by (simp add: route_view mesh_sel sample_get_pool Let_def split: option.split)
  then obtain r c' where r: "route_and_forward ?S pipe_send [3, 59] ?sql ?c = Some (r, c')" by fastforce
  have gp: "get_pool (rp_backend_id ?pl) (me_pools x1) \<noteq> None" using x1(2) by (simp add: sample_get_pool)
  have al: "alloc_ok broken_env" unfolding broken_env_def by (rule sample_alloc)
  have "mesh_ok (mc_ext ?c)" using sample_ok by (simp add: mc_new_def)
  from broken_backend_undefined [OF al this x1(1) gp aq _ p(2) x(1,2) fw r] r show ?thesis by simp
qed

end
