(* ===== verification/Proxy.thy ===== *)
theory Proxy
  imports Mesh
begin

text \<open>
  The whole proxy seen from a client, over backends that answer: an ideal proxy that says which bytes
  a client may get for its script of statements, and the proof that a session of the program, over its own
  engine and pools, sends only those and returns.
\<close>

section \<open>Running pools\<close>

text \<open>A pool that serves: not shut down, with room for a connection, and with open connections only.\<close>

definition running :: "ConnectionPool \<Rightarrow> bool" where
  "running p \<longleftrightarrow> \<not> cp_shutting_down p \<and> 0 < unat (pool_max (cp_config p)) \<and> (\<forall>c x. cp_heap p c = Some x \<longrightarrow> px_open x)"

lemma acquire_running:
  assumes "idle p" "running p" "a \<notin> set (cp_all p)"
  shows "\<exists>c p'. acquire a (Ok True) now p = Some (Ok c, p') \<and> lent c p' \<and> running p' \<and>
    c \<in> set (cp_all p') \<and> set (cp_all p') \<subseteq> insert a (set (cp_all p))"
proof -
  from acquire_idle [OF assms(1,3), of "Ok True" now] obtain r p' where
    a: "acquire a (Ok True) now p = Some (r, p')" "case r of Ok c \<Rightarrow> lent c p' | Err _ \<Rightarrow> idle p'" by blast
  have "cp_free_list p = [] \<Longrightarrow> cp_all p = []"
    using assms(1) by (auto simp: idle_def pool_inv_def pool_struct_def)
  then have "\<exists>c. r = Ok c \<and> running p' \<and> set (cp_all p') \<subseteq> insert a (set (cp_all p))"
    using a(1) assms(2)
    by (auto simp: acquire_def acquire_start_def acquire_created_def upd_conn_def track_def running_def sync_metrics_def
        split: list.splits bind_splits if_splits)
  then obtain c where c: "r = Ok c" "running p'" "set (cp_all p') \<subseteq> insert a (set (cp_all p))" by blast
  with a(2) have "lent c p'" "c \<in> set (cp_all p')" by (auto simp: lent_def pool_inv_def pool_struct_def)
  with a(1) c show ?thesis by blast
qed

lemma release_running:
  assumes "lent a p" "running p"
  shows "\<exists>p'. release a True now p = Some p' \<and> idle p' \<and> running p' \<and> cp_all p' = cp_all p \<and> cp_heap p' a \<noteq> None"
proof -
  obtain x p' where r: "cp_heap p a = Some x" "release a True now p = Some p'" "idle p'"
    "cp_heap p' a = None \<longleftrightarrow> cp_shutting_down p \<or> \<not> px_open x"
    using release_lent [OF assms(1), of True now] by (elim exE conjE) (rule that, auto)
  have "running p' \<and> cp_all p' = cp_all p"
    using r(1,2) assms by (auto simp: release_def lent_def running_def upd_conn_def sync_metrics_def Let_def split: if_splits)
  with r assms show ?thesis by (auto simp: running_def)
qed

lemma served_running:
  assumes "idle p" "running p" "cp_heap p a \<noteq> None"
  shows "\<exists>p'. upd_conn a (\<lambda>x. x\<lparr>px_queries_served := px_queries_served x + 1\<rparr>) p = Some p' \<and> idle p' \<and> running p' \<and> cp_all p' = cp_all p"
proof -
  from assms(3) obtain x where x: "cp_heap p a = Some x" by blast
  then obtain p' where p': "upd_conn a (\<lambda>x. x\<lparr>px_queries_served := px_queries_served x + 1\<rparr>) p = Some p'" by (simp add: upd_conn_def)
  from served_idle [OF assms(1) p'] p' x assms(2) show ?thesis
    by (auto simp: upd_conn_def running_def split: if_splits)
qed

section \<open>Backends that answer\<close>

text \<open>
  A socket to a backend: \<open>who\<close> is the backend at its other end and \<open>inb\<close> the bytes on their way to the
  proxy. When nothing is on its way, a command makes the backend send its answer.
\<close>

definition server :: "'s environment \<Rightarrow> ('s \<Rightarrow> BackendID) \<Rightarrow> ('s \<Rightarrow> bytes) \<Rightarrow> (BackendID \<Rightarrow> bytes \<Rightarrow> (u8 \<times> bytes) list) \<Rightarrow> bool" where
  "server E who inb answer \<longleftrightarrow>
     reliable_recv (en_recv E) inb \<and> (\<forall>s n. who (snd (en_recv E s n)) = who s) \<and>
     (\<forall>b q. response (answer b q)) \<and>
     (\<forall>s q. inb s = [] \<longrightarrow> length q < MAX_PACKET_SIZE \<longrightarrow>
        (\<exists>s'. en_send E s (encode q 0) = (True, s') \<and> who s' = who s \<and> inb s' = frames (answer (who s) q)))"

text \<open>The state of a proxy that serves: pools of running, idle backends, quiet sockets that lead to the
  backend of their pool.\<close>

definition serving_mesh :: "'s environment \<Rightarrow> ('s \<Rightarrow> BackendID) \<Rightarrow> ('s \<Rightarrow> bytes) \<Rightarrow> 's mesh \<Rightarrow> bool" where
  "serving_mesh E who inb e \<longleftrightarrow> mesh_ok e \<and> (\<forall>a. inb (me_sock e a) = []) \<and>
     (\<forall>b A. get_pool b (me_pools e) \<noteq> None \<longrightarrow> who (me_sock e (en_alloc E b A)) = b) \<and>
     (\<forall>b p. get_pool b (me_pools e) = Some p \<longrightarrow> running p \<and> (\<forall>a \<in> set (cp_all p). who (me_sock e a) = b))"

text \<open>Over the mesh, a socket of the proxy is the socket of the connection.\<close>

lemma write_once:
  assumes "length p < MAX_PACKET_SIZE" "send s (encode p q) = (True, s')"
  shows "write_packet send s p q = Some (Ok (), q + 1, s')"
proof -
  have "length p = 0 \<or> length p mod MAX_PACKET_SIZE \<noteq> 0" using assms(1) by auto
  moreover have "chunk_header (length p) q @ p = encode p q" using assms(1) by (simp add: encode_eq)
  ultimately show ?thesis
    unfolding write_packet_def using assms by (subst write_loop.simps) (auto simp: Let_def)
qed

lemma recv_sock:
  fixes E :: "'s environment"
  assumes "reliable_recv (en_recv E) inb"
  shows "reliable_recv (sv_brecv (mesh_services E) a) (\<lambda>e. inb (me_sock e a))"
  unfolding reliable_recv_def
proof (intro allI impI)
  fix e :: "'s mesh" and n assume "n \<le> length (inb (me_sock e a))"
  with assms obtain s' where "en_recv E (me_sock e a) n = (Some (take n (inb (me_sock e a))), s')" "inb s' = drop n (inb (me_sock e a))"
    unfolding reliable_recv_def by blast
  then show "\<exists>e'. sv_brecv (mesh_services E) a e n = (Some (take n (inb (me_sock e a))), e') \<and> inb (me_sock e' a) = drop n (inb (me_sock e a))"
    by (simp add: mesh_services_def)
qed

lemma release_serving:
  assumes "mesh_lent b a e" "get_pool b (me_pools e) = Some p" "running p"
  shows "\<exists>p' e'. mesh_served b a (mesh_release E b a True e) = Some e' \<and>
    me_sock e' = me_sock e \<and> me_defined e' = me_defined e \<and>
    (\<forall>b'. get_pool b' (me_pools e') = (if b' = b then Some p' else get_pool b' (me_pools e))) \<and>
    idle p' \<and> running p' \<and> cp_all p' = cp_all p"
proof -
  have "lent a p" using assms(1,2) by (auto simp: mesh_lent_def)
  from release_running [OF this assms(3), of "en_clock E (me_ticks e)"] obtain p1 where
    p1: "release a True (en_clock E (me_ticks e)) p = Some p1" "idle p1" "running p1" "cp_all p1 = cp_all p" "cp_heap p1 a \<noteq> None"
    by blast
  from served_running [OF p1(2,3,5)] obtain p2 where
    "upd_conn a (\<lambda>x. x\<lparr>px_queries_served := px_queries_served x + 1\<rparr>) p1 = Some p2" "idle p2" "running p2" "cp_all p2 = cp_all p1" by blast
  with p1 assms(2) show ?thesis
    by (intro exI [of _ p2] exI [of _ "set_pool b (Some p2) (mesh_release E b a True e)"])
       (simp add: mesh_release_def mesh_served_def)
qed

text \<open>What a routed query does to a serving proxy.\<close>

lemma query_serving:
  fixes E :: "'s environment"
  assumes sv: "server E who inb answer" and m: "serving_mesh E who inb (mc_ext c)" and al: "alloc_ok E"
    and cn: "\<And>b n. en_connect E b n = Ok True" and d: "duplex send recv inflight sent" and n: "length q < MAX_PACKET_SIZE"
    and pl: "mesh_plan E sql (mc_view c) (mc_ext c) = (Ok pl, x1)"
    and po: "get_pool (rp_backend_id pl) (me_pools (mc_ext c)) \<noteq> None"
  shows "\<exists>c'. route_and_forward (mesh_services E) send q sql c = Some (Ok (), c') \<and>
    sent (mc_socket c') = sent (mc_socket c) @ frames (answer (rp_backend_id pl) q) \<and>
    inflight (mc_socket c') = inflight (mc_socket c) \<and> mc_view c' = mc_view c \<and>
    serving_mesh E who inb (mc_ext c') \<and> (\<forall>b. get_pool b (me_pools (mc_ext c')) = None \<longleftrightarrow> get_pool b (me_pools (mc_ext c)) = None)"
proof -
  let ?b = "rp_backend_id pl" and ?S = "mesh_services E"
  have x1: "me_pools x1 = me_pools (mc_ext c)" "me_defined x1 = me_defined (mc_ext c)" "me_sock x1 = me_sock (mc_ext c)"
    using pl by (auto simp: mesh_plan_def split: prod.splits)
  have m1: "serving_mesh E who inb x1" using m x1 by (simp add: serving_mesh_def mesh_ok_def)
  from po x1 obtain p where p: "get_pool ?b (me_pools x1) = Some p" by auto
  with m1 have ir: "idle p" "running p" by (auto simp: serving_mesh_def mesh_ok_def)
  let ?new = "en_alloc E ?b (set (cp_all p))"
  have "?new \<notin> set (cp_all p)" using al by (simp add: alloc_ok_def)
  from acquire_running [OF ir this, of "en_clock E (me_ticks x1)"] obtain a p' where
    a: "acquire ?new (Ok True) (en_clock E (me_ticks x1)) p = Some (Ok a, p')" "lent a p'" "running p'"
      "a \<in> set (cp_all p')" "set (cp_all p') \<subseteq> insert ?new (set (cp_all p))" by blast
  let ?x2 = "set_pool ?b (Some p') x1"
  have aq: "mesh_acquire E ?b x1 = (Ok a, ?x2)" using p a(1) cn by (simp add: mesh_acquire_def)
  have l2: "mesh_lent ?b a ?x2" using acquire_mesh [OF al _ _ aq] m1 p by (simp add: serving_mesh_def)
  have who: "who (me_sock x1 a') = ?b" if "a' \<in> set (cp_all p')" for a'
    using that a(5) m1 p by (auto simp: serving_mesh_def)
  obtain s' where s': "en_send E (me_sock x1 a) (encode q 0) = (True, s')" "who s' = ?b" "inb s' = frames (answer ?b q)"
    using sv m1 n who [OF a(4)] unfolding server_def serving_mesh_def by metis
  let ?e1 = "?x2\<lparr>me_sock := (me_sock x1)(a := s')\<rparr>"
  have "sv_bsend ?S a ?x2 (encode q 0) = (True, ?e1)" using s'(1) by (simp add: mesh_services_def)
  from write_once [of q "sv_bsend ?S a" ?x2 0, OF n this] have wr: "write_packet (sv_bsend ?S a) ?x2 q 0 = Some (Ok (), 0 + 1, ?e1)" .
  define keep where "keep = (\<lambda>s (e :: 's mesh). (inflight s, me_pools e, me_defined e, \<lambda>a'. who (me_sock e a'), \<lambda>a'. if a' = a then [] else inb (me_sock e a')))"
  have k1: "keep s (snd (sv_brecv ?S a e n)) = keep s e" for s e n
    using sv by (auto simp: keep_def server_def mesh_services_def fun_eq_iff split: prod.splits) (metis snd_conv)+
  have k2: "keep (snd (send s bs)) e = keep s e" for s e bs using d by (simp add: keep_def duplex_def)
  have kd: "mesh_lent ?b a e \<and> get_pool ?b (me_pools e) = Some p'" if "keep s e = keep (mc_socket c) ?e1" for s e
    using that l2 by (auto simp: keep_def mesh_lent_def)
  have rs: "\<exists>e'. sv_served ?S ?b a (sv_release ?S ?b a True e) = Some e'" if "keep s e = keep (mc_socket c) ?e1" for s e
    using release_serving [of ?b a e p' E] kd [OF that] a(3) unfolding mesh_sel by blast
  have pre: "reliable_recv (sv_brecv ?S a) (\<lambda>e. inb (me_sock e a))" "response (answer ?b q)" "reliable_send send sent"
    "sv_plan ?S sql (mc_view c) (mc_ext c) = (Ok pl, x1)" "sv_has_pool ?S ?b x1" "sv_acquire ?S ?b x1 = (Ok a, ?x2)"
    "inb (me_sock ?e1 a) = frames (answer ?b q) @ []"
    using recv_sock [of E inb a] sv d pl p aq s'(3) by (simp_all add: server_def duplex_def mesh_sel)
  have "\<exists>c' e. route_and_forward ?S send q sql c = Some (Ok (), c') \<and>
      sent (mc_socket c') = sent (mc_socket c) @ frames (answer ?b q) \<and> relayed c c' \<and> inb (me_sock e a) = [] \<and>
      keep (mc_socket c') e = keep (mc_socket c) ?e1 \<and> sv_served ?S ?b a (sv_release ?S ?b a True e) = Some (mc_ext c')"
    by (rule route_relayed [OF pre(1,3,2,4,5,6) wr pre(7)]) (use k1 k2 rs in blast)+
  then obtain c' e where
    c': "route_and_forward ?S send q sql c = Some (Ok (), c')" "sent (mc_socket c') = sent (mc_socket c) @ frames (answer ?b q)"
      "relayed c c'" "inb (me_sock e a) = []" "keep (mc_socket c') e = keep (mc_socket c) ?e1"
      "sv_served ?S ?b a (sv_release ?S ?b a True e) = Some (mc_ext c')" by blast
  from release_serving [of ?b a e p' E] kd [OF c'(5)] a(3) c'(6) obtain p2 where
    p2: "me_sock (mc_ext c') = me_sock e" "me_defined (mc_ext c') = me_defined e" "idle p2" "running p2" "cp_all p2 = cp_all p'"
      "\<And>b'. get_pool b' (me_pools (mc_ext c')) = (if b' = ?b then Some p2 else get_pool b' (me_pools e))"
    unfolding mesh_sel by auto
  have k: "inflight (mc_socket c') = inflight (mc_socket c)" "me_pools e = me_pools ?x2" "me_defined e = me_defined x1"
    "(\<lambda>a'. who (me_sock e a')) = (\<lambda>a'. who (me_sock ?e1 a'))"
    "(\<lambda>a'. if a' = a then [] else inb (me_sock e a')) = (\<lambda>a'. if a' = a then [] else inb (me_sock ?e1 a'))"
    using c'(5) by (simp_all add: keep_def)
  have w: "who (me_sock e a') = who (me_sock x1 a')" for a'
    using fun_cong [OF k(4), of a'] s'(2) who [OF a(4)] by (auto split: if_splits)
  have "inb (me_sock e a') = []" for a'
    using fun_cong [OF k(5), of a'] c'(4) m1 by (cases "a' = a") (auto simp: serving_mesh_def)
  moreover have g: "get_pool b' (me_pools (mc_ext c')) = (if b' = ?b then Some p2 else get_pool b' (me_pools x1))" for b'
    using p2(6) k(2) by simp
  moreover have "me_defined (mc_ext c')" using p2(2) k(3) m1 by (simp add: serving_mesh_def mesh_ok_def)
  ultimately have "serving_mesh E who inb (mc_ext c')"
    using m1 p p2(1,3-5) who w by (auto simp: serving_mesh_def mesh_ok_def)
  moreover have "mc_view c' = mc_view c" using c'(3) by (simp add: relayed_def mc_view_def)
  ultimately show ?thesis using c'(1,2) k(1) g p x1(1) by auto
qed

section \<open>The abstract proxy\<close>

text \<open>
  A client's script: session statements with what they mean, and queries to be routed, each with the
  sequence number of its packet.
\<close>

datatype item = Statement session_event | Query

type_synonym script = "(u8 \<times> string \<times> item) list"

definition script_packets :: "script \<Rightarrow> bytes" where
  "script_packets items = frames (map (\<lambda>(q, sql, _). (q, query_packet sql)) items)"

text \<open>The backends that may answer a query: eligible ones of its schema, a primary unless it is a pure
  read outside a transaction.\<close>

definition may_answer :: "'s environment \<Rightarrow> SessionView \<Rightarrow> string \<Rightarrow> BackendEntry \<Rightarrow> bool" where
  "may_answer E v sql en \<longleftrightarrow>
     (\<exists>config. sr_lookup (en_schemas E) (extract_or sql (sv_current_schema v)) = Some config \<and>
        en \<in> set (all_entries (en_registry E)) \<and> eligible (en_routing E) (sc_backend_group config) (be_role en) en \<and>
        (\<not> is_read (classify sql) \<or> sv_in_transaction v \<longrightarrow> be_role en = PRIMARY))"

text \<open>
  What an ideal proxy sends to the client: an OK packet for a session statement, whose meaning changes the
  view of the session, and for a query the answer of some backend that may answer it.
\<close>

inductive replies :: "'s environment \<Rightarrow> (BackendID \<Rightarrow> bytes \<Rightarrow> (u8 \<times> bytes) list) \<Rightarrow> SessionView \<Rightarrow> script \<Rightarrow> bytes \<Rightarrow> bool"
  for E answer where
  rp_end: "replies E answer v [] []"
| rp_statement: "replies E answer (session_step ev v) items out \<Longrightarrow>
    replies E answer v ((q, sql, Statement ev) # items) (encode ok_payload (q + 1) @ out)"
| rp_query: "may_answer E v sql en \<Longrightarrow> replies E answer v items out \<Longrightarrow>
    replies E answer v ((q, sql, Query) # items) (frames (answer (be_id en) (query_packet sql)) @ out)"

inductive_cases replies_endE: "replies E answer v [] out"
inductive_simps replies_query: "replies E answer v ((q, sql, Query) # items) out"

text \<open>Scripts that the proxy can serve: statements are understood, and every query has a backend.\<close>

fun servable :: "'s environment \<Rightarrow> SessionView \<Rightarrow> script \<Rightarrow> bool" where
  "servable E v [] = True"
| "servable E v ((q, sql, Statement ev) # items) \<longleftrightarrow>
     means sql ev \<and> length sql < MAX_PACKET_SIZE - 1 \<and> servable E (session_step ev v) items"
| "servable E v ((q, sql, Query) # items) \<longleftrightarrow>
     routed sql \<and> length sql < MAX_PACKET_SIZE - 1 \<and>
     (\<exists>config. sr_lookup (en_schemas E) (extract_or sql (sv_current_schema v)) = Some config \<and>
        serving (en_registry E) (en_routing E) config (plan_role (en_routing E) (classify sql) v config) \<noteq> {}) \<and>
     servable E v items"

text \<open>The environment of a started proxy: a well-formed registry, no load signals, an allocator and
  backends that accept connections; each registered backend has a pool.\<close>

definition environment_ok :: "'s environment \<Rightarrow> bool" where
  "environment_ok E \<longleftrightarrow> alloc_ok E \<and> (\<forall>b n. en_connect E b n = Ok True) \<and> en_ctx E = no_context \<and>
     br_wf (en_registry E) \<and> (\<forall>en \<in> set (all_entries (en_registry E)). be_id en \<noteq> [])"

definition pooled :: "'s environment \<Rightarrow> 's mesh \<Rightarrow> bool" where
  "pooled E e \<longleftrightarrow> (\<forall>en \<in> set (all_entries (en_registry E)). get_pool (be_id en) (me_pools e) \<noteq> None)"

lemma plan_servable:
  assumes "environment_ok E" "sv_pinned_backend v = None"
    "sr_lookup (en_schemas E) (extract_or sql (sv_current_schema v)) = Some config"
    "serving (en_registry E) (en_routing E) config (plan_role (en_routing E) (classify sql) v config) \<noteq> {}"
  obtains pl x1 en where "mesh_plan E sql v e = (Ok pl, x1)" "may_answer E v sql en" "be_id en = rp_backend_id pl"
proof -
  have wf: "br_wf (en_registry E)" using assms(1) by (simp add: environment_ok_def)
  obtain pl where pl: "fst (plan (en_schemas E) (en_registry E) (en_routing E) (en_raw E (me_ticks e)) (en_ctx E) (me_counters e) sql v) = Ok pl"
    using plan_available [OF wf assms(3,2), of "en_routing E" "en_raw E (me_ticks e)" "me_counters e"] assms(1,4)
    by (auto simp: environment_ok_def)
  from plan_serves [OF wf pl assms(2)] assms(3) obtain en where
    en: "rp_role pl = plan_role (en_routing E) (classify sql) v config"
      "en \<in> serving (en_registry E) (en_routing E) config (rp_role pl)" "be_id en = rp_backend_id pl" by auto
  have "be_role en = PRIMARY" if "\<not> is_read (classify sql) \<or> sv_in_transaction v"
    using that plan_role_REPLICA [of "en_routing E" "classify sql" v config] serving_role [OF en(2)] en(1)
    by (cases "be_role en") (auto simp: is_read_def)
  then have "may_answer E v sql en" using serving_role [OF en(2)] assms(3) by (auto simp: may_answer_def)
  moreover obtain x1 where "mesh_plan E sql v e = (Ok pl, x1)"
    using pl by (cases "plan (en_schemas E) (en_registry E) (en_routing E) (en_raw E (me_ticks e)) (en_ctx E) (me_counters e) sql v")
      (simp add: mesh_plan_def)
  ultimately show thesis using en(3) that by blast
qed

lemma loop_serving:
  assumes sv: "server E who inb answer" and ok: "environment_ok E" and d: "duplex send recv inflight sent"
    and "serving_mesh E who inb (mc_ext c)" "pooled E (mc_ext c)" "servable E (mc_view c) items"
    and "inflight (mc_socket c) = script_packets items @ encode [cmd_QUIT] q @ rest"
  shows "\<exists>c' out. command_loop (mesh_services E) send recv c = Some (Ok (), c') \<and> inflight (mc_socket c') = rest \<and>
    replies E answer (mc_view c) items out \<and> sent (mc_socket c') = sent (mc_socket c) @ out \<and>
    serving_mesh E who inb (mc_ext c')"
  using assms(4-7)
proof (induction items arbitrary: c)
  case Nil
  then show ?case using command_loop_quit [OF d, of c q rest "mesh_services E"]
    by (fastforce simp: script_packets_def intro: rp_end)
next
  case (Cons x items)
  obtain q1 sql it where x: "x = (q1, sql, it)" by (cases x)
  let ?S = "mesh_services E" and ?rest = "script_packets items @ encode [cmd_QUIT] q @ rest"
  have n: "length sql < MAX_PACKET_SIZE - 1" using Cons.prems(3) x by (cases it) auto
  have "inflight (mc_socket c) = encode (query_packet sql) q1 @ ?rest" using Cons.prems(4) x by (simp add: script_packets_def)
  from command_loop_step [OF d n this, of ?S] obtain s where s: "inflight s = ?rest" "sent s = sent (mc_socket c)"
    "\<forall>c1. handle_command ?S send \<lparr>pk_length = word_of_nat (length (query_packet sql)), pk_sequence = q1, pk_payload = query_packet sql\<rparr>
        (c\<lparr>mc_seq := 0, mc_socket := s\<rparr>) = Some (Ok False, c1) \<longrightarrow> command_loop ?S send recv c = command_loop ?S send recv c1" .
  let ?c = "c\<lparr>mc_seq := 0, mc_socket := s\<rparr>"
  show ?case
  proof (cases it)
    case (Statement ev)
    with Cons.prems(3) x have m: "means sql ev" "servable E (session_step ev (mc_view c)) items" by auto
    from handle_session_command [OF d m(1), of ?S _ q1 ?c] s obtain c1 where c1:
      "command_loop ?S send recv c = command_loop ?S send recv c1" "inflight (mc_socket c1) = ?rest"
      "sent (mc_socket c1) = sent (mc_socket c) @ encode ok_payload (q1 + 1)"
      "mc_ext c1 = mc_ext c" "mc_view c1 = session_step ev (mc_view c)" by fastforce
    from Cons.IH [of c1] Cons.prems(1,2) m(2) c1 obtain c' out where
      "command_loop ?S send recv c1 = Some (Ok (), c')" "inflight (mc_socket c') = rest"
      "replies E answer (session_step ev (mc_view c)) items out" "sent (mc_socket c') = sent (mc_socket c1) @ out"
      "serving_mesh E who inb (mc_ext c')" by auto
    with c1 x Statement show ?thesis by (auto intro!: exI [of _ c'] rp_statement)
  next
    case Query
    with Cons.prems(3) x obtain config where qr: "routed sql" "servable E (mc_view c) items"
      "sr_lookup (en_schemas E) (extract_or sql (sv_current_schema (mc_view c))) = Some config"
      "serving (en_registry E) (en_routing E) config (plan_role (en_routing E) (classify sql) (mc_view c) config) \<noteq> {}" by auto
    let ?c1 = "?c\<lparr>mc_seq := q1 + 1\<rparr>"
    have "sv_pinned_backend (mc_view c) = None" by (simp add: mc_view_def)
    from plan_servable [OF ok this qr(3,4), of "mc_ext c"] obtain pl x1 en where
      pl: "mesh_plan E sql (mc_view c) (mc_ext c) = (Ok pl, x1)" "may_answer E (mc_view c) sql en" "be_id en = rp_backend_id pl" .
    have po: "get_pool (rp_backend_id pl) (me_pools (mc_ext c)) \<noteq> None"
      using Cons.prems(2) pl(2,3) unfolding pooled_def may_answer_def by metis
    have "length (query_packet sql) < MAX_PACKET_SIZE" using n by (auto simp: query_packet_def)
    from query_serving [OF sv _ _ _ d this, of ?c1 sql pl x1] Cons.prems(1) ok pl(1) po obtain c2 where
      c2: "route_and_forward ?S send (query_packet sql) sql ?c1 = Some (Ok (), c2)"
        "sent (mc_socket c2) = sent s @ frames (answer (be_id en) (query_packet sql))" "inflight (mc_socket c2) = inflight s"
        "mc_view c2 = mc_view c" "serving_mesh E who inb (mc_ext c2)"
        "\<forall>b. get_pool b (me_pools (mc_ext c2)) = None \<longleftrightarrow> get_pool b (me_pools (mc_ext c)) = None"
      unfolding environment_ok_def by (auto simp: pl(3))
    have "command_loop ?S send recv c = command_loop ?S send recv c2"
      using s(3) command_routed [OF qr(1) c2(1)] by blast
    moreover have "pooled E (mc_ext c2)" using Cons.prems(2) c2(6) by (simp add: pooled_def)
    ultimately show ?thesis
      using Cons.IH [of c2] c2 qr(2) s x Query pl(2) by (fastforce intro: rp_query)
  qed
qed

section \<open>The whole session\<close>

text \<open>C1. The proxy refines the ideal proxy on the wire. A client that logs in, sends any script of session
  statements and queries for which a backend exists, and quits, gets the greeting, an OK, and then bytes
  that the ideal proxy allows: an OK for every statement, and for every query exactly the answer of an
  eligible backend of its schema, of a primary when the query may write or a transaction is open. The
  session returns, and every pool is idle and serves again. The engine, the registries and the pools are the program's own; the
  backends answer commands and the sockets are reliable.\<close>

theorem proxy_refines:
  assumes "server E who inb answer" and "environment_ok E" and "serving_mesh E who inb e" and "pooled E e"
    and "duplex send recv inflight sent" and "greeting rand_bytes node cid = Some hs"
    and "length (hs_encode hs) < MAX_PACKET_SIZE" and "length packet < MAX_PACKET_SIZE" and "hr_decode packet = Some (Ok resp)"
    and "v = \<lparr>sv_current_schema = hr_database resp, sv_in_transaction = False, sv_autocommit = True, sv_pinned_backend = None\<rparr>"
    and "servable E v items"
    and "inflight sock = encode packet q1 @ script_packets items @ encode [cmd_QUIT] q2 @ rest"
  shows "\<exists>c' out. mc_run (mesh_services E) send recv rand_bytes node (mc_new sock e cid) = Some (Ok (), c') \<and>
    replies E answer v items out \<and>
    sent (mc_socket c') = sent sock @ encode (hs_encode hs) 0 @ encode (make_ok 0 0 0x0002 0) 2 @ out \<and>
    inflight (mc_socket c') = rest \<and> serving_mesh E who inb (mc_ext c')"
proof -
  from login [OF assms(5-9,12), of e "mesh_services E"] obtain c1 where c1:
    "inflight (mc_socket c1) = script_packets items @ encode [cmd_QUIT] q2 @ rest"
    "sent (mc_socket c1) = sent sock @ encode (hs_encode hs) 0 @ encode ok_payload 2" "mc_ext c1 = e" "mc_view c1 = v"
    "\<And>c2. command_loop (mesh_services E) send recv c1 = Some (Ok (), c2) \<Longrightarrow>
       mc_run (mesh_services E) send recv rand_bytes node (mc_new sock e cid) = Some (Ok (), c2)"
    unfolding assms(10) by blast
  from loop_serving [OF assms(1,2,5) _ _ _ c1(1)] assms(3,4,11) c1(3,4) obtain c2 out where
    "command_loop (mesh_services E) send recv c1 = Some (Ok (), c2)" "inflight (mc_socket c2) = rest"
    "replies E answer v items out" "sent (mc_socket c2) = sent (mc_socket c1) @ out" "serving_mesh E who inb (mc_ext c2)" by auto
  with c1(2,5) show ?thesis by auto
qed

lemma ok_response: "response [(1, ok_payload)]"
proof -
  have "hd ok_payload = OK_PACKET" by code_simp
  then show ?thesis using ok_payload_small by (simp add: response_def single_response_def)
qed

lemma sample_server: "server sample_env fst snd sample_answer"
proof -
  have "drop 4 (encode q 0) = q" if "length q < MAX_PACKET_SIZE" for q
    using that by (simp add: encode_eq)
  then show ?thesis
    by (auto simp: server_def sample_env_def reliable_recv_def pipe_recv_def sample_answer_def ok_response split: prod.splits if_splits)
qed

lemma sample_environment: "environment_ok sample_env"
proof -
  have "\<forall>en \<in> set (all_entries (br_run rev sample_ops)). be_id en \<noteq> []"
    by (simp add: sample_run)
  then show ?thesis
    using sample_alloc [of "en_send sample_env"] sample_wf by (simp add: environment_ok_def) (simp add: sample_env_def)
qed

lemma sample_pooled: "pooled sample_env sample_state"
proof -
  have "\<forall>en \<in> set (all_entries (br_run rev sample_ops)). be_id en \<in> {''a'', ''b''}"
    by (simp add: sample_run)
  then show ?thesis by (auto simp: pooled_def sample_get_pool sample_env_def)
qed

lemma running_new: "0 < unat (pool_max cfg) \<Longrightarrow> running (cp_new b cfg)"
  by (simp add: running_def cp_new_def)

lemma sample_serving: "serving_mesh sample_env fst snd sample_state"
  by (auto simp: serving_mesh_def sample_ok sample_get_pool running_new default_PoolConfig_def split: if_splits)
     (auto simp: sample_state_def sample_env_def cp_new_def Let_def)

lemma sample_servable:
  "servable sample_env \<lparr>sv_current_schema = ''shop'', sv_in_transaction = False, sv_autocommit = True, sv_pinned_backend = None\<rparr>
     [(0, ''Begin'', Statement Begin_txn), (0, ''DELETE FROM t'', Query)]"
proof -
  have "routed ''DELETE FROM t''" by code_simp
  moreover have "serving (br_run rev sample_ops) default_RoutingConfig (default_SchemaConfig\<lparr>sc_name := ''default'', sc_backend_group := ''g''\<rparr>) PRIMARY \<noteq> {}"
    using sample_candidates [of PRIMARY] set_candidates [OF sample_wf, of default_RoutingConfig _ PRIMARY] by fastforce
  moreover have "plan_role r t v config = PRIMARY" if "sv_in_transaction v" for r t v config
    using that by (simp add: plan_role_def select_role_def)
  ultimately show ?thesis
    using sample_means(2) by (simp add: sample_env_def sample_lookup MAX_PACKET_SIZE_def)
qed

theorem proxy_refines_witness:
  "\<exists>c' out. mc_run (mesh_services sample_env) two_pipes_send two_pipes_recv (Some (replicate 20 7)) default_NodeConfig
      (mc_new (encode (hr_encode Handshake.sample_response) 1 @ script_packets [(0, ''Begin'', Statement Begin_txn), (0, ''DELETE FROM t'', Query)] @ encode [cmd_QUIT] 0, []) sample_state 1) = Some (Ok (), c') \<and>
    replies sample_env sample_answer \<lparr>sv_current_schema = ''shop'', sv_in_transaction = False, sv_autocommit = True, sv_pinned_backend = None\<rparr>
      [(0, ''Begin'', Statement Begin_txn), (0, ''DELETE FROM t'', Query)] out"
proof -
  let ?hs = "default_HandshakeV10\<lparr>hs_connection_id := 1, hs_server_version := ''8.0.30-dbmesh'', hs_auth_data := replicate 20 7\<rparr>"
  have f: "map (\<lambda>b. if b = 0 then 1 else b) (fill 20 (replicate 20 7)) = (replicate 20 7 :: bytes)" by code_simp
  then have g: "greeting (Some (replicate 20 7)) default_NodeConfig 1 = Some ?hs"
    by (simp add: greeting_def generate_auth_data_def default_NodeConfig_def)
  have "length (hs_encode ?hs) < 200" "length (hr_encode Handshake.sample_response) < 200" by code_simp+
  then have n: "length (hs_encode ?hs) < MAX_PACKET_SIZE" "length (hr_encode Handshake.sample_response) < MAX_PACKET_SIZE" by (simp_all add: MAX_PACKET_SIZE_def)
  have "hr_valid Handshake.sample_response" by code_simp
  then have d: "hr_decode (hr_encode Handshake.sample_response) = Some (Ok Handshake.sample_response)" by (rule hr_decode_encode)
  have db: "hr_database Handshake.sample_response = ''shop''" by (simp add: Handshake.sample_response_def)
  from proxy_refines [OF sample_server sample_environment sample_serving sample_pooled two_pipes_duplex g n d refl,
      of "[(0, ''Begin'', Statement Begin_txn), (0, ''DELETE FROM t'', Query)]" _ 1 0 "[]"] sample_servable
  show ?thesis by (fastforce simp: db)
qed

end
