(* ===== verification/Isolation.thy ===== *)
theory Isolation
  imports PoolSystem MySqlConnection
begin

text \<open>
  Many sessions at once over the pool of one backend. A session asks a query, acquires a connection,
  writes the query, relays the response frame by frame and releases the connection; each of these is
  a suspension point of \<open>route_and_forward\<close> and \<open>proxy_result\<close>, so that
  the frames of different sessions interleave in any order with each other and with every other
  handler of the pool. The wire of a connection is what its backend has sent and the proxy has not
  read.
\<close>

section \<open>Relaying one frame\<close>

text \<open>Where \<open>proxy_result\<close> waits for the next packet, and where it goes on with it;
  \<^const>\<open>None\<close> is its end.\<close>

datatype phase = First | Columns | Rows

fun relay_step :: "phase \<Rightarrow> bytes \<Rightarrow> phase option" where
  "relay_step First p = (if single_response p then None else Some Columns)"
| "relay_step Columns p = Some (if is_eof_packet p then Rows else Columns)"
| "relay_step Rows p = (if is_eof_packet p then None else Some Rows)"

text \<open>The phase after some frames, the frames that end the relay, and those that do not end it
  early.\<close>

fun relay_run :: "phase \<Rightarrow> (u8 \<times> bytes) list \<Rightarrow> phase option" where
  "relay_run ph [] = Some ph"
| "relay_run ph (f # fs) = Option.bind (relay_step ph (snd f)) (\<lambda>ph'. relay_run ph' fs)"

fun complete :: "phase \<Rightarrow> (u8 \<times> bytes) list \<Rightarrow> bool" where
  "complete ph [] = False"
| "complete ph (f # fs) = (case relay_step ph (snd f) of None \<Rightarrow> fs = [] | Some ph' \<Rightarrow> complete ph' fs)"

fun fits :: "phase \<Rightarrow> (u8 \<times> bytes) list \<Rightarrow> bool" where
  "fits ph [] = True"
| "fits ph (f # fs) = (case relay_step ph (snd f) of None \<Rightarrow> fs = [] | Some ph' \<Rightarrow> fits ph' fs)"

lemma complete_fits: "complete ph fs \<Longrightarrow> fits ph fs"
  by (induction ph fs rule: complete.induct) (auto split: option.splits)

lemma complete_iff: "complete ph fs \<longleftrightarrow> fits ph fs \<and> relay_run ph fs = None"
  by (induction ph fs rule: complete.induct) (auto split: option.splits)

lemma relay_run_append: "relay_run ph (fs @ gs) = Option.bind (relay_run ph fs) (\<lambda>ph'. relay_run ph' gs)"
proof (induction fs arbitrary: ph)
  case (Cons f fs)
  then show ?case by (cases "relay_step ph (snd f)") simp_all
qed simp

lemma complete_Rows:
  "complete Rows fs \<longleftrightarrow> (\<exists>rows e. fs = rows @ [e] \<and> is_eof_packet (snd e) \<and> list_all (\<lambda>x. \<not> is_eof_packet (snd x)) rows)"
proof (induction fs)
  case (Cons f fs)
  then show ?case by (cases f) (auto simp: Cons_eq_append_conv)
qed simp

lemma complete_cols: "list_all (\<lambda>x. \<not> is_eof_packet (snd x)) cols \<Longrightarrow> complete Columns (cols @ fs) = complete Columns fs"
  by (induction cols) simp_all

lemma complete_Columns:
  "complete Columns fs \<longleftrightarrow>
     (\<exists>cols e rest. fs = cols @ [e] @ rest \<and> is_eof_packet (snd e) \<and> list_all (\<lambda>x. \<not> is_eof_packet (snd x)) cols \<and> complete Rows rest)"
proof (rule iffI)
  show "complete Columns fs \<Longrightarrow> \<exists>cols e rest. fs = cols @ [e] @ rest \<and> is_eof_packet (snd e) \<and>
    list_all (\<lambda>x. \<not> is_eof_packet (snd x)) cols \<and> complete Rows rest"
  proof (induction fs)
    case (Cons f fs)
    show ?case
    proof (cases "is_eof_packet (snd f)")
      case True
      with Cons.prems show ?thesis by (intro exI [of _ "[]"]) simp
    next
      case False
      with Cons obtain cols e rest where "fs = cols @ [e] @ rest" "is_eof_packet (snd e)"
        "list_all (\<lambda>x. \<not> is_eof_packet (snd x)) cols" "complete Rows rest" by auto
      with False show ?thesis by (intro exI [of _ "f # cols"]) simp
    qed
  qed simp
qed (auto simp: complete_cols)

text \<open>The frames that the relay takes to its end are exactly the responses that
  \<open>proxy_result\<close> forwards.\<close>

lemma complete_response: "small fs \<Longrightarrow> complete First fs \<longleftrightarrow> response fs"
proof (cases fs)
  case (Cons f gs)
  assume s: "small fs"
  show ?thesis
  proof (cases "single_response (snd f)")
    case True
    with s Cons show ?thesis by (auto simp: response_def result_set_def)
  next
    case False
    with s Cons show ?thesis
      by (auto simp: response_def result_set_def complete_Columns complete_Rows) blast+
  qed
qed (simp add: response_def)

section \<open>Sessions over one pool\<close>

text \<open>
  Where a session is in \<open>route_and_forward\<close>: its query is planned and it acquires or
  has just acquired a connection, it relays the response, or the response is complete and the
  connection not yet released.
\<close>

datatype job = Asked bytes | Relaying bytes phase | Done bytes

record net =
  nt_sys :: sys
  nt_wire :: "caddr \<Rightarrow> (u8 \<times> bytes) list"
  nt_jobs :: "nat \<Rightarrow> job option"
  nt_out :: "nat \<Rightarrow> (u8 \<times> bytes) list"
  nt_served :: "(nat \<times> bytes \<times> (u8 \<times> bytes) list) list"

definition net_new :: "BackendID \<Rightarrow> PoolConfig \<Rightarrow> net" where
  "net_new b c = \<lparr>nt_sys = sys_new b c, nt_wire = (\<lambda>_. []), nt_jobs = (\<lambda>_. None), nt_out = (\<lambda>_. []), nt_served = []\<rparr>"

text \<open>A handler that takes no connection away from the task that holds it.\<close>

definition keeps_held :: "sys \<Rightarrow> sys \<Rightarrow> bool" where
  "keeps_held s s' \<longleftrightarrow> (\<forall>t a. sy_tasks s t = Some (Holding a) \<longrightarrow> sy_tasks s' t = Some (Holding a))"

text \<open>The first handler of \<open>acquire\<close>, for a session that has no query open.\<close>

definition ask :: "nat \<Rightarrow> bytes \<Rightarrow> time \<Rightarrow> net \<Rightarrow> net option" where
  "ask t q now n =
     (if nt_jobs n t = None \<and> sy_tasks (nt_sys n) t = None
      then do {
        (r, p') \<leftarrow> acquire_start now (sy_pool (nt_sys n));
        Some (n\<lparr>nt_sys := \<lparr>sy_pool = p', sy_tasks = (sy_tasks (nt_sys n))(t := task_of r)\<rparr>,
          nt_jobs := (nt_jobs n)(t \<mapsto> Asked q)\<rparr>) }
      else None)"

text \<open>
  \<open>answers q fs\<close> says that the backend may answer \<open>q\<close> with the frames
  \<open>fs\<close>. The rules are in the order of \<open>route_and_forward\<close>: the first
  handler of \<open>acquire\<close>, any other handler of the pool, \<open>acquire\<close> returning
  an error, \<open>write_packet\<close>, one packet of \<open>proxy_result\<close>, the release
  after a complete response, and the release after an error on either socket. What is left on a wire
  is lost exactly when the pool destroys the connection.
\<close>

inductive net_step :: "(bytes \<Rightarrow> (u8 \<times> bytes) list \<Rightarrow> bool) \<Rightarrow> net \<Rightarrow> net \<Rightarrow> bool" for answers where
  nt_ask: "ask t q now n = Some n' \<Longrightarrow> net_step answers n n'"
| nt_pool: "pool_step (nt_sys n) s' \<Longrightarrow> keeps_held (nt_sys n) s' \<Longrightarrow> net_step answers n (n\<lparr>nt_sys := s'\<rparr>)"
| nt_refused: "nt_jobs n t = Some (Asked q) \<Longrightarrow> sy_tasks (nt_sys n) t = None \<Longrightarrow>
    net_step answers n (n\<lparr>nt_jobs := (nt_jobs n)(t := None)\<rparr>)"
| nt_write: "nt_jobs n t = Some (Asked q) \<Longrightarrow> sy_tasks (nt_sys n) t = Some (Holding a) \<Longrightarrow> answers q fs \<Longrightarrow>
    net_step answers n (n\<lparr>nt_wire := (nt_wire n)(a := nt_wire n a @ fs), nt_jobs := (nt_jobs n)(t \<mapsto> Relaying q First),
      nt_out := (nt_out n)(t := [])\<rparr>)"
| nt_relay: "nt_jobs n t = Some (Relaying q ph) \<Longrightarrow> sy_tasks (nt_sys n) t = Some (Holding a) \<Longrightarrow> nt_wire n a = f # fs \<Longrightarrow>
    net_step answers n (n\<lparr>nt_wire := (nt_wire n)(a := fs), nt_out := (nt_out n)(t := nt_out n t @ [f]),
      nt_jobs := (nt_jobs n)(t \<mapsto> (case relay_step ph (snd f) of None \<Rightarrow> Done q | Some ph' \<Rightarrow> Relaying q ph'))\<rparr>)"
| nt_done: "nt_jobs n t = Some (Done q) \<Longrightarrow> sy_tasks (nt_sys n) t = Some (Holding a) \<Longrightarrow>
    release a True now (sy_pool (nt_sys n)) = Some p' \<Longrightarrow>
    net_step answers n (n\<lparr>nt_sys := \<lparr>sy_pool = p', sy_tasks = (sy_tasks (nt_sys n))(t := None)\<rparr>, nt_jobs := (nt_jobs n)(t := None),
      nt_served := nt_served n @ [(t, q, nt_out n t)]\<rparr>)"
| nt_fail: "nt_jobs n t = Some j \<Longrightarrow> sy_tasks (nt_sys n) t = Some (Holding a) \<Longrightarrow> (\<exists>q. j = Asked q) \<or> (\<exists>q ph. j = Relaying q ph) \<Longrightarrow>
    release a False now (sy_pool (nt_sys n)) = Some p' \<Longrightarrow>
    net_step answers n (n\<lparr>nt_sys := \<lparr>sy_pool = p', sy_tasks = (sy_tasks (nt_sys n))(t := None)\<rparr>, nt_jobs := (nt_jobs n)(t := None),
      nt_wire := (nt_wire n)(a := if a \<in> set (cp_all p') then nt_wire n a else [])\<rparr>)"

section \<open>The invariant\<close>

text \<open>What a relaying or finished session has forwarded and what is still on its connection make
  up one answer to its own query.\<close>

fun job_ok :: "(bytes \<Rightarrow> (u8 \<times> bytes) list \<Rightarrow> bool) \<Rightarrow> net \<Rightarrow> nat \<Rightarrow> job option \<Rightarrow> bool" where
  "job_ok answers n t (Some (Relaying q ph)) \<longleftrightarrow>
     (\<exists>a. sy_tasks (nt_sys n) t = Some (Holding a) \<and> answers q (nt_out n t @ nt_wire n a) \<and> relay_run First (nt_out n t) = Some ph)"
| "job_ok answers n t (Some (Done q)) \<longleftrightarrow>
     (\<exists>a. sy_tasks (nt_sys n) t = Some (Holding a)) \<and> answers q (nt_out n t) \<and> relay_run First (nt_out n t) = None"
| "job_ok answers n t _ \<longleftrightarrow> True"

definition wires_ok :: "net \<Rightarrow> bool" where
  "wires_ok n \<longleftrightarrow> (\<forall>a. nt_wire n a \<noteq> [] \<longrightarrow>
     (\<exists>t q ph. nt_jobs n t = Some (Relaying q ph) \<and> sy_tasks (nt_sys n) t = Some (Holding a)))"

definition net_inv :: "(bytes \<Rightarrow> (u8 \<times> bytes) list \<Rightarrow> bool) \<Rightarrow> net \<Rightarrow> bool" where
  "net_inv answers n \<longleftrightarrow> sys_inv (nt_sys n) \<and> (\<not> cp_shutting_down (sy_pool (nt_sys n)) \<longrightarrow>
     (\<forall>t. job_ok answers n t (nt_jobs n t)) \<and> wires_ok n \<and>
     (\<forall>(t, q, fs) \<in> set (nt_served n). answers q fs \<and> relay_run First fs = None))"

lemma net_inv_new: "net_inv answers (net_new b c)"
  using sys_inv_new [of b c] by (simp add: net_inv_def net_new_def wires_ok_def)

lemma held_once:
  assumes "sys_inv s" "\<not> cp_shutting_down (sy_pool s)" "sy_tasks s t = Some (Holding a)" "sy_tasks s u = Some (Holding a)"
  shows "t = u"
  using assms by (auto simp: sys_inv_def owners_ok_def excl_def owner_def)

lemma release_shutting: "release a h now p = Some p' \<Longrightarrow> cp_shutting_down p' = cp_shutting_down p"
  by (auto simp: release_def upd_conn_def sync_metrics_def untrack_def Let_def split: if_splits list.splits bind_splits)

lemma acquire_start_shutting: "acquire_start now p = Some (r, p') \<Longrightarrow> cp_shutting_down p' = cp_shutting_down p"
  by (auto simp: acquire_start_def upd_conn_def sync_metrics_def Let_def split: if_splits list.splits bind_splits)

lemma step_shutting: "pool_step s s' \<Longrightarrow> sys_inv s \<Longrightarrow> cp_shutting_down (sy_pool s) \<Longrightarrow> cp_shutting_down (sy_pool s')"
proof (induction rule: pool_step.induct)
  case (ps_reap s t now p')
  then show ?case using reap_inv [of "sy_pool s" now] by simp
next
  case (ps_drain it s p')
  then show ?case using drain_eq [of "sy_pool s" it] by (auto simp: sys_inv_def sync_metrics_def)
qed (auto simp: release_shutting acquire_start_shutting acquire_created_def acquire_woken_def warm_created_def upd_conn_def track_def
  sync_metrics_def Let_def split: if_splits option.splits list.splits bind_splits result.splits)

text \<open>A step of another session changes neither what a session holds nor the wire of its
  connection.\<close>

lemma job_ok_frame:
  assumes "job_ok answers n u j" "nt_out n' u = nt_out n u"
    "\<And>a. sy_tasks (nt_sys n) u = Some (Holding a) \<Longrightarrow> sy_tasks (nt_sys n') u = Some (Holding a) \<and> nt_wire n' a = nt_wire n a"
  shows "job_ok answers n' u j"
  using assms by (induction answers n u j rule: job_ok.induct) auto

lemma net_inv_pool:
  assumes "net_inv answers n" "pool_step (nt_sys n) s'" "keeps_held (nt_sys n) s'"
  shows "net_inv answers (n\<lparr>nt_sys := s'\<rparr>)"
proof (cases "cp_shutting_down (sy_pool s')")
  case False
  with assms(1,2) step_shutting have inv: "\<And>t. job_ok answers n t (nt_jobs n t)" "wires_ok n"
    "\<forall>(t, q, fs) \<in> set (nt_served n). answers q fs \<and> relay_run First fs = None"
    unfolding net_inv_def by blast+
  have "job_ok answers (n\<lparr>nt_sys := s'\<rparr>) t (nt_jobs n t)" for t
    using assms(3) by (intro job_ok_frame [OF inv(1)]) (auto simp: keeps_held_def)
  moreover have "wires_ok (n\<lparr>nt_sys := s'\<rparr>)"
    using inv(2) assms(3) unfolding wires_ok_def keeps_held_def by simp metis
  ultimately show ?thesis using assms(1,2) inv(3) by (simp add: net_inv_def sys_inv_step)
qed (use assms sys_inv_step in \<open>auto simp: net_inv_def\<close>)

lemma job_ok_jobs [simp]: "job_ok answers (n\<lparr>nt_jobs := f\<rparr>) u j = job_ok answers n u j"
  by (induction answers n u j rule: job_ok.induct) simp_all

text \<open>The job of a session that has sent nothing may change.\<close>

lemma net_inv_job:
  assumes "net_inv answers n" "\<And>q ph. nt_jobs n t \<noteq> Some (Relaying q ph)" "j = None \<or> (\<exists>q. j = Some (Asked q))"
  shows "net_inv answers (n\<lparr>nt_jobs := (nt_jobs n)(t := j)\<rparr>)"
proof -
  have "job_ok answers n t j" using assms(3) by auto
  moreover have "wires_ok (n\<lparr>nt_jobs := (nt_jobs n)(t := j)\<rparr>)" if w: "wires_ok n"
    unfolding wires_ok_def
  proof (intro allI impI)
    fix a
    assume "nt_wire (n\<lparr>nt_jobs := (nt_jobs n)(t := j)\<rparr>) a \<noteq> []"
    with w obtain u q ph where "nt_jobs n u = Some (Relaying q ph)" "sy_tasks (nt_sys n) u = Some (Holding a)"
      by (auto simp: wires_ok_def)
    with assms(2) show "\<exists>u q ph. nt_jobs (n\<lparr>nt_jobs := (nt_jobs n)(t := j)\<rparr>) u = Some (Relaying q ph) \<and>
        sy_tasks (nt_sys (n\<lparr>nt_jobs := (nt_jobs n)(t := j)\<rparr>)) u = Some (Holding a)"
      by (intro exI [of _ u]) auto
  qed
  ultimately show ?thesis using assms(1) by (simp add: net_inv_def)
qed

lemma net_inv_sys: "net_inv answers n \<Longrightarrow> sys_inv (nt_sys n)"
  by (simp add: net_inv_def)

lemma net_inv_wire:
  assumes "net_inv answers n" "\<not> cp_shutting_down (sy_pool (nt_sys n))" "sy_tasks (nt_sys n) t = Some (Holding a)"
    "\<And>q ph. nt_jobs n t \<noteq> Some (Relaying q ph)"
  shows "nt_wire n a = []"
  using assms held_once [OF net_inv_sys [OF assms(1)] assms(2) _ assms(3)] unfolding net_inv_def wires_ok_def by blast

text \<open>The changes of one session, given what it does to its own job and wire.\<close>

lemma net_inv_local:
  assumes "net_inv answers n" "\<not> cp_shutting_down (sy_pool (nt_sys n))" "sy_tasks (nt_sys n) t = Some (Holding a)"
    and s': "sys_inv (nt_sys n')" "\<And>u. u \<noteq> t \<Longrightarrow> sy_tasks (nt_sys n') u = sy_tasks (nt_sys n) u"
    and "\<And>u. u \<noteq> t \<Longrightarrow> nt_jobs n' u = nt_jobs n u \<and> nt_out n' u = nt_out n u" "\<And>x. x \<noteq> a \<Longrightarrow> nt_wire n' x = nt_wire n x"
    and jt: "job_ok answers n' t (nt_jobs n' t)"
    and "nt_wire n' a \<noteq> [] \<Longrightarrow> \<exists>q ph. nt_jobs n' t = Some (Relaying q ph) \<and> sy_tasks (nt_sys n') t = Some (Holding a)"
    and "\<forall>(t, q, fs) \<in> set (nt_served n'). answers q fs \<and> relay_run First fs = None"
  shows "net_inv answers n'"
proof -
  have inv: "sys_inv (nt_sys n)" "\<And>t. job_ok answers n t (nt_jobs n t)" "wires_ok n"
    using assms(1,2) by (simp_all add: net_inv_def)
  have only: "u = t" if "sy_tasks (nt_sys n) u = Some (Holding a)" for u
    using held_once [OF inv(1) assms(2) that assms(3)] .
  have "job_ok answers n' u (nt_jobs n' u)" for u
  proof (cases "u = t")
    case False
    moreover from this have "x \<noteq> a" if "sy_tasks (nt_sys n) u = Some (Holding x)" for x using that only by blast
    ultimately show ?thesis using assms(6,7) s'(2) job_ok_frame [OF inv(2) [of u], of n'] by simp
  qed (use jt in simp)
  moreover have "\<exists>u q ph. nt_jobs n' u = Some (Relaying q ph) \<and> sy_tasks (nt_sys n') u = Some (Holding x)"
    if x: "nt_wire n' x \<noteq> []" for x
  proof (cases "x = a")
    case True
    with x assms(9) show ?thesis by blast
  next
    case False
    with x inv(3) assms(7) obtain u q ph where u: "nt_jobs n u = Some (Relaying q ph)" "sy_tasks (nt_sys n) u = Some (Holding x)"
      unfolding wires_ok_def by metis
    with False assms(3) have "u \<noteq> t" by auto
    with u assms(6) s'(2) show ?thesis by metis
  qed
  ultimately show ?thesis using s'(1) assms(10) by (simp add: net_inv_def wires_ok_def)
qed

lemma net_inv_down: "sys_inv (nt_sys n) \<Longrightarrow> cp_shutting_down (sy_pool (nt_sys n)) \<Longrightarrow> net_inv answers n"
  by (simp add: net_inv_def)

text \<open>No frame follows the end of a response: without \<open>CLIENT_MULTI_RESULTS\<close> a query
  has one response.\<close>

definition one_response :: "(bytes \<Rightarrow> (u8 \<times> bytes) list \<Rightarrow> bool) \<Rightarrow> bool" where
  "one_response answers \<longleftrightarrow> (\<forall>q fs. answers q fs \<longrightarrow> fits First fs)"

lemma fits_end: "fits ph (fs @ f # gs) \<Longrightarrow> relay_run ph fs = Some ph' \<Longrightarrow> relay_step ph' (snd f) = None \<Longrightarrow> gs = []"
  by (induction fs arbitrary: ph) (auto split: option.splits)

lemma relay_job:
  assumes "one_response answers" "answers q (out @ f # fs)" "relay_run First out = Some ph"
  shows "(case relay_step ph (snd f) of
     None \<Rightarrow> fs = [] \<and> answers q (out @ [f]) \<and> relay_run First (out @ [f]) = None
   | Some ph' \<Rightarrow> relay_run First (out @ [f]) = Some ph')"
  using assms fits_end [of First out f fs ph]
  by (auto simp: one_response_def relay_run_append split: option.splits)

lemma release_net:
  assumes "sys_inv s" "sy_tasks s t = Some (Holding a)" "release a h now (sy_pool s) = Some p'"
  shows "sys_inv \<lparr>sy_pool = p', sy_tasks = (sy_tasks s)(t := None)\<rparr>" "cp_shutting_down p' = cp_shutting_down (sy_pool s)"
  using assms ps_release sys_inv_step release_shutting by blast+

lemma held_active:
  assumes "sys_inv s" "\<not> cp_shutting_down (sy_pool s)" "sy_tasks s t = Some (Holding a)"
  shows "a \<in> cp_active (sy_pool s)"
proof -
  have "owner s t = Some a" using assms(3) by (simp add: owner_def)
  with assms(1,2) show ?thesis by (auto simp: sys_inv_def owners_ok_def excl_def intro: ranI)
qed

lemma unhealthy_destroyed:
  assumes "sys_inv s" "\<not> cp_shutting_down (sy_pool s)" "sy_tasks s t = Some (Holding a)" "release a False now (sy_pool s) = Some p'"
  shows "a \<notin> set (cp_all p')"
proof -
  have "a \<in> cp_active (sy_pool s)" using held_active [OF assms(1-3)] .
  moreover have "distinct (cp_all (sy_pool s))" using assms(1) by (simp add: sys_inv_def pool_inv_def pool_struct_def)
  ultimately show ?thesis
    using assms(4) by (auto simp: release_def upd_conn_def sync_metrics_def untrack_def Let_def split: bind_splits if_splits)
qed

lemma net_invD:
  assumes "net_inv answers n" "\<not> cp_shutting_down (sy_pool (nt_sys n))"
  shows "job_ok answers n t (nt_jobs n t)" "\<forall>(t, q, fs) \<in> set (nt_served n). answers q fs \<and> relay_run First fs = None"
  using assms by (simp_all add: net_inv_def)

lemma net_inv_step:
  assumes "one_response answers"
  shows "net_step answers n n' \<Longrightarrow> net_inv answers n \<Longrightarrow> net_inv answers n'"
proof (induction rule: net_step.induct)
  case (nt_ask t q now n n')
  then obtain r p' where n: "nt_jobs n t = None" "sy_tasks (nt_sys n) t = None" "acquire_start now (sy_pool (nt_sys n)) = Some (r, p')"
    and n': "n' = n\<lparr>nt_sys := \<lparr>sy_pool = p', sy_tasks = (sy_tasks (nt_sys n))(t := task_of r)\<rparr>, nt_jobs := (nt_jobs n)(t \<mapsto> Asked q)\<rparr>"
    by (auto simp: ask_def split: if_splits bind_splits)
  let ?n = "n\<lparr>nt_sys := \<lparr>sy_pool = p', sy_tasks = (sy_tasks (nt_sys n))(t := task_of r)\<rparr>\<rparr>"
  have "net_inv answers ?n" using n nt_ask(2) by (intro net_inv_pool ps_acquire) (auto simp: keeps_held_def)
  from net_inv_job [OF this, of t "Some (Asked q)"] n(1) show ?case by (simp add: n')
next
  case (nt_pool n s')
  then show ?case by (intro net_inv_pool)
next
  case (nt_refused n t q)
  then show ?case by (intro net_inv_job) auto
next
  case (nt_write n t q a fs)
  show ?case
  proof (cases "cp_shutting_down (sy_pool (nt_sys n))")
    case False
    have "nt_wire n a = []" using net_inv_wire [OF nt_write(4) False nt_write(2)] nt_write(1) by simp
    then show ?thesis
      by (intro net_inv_local [OF nt_write(4) False nt_write(2)])
         (use nt_write(1-3) net_invD [OF nt_write(4) False] net_inv_sys [OF nt_write(4)] in simp_all)
  qed (use net_inv_sys [OF nt_write(4)] in \<open>simp_all add: net_inv_def\<close>)
next
  case (nt_relay n t q ph a f fs)
  show ?case
  proof (cases "cp_shutting_down (sy_pool (nt_sys n))")
    case False
    have "job_ok answers n t (Some (Relaying q ph))" using net_invD(1) [OF nt_relay(4) False, of t] nt_relay(1) by simp
    then have out: "answers q (nt_out n t @ f # fs)" "relay_run First (nt_out n t) = Some ph"
      using nt_relay(2,3) by auto
    show ?thesis
      by (rule net_inv_local [OF nt_relay(4) False nt_relay(2)])
         (use nt_relay(1-3) out relay_job [OF assms out] net_invD(2) [OF nt_relay(4) False] net_inv_sys [OF nt_relay(4)]
           in \<open>simp_all split: option.splits\<close>)
  qed (use net_inv_sys [OF nt_relay(4)] in \<open>simp_all add: net_inv_def\<close>)
next
  case (nt_done n t q a now p')
  note s = release_net [OF net_inv_sys [OF nt_done(4)] nt_done(2,3)]
  show ?case
  proof (cases "cp_shutting_down (sy_pool (nt_sys n))")
    case False
    have "job_ok answers n t (Some (Done q))" using net_invD(1) [OF nt_done(4) False, of t] nt_done(1) by simp
    moreover have "nt_wire n a = []" using net_inv_wire [OF nt_done(4) False nt_done(2)] nt_done(1) by simp
    ultimately show ?thesis
      by (intro net_inv_local [OF nt_done(4) False nt_done(2)])
         (use nt_done(1-3) s net_invD(2) [OF nt_done(4) False] in auto)
  qed (use s in \<open>simp_all add: net_inv_def\<close>)
next
  case (nt_fail n t j a now p')
  note s = release_net [OF net_inv_sys [OF nt_fail(5)] nt_fail(2,4)]
  show ?case
  proof (cases "cp_shutting_down (sy_pool (nt_sys n))")
    case False
    show ?thesis
      by (rule net_inv_local [OF nt_fail(5) False nt_fail(2)])
         (use nt_fail(1-4) s net_invD(2) [OF nt_fail(5) False]
           unhealthy_destroyed [OF net_inv_sys [OF nt_fail(5)] False nt_fail(2,4)] in simp_all)
  qed (use s in \<open>simp_all add: net_inv_def\<close>)
qed

interpretation net_sys: inductive_invariant
  "\<lambda>n. one_response answers \<and> (\<exists>b c. n = net_new b c)" "net_step answers" "\<lambda>n. one_response answers \<and> net_inv answers n" for answers
  by unfold_locales (auto intro: net_inv_new net_inv_step)

section \<open>A response is relayed to its end\<close>

text \<open>A step of a pool and its sessions in which no session starts a query.\<close>

definition asks_nothing :: "net \<Rightarrow> net \<Rightarrow> bool" where
  "asks_nothing n n' \<longleftrightarrow> (\<forall>t. nt_jobs n t = None \<longrightarrow> nt_jobs n' t = None)"

definition later_step :: "(bytes \<Rightarrow> (u8 \<times> bytes) list \<Rightarrow> bool) \<Rightarrow> net \<Rightarrow> net \<Rightarrow> bool" where
  "later_step answers n n' \<longleftrightarrow> net_step answers n n' \<and> asks_nothing n n'"

lemma later_net: "(later_step answers)\<^sup>*\<^sup>* n n' \<Longrightarrow> (net_step answers)\<^sup>*\<^sup>* n n'"
  by (erule rtranclp_mono [THEN predicate2D, rotated]) (auto simp: later_step_def)

lemma relay_completes:
  assumes "nt_jobs n t = Some (Relaying q ph)" "sy_tasks (nt_sys n) t = Some (Holding a)" "nt_wire n a = fs" "complete ph fs"
  shows "(later_step answers)\<^sup>*\<^sup>* n (n\<lparr>nt_wire := (nt_wire n)(a := []), nt_out := (nt_out n)(t := nt_out n t @ fs),
    nt_jobs := (nt_jobs n)(t \<mapsto> Done q)\<rparr>)"
  using assms
proof (induction fs arbitrary: n ph)
  case (Cons f fs)
  let ?j = "case relay_step ph (snd f) of None \<Rightarrow> Done q | Some ph' \<Rightarrow> Relaying q ph'"
  let ?n = "n\<lparr>nt_wire := (nt_wire n)(a := fs), nt_out := (nt_out n)(t := nt_out n t @ [f]), nt_jobs := (nt_jobs n)(t \<mapsto> ?j)\<rparr>"
  have step: "later_step answers n ?n"
    using Cons.prems unfolding later_step_def by (intro conjI nt_relay) (auto simp: asks_nothing_def)
  show ?case
  proof (cases "relay_step ph (snd f)")
    case None
    with Cons.prems(4) have "fs = []" by simp
    with step None show ?thesis by (simp only: option.case r_into_rtranclp)
  next
    case (Some ph')
    let ?m = "?n\<lparr>nt_wire := (nt_wire ?n)(a := []), nt_out := (nt_out ?n)(t := nt_out ?n t @ fs), nt_jobs := (nt_jobs ?n)(t \<mapsto> Done q)\<rparr>"
    have "(later_step answers)\<^sup>*\<^sup>* ?n ?m" using Some Cons.prems by (intro Cons.IH [of _ ph']) simp_all
    moreover have "?m = n\<lparr>nt_wire := (nt_wire n)(a := []), nt_out := (nt_out n)(t := nt_out n t @ f # fs),
        nt_jobs := (nt_jobs n)(t \<mapsto> Done q)\<rparr>"
      by (intro net.equality) (auto simp: fun_eq_iff)
    ultimately show ?thesis using step by (simp only: converse_rtranclp_into_rtranclp)
  qed
qed simp

lemma relay_no_eof:
  assumes "ph \<noteq> First" "list_all (\<lambda>x. \<not> is_eof_packet (snd x)) fs"
  shows "relay_run ph fs = Some ph"
  using assms by (induction fs) (cases ph; simp)+

text \<open>A session that relays a whole response is served it, and one that asks while a connection is
  free can be.\<close>

lemma relaying_served:
  assumes "nt_jobs n t = Some (Relaying q First)" "sy_tasks (nt_sys n) t = Some (Holding a)" "nt_wire n a = fs" "nt_out n t = []"
    "complete First fs" "pool_inv (sy_pool (nt_sys n))"
  shows "\<exists>n'. (later_step answers)\<^sup>*\<^sup>* n n' \<and> nt_served n' = nt_served n @ [(t, q, fs)] \<and> nt_wire n' a = [] \<and>
    cp_shutting_down (sy_pool (nt_sys n')) = cp_shutting_down (sy_pool (nt_sys n))"
proof -
  let ?m = "n\<lparr>nt_wire := (nt_wire n)(a := []), nt_out := (nt_out n)(t := nt_out n t @ fs), nt_jobs := (nt_jobs n)(t \<mapsto> Done q)\<rparr>"
  obtain p' where p: "release a True 0 (sy_pool (nt_sys n)) = Some p'" using release_inv [OF assms(6)] by blast
  define n' where "n' = ?m\<lparr>nt_sys := \<lparr>sy_pool = p', sy_tasks = (sy_tasks (nt_sys n))(t := None)\<rparr>, nt_jobs := (nt_jobs ?m)(t := None),
    nt_served := nt_served ?m @ [(t, q, nt_out ?m t)]\<rparr>"
  have "later_step answers ?m n'"
    using nt_done [of ?m t q a 0 p' answers] assms(2) p by (simp add: n'_def later_step_def asks_nothing_def)
  with relay_completes [OF assms(1-3,5)] have "(later_step answers)\<^sup>*\<^sup>* n n'" by (rule rtranclp.rtrancl_into_rtrancl)
  then show ?thesis using release_shutting [OF p] assms(4) by (intro exI [of _ n']) (simp add: n'_def)
qed

lemma free_serves:
  assumes "net_inv answers n" "\<not> cp_shutting_down (sy_pool (nt_sys n))" "nt_jobs n t = None" "sy_tasks (nt_sys n) t = None"
    "cp_free_list (sy_pool (nt_sys n)) = a # rest" "answers q fs" "complete First fs"
  shows "\<exists>n1 n'. ask t q 0 n = Some n1 \<and> (later_step answers)\<^sup>*\<^sup>* n1 n' \<and> nt_served n' = nt_served n @ [(t, q, fs)]"
proof -
  let ?p = "sy_pool (nt_sys n)"
  have inv: "sys_inv (nt_sys n)" "pool_inv ?p" using net_inv_sys [OF assms(1)] by (simp_all add: sys_inv_def)
  have "a \<notin> cp_active ?p" using inv(2) assms(5) by (auto simp: pool_inv_def pool_struct_def)
  then have "sy_tasks (nt_sys n) u \<noteq> Some (Holding a)" for u
    using held_active [OF inv(1) assms(2)] by blast
  then have wire: "nt_wire n a = []" using assms(1,2) by (auto simp: net_inv_def wires_ok_def)
  obtain p' where p: "acquire_start 0 ?p = Some (Acquired a, p')" "pool_inv p'"
    using acquire_start_inv [OF inv(2), of 0] assms(2,5) by (auto simp: acquire_start_def Let_def split: bind_splits)
  define n1 where "n1 = n\<lparr>nt_sys := \<lparr>sy_pool = p', sy_tasks = (sy_tasks (nt_sys n))(t \<mapsto> Holding a)\<rparr>, nt_jobs := (nt_jobs n)(t \<mapsto> Asked q)\<rparr>"
  define n2 where "n2 = n1\<lparr>nt_wire := (nt_wire n1)(a := nt_wire n1 a @ fs), nt_jobs := (nt_jobs n1)(t \<mapsto> Relaying q First),
    nt_out := (nt_out n1)(t := [])\<rparr>"
  have "ask t q 0 n = Some n1" using assms(3,4) p(1) by (simp add: ask_def n1_def)
  moreover have "later_step answers n1 n2"
    using assms(6) unfolding later_step_def n2_def by (intro conjI nt_write) (auto simp: n1_def asks_nothing_def)
  moreover have n2: "nt_jobs n2 t = Some (Relaying q First)" "sy_tasks (nt_sys n2) t = Some (Holding a)" "nt_wire n2 a = fs" "nt_out n2 t = []"
    "pool_inv (sy_pool (nt_sys n2))" "nt_served n2 = nt_served n"
    using wire p(2) by (simp_all add: n2_def n1_def)
  moreover obtain n' where "(later_step answers)\<^sup>*\<^sup>* n2 n'" "nt_served n' = nt_served n2 @ [(t, q, fs)]"
    using relaying_served [OF n2(1-4) assms(7) n2(5)] by blast
  ultimately show ?thesis using converse_rtranclp_into_rtranclp [of "later_step answers" n1 n2 n'] by metis
qed

text \<open>A session on a new pool, up to the write of its query, and to the end of the response.\<close>

lemma first_session:
  assumes "answers q fs" "0 < unat (pool_max c)"
  shows "\<exists>n1 n. ask t q 0 (net_new b c) = Some n1 \<and> (later_step answers)\<^sup>*\<^sup>* n1 n \<and> pool_inv (sy_pool (nt_sys n)) \<and>
    \<not> cp_shutting_down (sy_pool (nt_sys n)) \<and> nt_jobs n t = Some (Relaying q First) \<and> sy_tasks (nt_sys n) t = Some (Holding 7) \<and>
    nt_wire n 7 = fs \<and> nt_out n t = [] \<and> nt_served n = []"
proof -
  define n0 where "n0 = net_new b c"
  let ?p = "cp_new b c"
  have 1: "acquire_start 0 ?p = Some (Connect, ?p)" using assms(2) by (simp add: acquire_start_def cp_new_def)
  obtain p2 where 2: "acquire_created 7 (Ok True) 0 ?p = Some (Acquired 7, p2)" "\<not> cp_shutting_down p2" "pool_inv p2"
    using acquire_created_inv [OF pool_inv_new, of 7 b c "Ok True" 0]
    by (auto simp: acquire_created_def cp_new_def track_def upd_conn_def sync_metrics_def)
  define n1 where "n1 = n0\<lparr>nt_sys := \<lparr>sy_pool = ?p, sy_tasks = [t \<mapsto> Creating]\<rparr>, nt_jobs := [t \<mapsto> Asked q]\<rparr>"
  define n2 where "n2 = n1\<lparr>nt_sys := \<lparr>sy_pool = p2, sy_tasks = (sy_tasks (nt_sys n1))(t := task_of (Acquired 7))\<rparr>\<rparr>"
  define n3 where "n3 = n2\<lparr>nt_wire := (nt_wire n2)(7 := nt_wire n2 7 @ fs), nt_jobs := (nt_jobs n2)(t \<mapsto> Relaying q First),
    nt_out := (nt_out n2)(t := [])\<rparr>"
  have "ask t q 0 n0 = Some n1" using 1 by (simp add: ask_def n0_def n1_def net_new_def sys_new_def)
  moreover have "later_step answers n1 n2"
    using 2(1) unfolding later_step_def n2_def
    by (intro conjI nt_pool ps_created [where a = 7]) (auto simp: n1_def keeps_held_def asks_nothing_def cp_new_def)
  moreover have "later_step answers n2 n3"
    using assms(1) unfolding later_step_def n3_def by (intro conjI nt_write) (auto simp: n1_def n2_def asks_nothing_def)
  ultimately show ?thesis
    using 2(2,3) unfolding n0_def
    by (intro exI [of _ n1] exI [of _ n3]) (auto simp: n3_def n2_def n1_def n0_def net_new_def intro: converse_rtranclp_into_rtranclp)
qed

lemma session_served:
  assumes "answers q fs" "complete First fs" "0 < unat (pool_max c)"
  shows "\<exists>n1 n. ask t q 0 (net_new b c) = Some n1 \<and> (later_step answers)\<^sup>*\<^sup>* n1 n \<and>
    \<not> cp_shutting_down (sy_pool (nt_sys n)) \<and> nt_served n = [(t, q, fs)] \<and> nt_wire n 7 = []"
proof -
  obtain n1 n where n: "ask t q 0 (net_new b c) = Some n1" "(later_step answers)\<^sup>*\<^sup>* n1 n" "pool_inv (sy_pool (nt_sys n))"
    "\<not> cp_shutting_down (sy_pool (nt_sys n))" "nt_jobs n t = Some (Relaying q First)" "sy_tasks (nt_sys n) t = Some (Holding 7)"
    "nt_wire n 7 = fs" "nt_out n t = []" "nt_served n = []"
    using first_session [of answers q fs c t b, OF assms(1,3)] by blast
  obtain n' where "(later_step answers)\<^sup>*\<^sup>* n n'" "nt_served n' = [(t, q, fs)]" "nt_wire n' 7 = []" "\<not> cp_shutting_down (sy_pool (nt_sys n'))"
    using relaying_served [OF n(5-8) assms(2) n(3), of answers] n(4,9) by auto
  moreover from this(1) n(2) have "(later_step answers)\<^sup>*\<^sup>* n1 n'" by (rule rtranclp_trans [rotated])
  ultimately show ?thesis using n(1) by (intro exI [of _ n1] exI [of _ n'] conjI)
qed

lemma ask_net: "ask t q now n0 = Some n1 \<Longrightarrow> (later_step answers)\<^sup>*\<^sup>* n1 n \<Longrightarrow> (net_step answers)\<^sup>*\<^sup>* n0 n"
  using nt_ask later_net converse_rtranclp_into_rtranclp by metis

section \<open>Properties\<close>

text \<open>In every state of the invariant, and while the pool is running: what a session was served is
  one whole answer of the backend to its own query; what a session in the middle of a relay has
  forwarded, with what is still on its connection, is an answer to its own query; and a connection that
  no session holds has nothing left to read.\<close>

lemma net_inv_isolated:
  assumes "one_response answers" "net_inv answers n" "\<not> cp_shutting_down (sy_pool (nt_sys n))"
  shows "\<forall>(t, q, fs) \<in> set (nt_served n). answers q fs \<and> complete First fs"
    "\<forall>t q ph a. nt_jobs n t = Some (Relaying q ph) \<longrightarrow> sy_tasks (nt_sys n) t = Some (Holding a) \<longrightarrow> answers q (nt_out n t @ nt_wire n a)"
    "\<forall>a. (\<nexists>t. sy_tasks (nt_sys n) t = Some (Holding a)) \<longrightarrow> nt_wire n a = []"
proof -
  show "\<forall>(t, q, fs) \<in> set (nt_served n). answers q fs \<and> complete First fs"
    using net_invD(2) [OF assms(2,3)] assms(1) unfolding one_response_def complete_iff by blast
  show "\<forall>t q ph a. nt_jobs n t = Some (Relaying q ph) \<longrightarrow> sy_tasks (nt_sys n) t = Some (Holding a) \<longrightarrow> answers q (nt_out n t @ nt_wire n a)"
  proof (intro allI impI)
    fix t q ph a
    assume "nt_jobs n t = Some (Relaying q ph)" "sy_tasks (nt_sys n) t = Some (Holding a)"
    with net_invD(1) [OF assms(2,3), of t] show "answers q (nt_out n t @ nt_wire n a)" by simp
  qed
  show "\<forall>a. (\<nexists>t. sy_tasks (nt_sys n) t = Some (Holding a)) \<longrightarrow> nt_wire n a = []"
    using assms(2,3) unfolding net_inv_def wires_ok_def by blast
qed

text \<open>C36. A result set that the backend breaks off with an error packet is never served: the loop
  over the rows of \<open>proxy_result\<close> ends at an EOF packet only, so that the session goes on
  waiting for one after it has forwarded the error, and leaves its relay only when a socket fails.\<close>

theorem error_in_rows_never_served:
  assumes "one_response answers" and "(net_step answers)\<^sup>*\<^sup>* (net_new b c) n" and "\<not> cp_shutting_down (sy_pool (nt_sys n))"
    and "\<And>fs. answers q fs \<Longrightarrow> \<exists>h cols e rows x. fs = [h] @ (cols @ [e]) @ (rows @ [x]) \<and> result_set h cols e rows e \<and>
      take 1 (snd x) = [ERR_PACKET]"
  shows "(t, q, fs) \<notin> set (nt_served n) \<and> nt_jobs n t \<noteq> Some (Done q) \<and>
    (\<forall>ph a. nt_jobs n t = Some (Relaying q ph) \<longrightarrow> sy_tasks (nt_sys n) t = Some (Holding a) \<longrightarrow> nt_wire n a = [] \<longrightarrow> ph = Rows)"
proof -
  have inv: "net_inv answers n" using net_sys.reachable_inv assms(1,2) by blast
  have rows: "relay_run First gs = Some Rows" if gs: "answers q gs" for gs
  proof -
    obtain h cols e rows x where g: "gs = [h] @ (cols @ [e]) @ (rows @ [x])" "result_set h cols e rows e" "take 1 (snd x) = [ERR_PACKET]"
      using assms(4) [OF gs] by blast
    then have "\<not> is_eof_packet (snd x)" by (cases "snd x") (auto simp: is_eof_packet_def ERR_PACKET_def)
    with g show ?thesis by (simp add: relay_run_append result_set_def relay_no_eof)
  qed
  have "nt_jobs n t \<noteq> Some (Done q)" using net_invD(1) [OF inv assms(3), of t] rows by auto
  moreover have "ph = Rows" if "nt_jobs n t = Some (Relaying q ph)" "sy_tasks (nt_sys n) t = Some (Holding a)" "nt_wire n a = []" for ph a
    using net_invD(1) [OF inv assms(3), of t] that rows [of "nt_out n t"] by simp
  ultimately show ?thesis using net_invD(2) [OF inv assms(3)] rows by fastforce
qed

theorem error_in_rows_never_served_witness:
  "\<exists>n. (net_step (\<lambda>q fs. fs = [(1, [2]), (2, [0xFE]), (3, [0xFF])]))\<^sup>*\<^sup>* (net_new ''b'' (default_PoolConfig\<lparr>pool_max := 1\<rparr>)) n \<and>
     nt_jobs n 1 = Some (Relaying [3] First) \<and> nt_wire n 7 = [(1, [2]), (2, [0xFE]), (3, [0xFF])] \<and>
     (1, [3], []) \<notin> set (nt_served n) \<and> nt_jobs n 1 \<noteq> Some (Done [3])"
proof -
  let ?fs = "[(1, [2]), (2, [0xFE]), (3, [0xFF])] :: (u8 \<times> bytes) list"
  let ?A = "\<lambda>(q :: bytes) fs. fs = ?fs"
  have one: "one_response ?A" by (simp add: one_response_def single_response_def is_eof_packet_def OK_PACKET_def ERR_PACKET_def)
  have cut: "\<exists>h cols e rows x. fs = [h] @ (cols @ [e]) @ (rows @ [x]) \<and> result_set h cols e rows e \<and> take 1 (snd x) = [ERR_PACKET]"
    if "?A [3] fs" for fs
    using that
    by (intro exI [of _ "(1, [2])"] exI [of _ "[]"] exI [of _ "(2, [0xFE])"] exI [of _ "(3, [0xFF])"])
       (simp add: result_set_def single_response_def is_eof_packet_def OK_PACKET_def ERR_PACKET_def)
  let ?c = "default_PoolConfig\<lparr>pool_max := 1\<rparr>"
  obtain n1 n where n1: "ask 1 [3] 0 (net_new ''b'' ?c) = Some n1" "(later_step ?A)\<^sup>*\<^sup>* n1 n"
    and n: "\<not> cp_shutting_down (sy_pool (nt_sys n))" "nt_jobs n 1 = Some (Relaying [3] First)" "nt_wire n 7 = ?fs"
    using first_session [of ?A "[3]" ?fs ?c 1 "''b''"] by auto
  from error_in_rows_never_served [OF one ask_net [OF n1] n(1), where q = "[3]" and t = 1 and fs = "[]"] cut ask_net [OF n1] n
  show ?thesis by blast
qed

end
