(* ===== verification/Fabric.thy ===== *)
theory Fabric
  imports Isolation ClientSession
begin

text \<open>
  The running proxy as one system: any number of sessions, the routing engine over one registry that
  the monitors change at any time, and the pools of all backends. A session plans its query on the
  registry of the moment and then goes through the handlers of the planned pool, packet by packet,
  while the other sessions, the pools and the registry move on. What \<open>Isolation\<close> shows
  of one pool and \<open>RoutingEngine\<close> of one plan holds together in every interleaving.
\<close>

section \<open>The system\<close>

text \<open>A query that was planned: the session, the packet, its view, the backend, and the registry
  of that moment.\<close>

record asked =
  as_session :: nat
  as_query :: bytes
  as_view :: SessionView
  as_backend :: BackendID
  as_registry :: BackendRegistry

record fabric =
  fb_registry :: BackendRegistry
  fb_counters :: counters
  fb_nets :: "BackendID \<rightharpoonup> net"
  fb_asked :: "asked list"

definition fabric_new :: "BackendRegistry \<Rightarrow> counters \<Rightarrow> (BackendID \<rightharpoonup> PoolConfig) \<Rightarrow> fabric" where
  "fabric_new reg cnt pools =
     \<lparr>fb_registry = reg, fb_counters = cnt, fb_nets = (\<lambda>b. map_option (net_new b) (pools b)), fb_asked = []\<rparr>"

definition sql_of :: "bytes \<Rightarrow> string" where
  "sql_of q = map char_at (tl q)"

text \<open>A session works on one query at a time, in one pool.\<close>

definition free_session :: "fabric \<Rightarrow> nat \<Rightarrow> bool" where
  "free_session s t \<longleftrightarrow> (\<forall>b n. fb_nets s b = Some n \<longrightarrow> nt_jobs n t = None)"

text \<open>
  The steps: an operation of a monitor on the registry; a query that is planned and whose pool
  starts to acquire; one that is not, because planning fails or the backend has no pool, and is
  answered with an error; and any later handler of a pool or of a session in it. Sessions set no
  pin.
\<close>

inductive fabric_step :: "id_order \<Rightarrow> SchemaRegistry \<Rightarrow> RoutingConfig \<Rightarrow> (BackendID \<Rightarrow> bytes \<Rightarrow> (u8 \<times> bytes) list \<Rightarrow> bool)
    \<Rightarrow> fabric \<Rightarrow> fabric \<Rightarrow> bool" for it schemas routing answers where
  fb_monitor: "fabric_step it schemas routing answers s (s\<lparr>fb_registry := br_apply it op (fb_registry s)\<rparr>)"
| fb_ask: "free_session s t \<Longrightarrow> sv_pinned_backend v = None \<Longrightarrow>
    plan schemas (fb_registry s) routing raw ctx (fb_counters s) (sql_of q) v = (Ok pl, cnt) \<Longrightarrow>
    fb_nets s (rp_backend_id pl) = Some n \<Longrightarrow> ask t q now n = Some n' \<Longrightarrow>
    fabric_step it schemas routing answers s (s\<lparr>fb_counters := cnt, fb_nets := (fb_nets s)(rp_backend_id pl \<mapsto> n'),
      fb_asked := fb_asked s @ [\<lparr>as_session = t, as_query = q, as_view = v, as_backend = rp_backend_id pl, as_registry = fb_registry s\<rparr>]\<rparr>)"
| fb_error: "free_session s t \<Longrightarrow> sv_pinned_backend v = None \<Longrightarrow>
    plan schemas (fb_registry s) routing raw ctx (fb_counters s) (sql_of q) v = (r, cnt) \<Longrightarrow>
    (\<And>pl. r = Ok pl \<Longrightarrow> fb_nets s (rp_backend_id pl) = None) \<Longrightarrow>
    fabric_step it schemas routing answers s (s\<lparr>fb_counters := cnt\<rparr>)"
| fb_pool: "fb_nets s b = Some n \<Longrightarrow> later_step (answers b) n n' \<Longrightarrow>
    fabric_step it schemas routing answers s (s\<lparr>fb_nets := (fb_nets s)(b \<mapsto> n')\<rparr>)"

section \<open>The invariant\<close>

text \<open>The backend of a planned query was eligible for it when it was planned, and a primary unless
  the query only reads outside a transaction.\<close>

definition well_routed :: "SchemaRegistry \<Rightarrow> RoutingConfig \<Rightarrow> asked \<Rightarrow> bool" where
  "well_routed schemas routing a \<longleftrightarrow>
     (\<exists>config e. sr_lookup schemas (extract_or (sql_of (as_query a)) (sv_current_schema (as_view a))) = Some config \<and>
        e \<in> set (all_entries (as_registry a)) \<and> be_id e = as_backend a \<and>
        eligible routing (sc_backend_group config) (be_role e) e \<and>
        (\<not> is_read (classify (sql_of (as_query a))) \<or> sv_in_transaction (as_view a) \<longrightarrow> be_role e = PRIMARY))"

lemma plan_well_routed:
  assumes "br_wf reg" "sv_pinned_backend v = None" "plan schemas reg routing raw ctx cnt (sql_of q) v = (Ok pl, cnt')"
  shows "well_routed schemas routing \<lparr>as_session = t, as_query = q, as_view = v, as_backend = rp_backend_id pl, as_registry = reg\<rparr>"
proof -
  from plan_serves [OF assms(1) _ assms(2), of schemas routing raw ctx cnt "sql_of q" pl] assms(3) obtain config e where
    e: "sr_lookup schemas (extract_or (sql_of q) (sv_current_schema v)) = Some config"
      "rp_role pl = plan_role routing (classify (sql_of q)) v config"
      "e \<in> serving reg routing config (rp_role pl)" "be_id e = rp_backend_id pl"
    by auto
  have "be_role e = PRIMARY" if "\<not> is_read (classify (sql_of q)) \<or> sv_in_transaction v"
    using that plan_role_REPLICA [of routing "classify (sql_of q)" v config] serving_role [OF e(3)] e(2)
    by (cases "be_role e") (auto simp: is_read_def)
  then show ?thesis using e serving_role [OF e(3)] by (auto simp: well_routed_def)
qed

fun job_query :: "job \<Rightarrow> bytes" where
  "job_query (Asked q) = q"
| "job_query (Relaying q ph) = q"
| "job_query (Done q) = q"

lemma net_step_job:
  assumes "net_step answers n n'" "asks_nothing n n'" "nt_jobs n' t = Some j'"
  shows "\<exists>j. nt_jobs n t = Some j \<and> job_query j' = job_query j"
  using assms by (induction rule: net_step.induct) (auto simp: asks_nothing_def ask_def split: if_splits bind_splits option.splits)

lemma net_step_served:
  assumes "net_step answers n n'" "(t, q, fs) \<in> set (nt_served n')"
  shows "(t, q, fs) \<in> set (nt_served n) \<or> nt_jobs n t = Some (Done q)"
  using assms by (induction rule: net_step.induct) (auto simp: ask_def split: if_splits bind_splits)

text \<open>Every query that is open in a pool or was served there was planned onto that backend for
  that session.\<close>

definition planned :: "fabric \<Rightarrow> nat \<Rightarrow> bytes \<Rightarrow> BackendID \<Rightarrow> bool" where
  "planned s t q b \<longleftrightarrow> (\<exists>a \<in> set (fb_asked s). as_session a = t \<and> as_query a = q \<and> as_backend a = b)"

definition fabric_inv :: "SchemaRegistry \<Rightarrow> RoutingConfig \<Rightarrow> (BackendID \<Rightarrow> bytes \<Rightarrow> (u8 \<times> bytes) list \<Rightarrow> bool) \<Rightarrow> fabric \<Rightarrow> bool" where
  "fabric_inv schemas routing answers s \<longleftrightarrow> br_wf (fb_registry s) \<and> (\<forall>a \<in> set (fb_asked s). well_routed schemas routing a) \<and>
     (\<forall>b n. fb_nets s b = Some n \<longrightarrow> net_inv (answers b) n \<and>
        (\<forall>t j. nt_jobs n t = Some j \<longrightarrow> planned s t (job_query j) b) \<and>
        (\<forall>(t, q, fs) \<in> set (nt_served n). planned s t q b))"

lemma fabric_inv_new: "br_wf reg \<Longrightarrow> fabric_inv schemas routing answers (fabric_new reg cnt pools)"
  by (auto simp: fabric_inv_def fabric_new_def net_inv_new) (auto simp: net_new_def)

lemma ask_step: "ask t q now n = Some n' \<Longrightarrow>
    nt_jobs n' = (nt_jobs n)(t \<mapsto> Asked q) \<and> nt_served n' = nt_served n"
  by (auto simp: ask_def split: if_splits bind_splits)

lemma fabric_inv_step:
  assumes "permutes_entries it" "\<And>b. one_response (answers b)"
  shows "fabric_step it schemas routing answers s s' \<Longrightarrow> fabric_inv schemas routing answers s \<Longrightarrow> fabric_inv schemas routing answers s'"
proof (induction rule: fabric_step.induct)
  case (fb_monitor s op)
  then show ?case using br_wf_apply [OF assms(1)] by (simp add: fabric_inv_def planned_def)
next
  case (fb_ask s t v raw ctx q pl cnt n now n')
  let ?b = "rp_backend_id pl"
  have "net_inv (answers ?b) n'"
    using net_inv_step [OF assms(2) nt_ask [OF fb_ask(5)]] fb_ask(4,6) by (auto simp: fabric_inv_def)
  moreover have "well_routed schemas routing \<lparr>as_session = t, as_query = q, as_view = v, as_backend = ?b, as_registry = fb_registry s\<rparr>"
    using plan_well_routed [OF _ fb_ask(2,3)] fb_ask(6) by (simp add: fabric_inv_def)
  ultimately show ?case
    using fb_ask(4,6) ask_step [OF fb_ask(5)] by (auto simp: fabric_inv_def planned_def) blast+
next
  case (fb_error s t v raw ctx q r cnt)
  then show ?case by (simp add: fabric_inv_def planned_def)
next
  case (fb_pool s b n n')
  then have step: "net_step (answers b) n n'" "asks_nothing n n'" by (simp_all add: later_step_def)
  have "net_inv (answers b) n'"
    using net_inv_step [OF assms(2) step(1)] fb_pool(1,3) by (auto simp: fabric_inv_def)
  moreover have "planned s t (job_query j) b" if "nt_jobs n' t = Some j" for t j
    using net_step_job [OF step that] fb_pool(1,3) by (auto simp: fabric_inv_def)
  moreover have "planned s t q b" if "(t, q, fs) \<in> set (nt_served n')" for t q fs
    using net_step_served [OF step(1) that] fb_pool(1,3) by (fastforce simp: fabric_inv_def)
  ultimately show ?case using fb_pool(3) by (auto simp: fabric_inv_def planned_def)
qed

interpretation fabric_sys: inductive_invariant
  "\<lambda>s. permutes_entries it \<and> (\<forall>b. one_response (answers b)) \<and> (\<exists>reg cnt pools. br_wf reg \<and> s = fabric_new reg cnt pools)"
  "fabric_step it schemas routing answers"
  "\<lambda>s. permutes_entries it \<and> (\<forall>b. one_response (answers b)) \<and> fabric_inv schemas routing answers s"
  for it schemas routing answers
  by unfold_locales (auto intro: fabric_inv_new fabric_inv_step)

section \<open>Properties\<close>


text \<open>Steps of one pool are steps of the system.\<close>

lemma later_fabric:
  assumes "(later_step (answers b))\<^sup>*\<^sup>* n n'" "fb_nets s b = Some n"
  shows "(fabric_step it schemas routing answers)\<^sup>*\<^sup>* s (s\<lparr>fb_nets := (fb_nets s)(b \<mapsto> n')\<rparr>)"
  using assms
proof (induction rule: rtranclp_induct)
  case base
  then have "s\<lparr>fb_nets := (fb_nets s)(b \<mapsto> n)\<rparr> = s" by (simp add: fun_upd_idem)
  then show ?case by (simp only: rtranclp.rtrancl_refl)
next
  case (step m n')
  let ?s = "s\<lparr>fb_nets := (fb_nets s)(b \<mapsto> m)\<rparr>"
  have "fabric_step it schemas routing answers ?s (?s\<lparr>fb_nets := (fb_nets ?s)(b \<mapsto> n')\<rparr>)"
    using step(2) by (intro fb_pool) simp_all
  then have "fabric_step it schemas routing answers ?s (s\<lparr>fb_nets := (fb_nets s)(b \<mapsto> n')\<rparr>)" by simp
  with step(3) [OF step.prems] show ?case by (rule rtranclp.rtrancl_into_rtrancl)
qed

definition sample_fabric :: fabric where
  "sample_fabric = fabric_new (br_run rev sample_ops) (\<lambda>_. 0) [''a'' \<mapsto> default_PoolConfig]"

definition sample_answers :: "BackendID \<Rightarrow> bytes \<Rightarrow> (u8 \<times> bytes) list \<Rightarrow> bool" where
  "sample_answers b q fs \<longleftrightarrow> fs = [(1, 0 # q)]"

lemma sample_one: "one_response (sample_answers b)"
  by (simp add: sample_answers_def one_response_def single_response_def OK_PACKET_def)

lemma sample_query_plan:
  "\<exists>cnt. plan sample_schemas (br_run rev sample_ops) default_RoutingConfig 0 no_context (\<lambda>_. 0) (sql_of (query_packet ''DELETE FROM t'')) sample_session =
     (Ok \<lparr>rp_query_type = DELETE, rp_schema = [], rp_backend_id = ''a'', rp_role = PRIMARY\<rparr>, cnt)"
  using sample_plan
  by (cases "plan sample_schemas (br_run rev sample_ops) default_RoutingConfig 0 no_context (\<lambda>_. 0) (sql_of (query_packet ''DELETE FROM t'')) sample_session")
     (simp add: sql_of_def query_packet_def)


text \<open>C16. Nothing that other sessions or the monitors have done keeps a session from being served:
  from every reachable state, a session with no open query whose query is planned onto a running pool
  with a free connection can be served any whole response of the backend.\<close>

theorem fabric_can_serve:
  assumes "permutes_entries it" and "\<And>b. one_response (answers b)"
    and "(fabric_step it schemas routing answers)\<^sup>*\<^sup>* (fabric_new (br_run it ops) cnt pools) s"
    and "free_session s t" and "sv_pinned_backend v = None"
    and "plan schemas (fb_registry s) routing raw ctx (fb_counters s) (sql_of q) v = (Ok pl, cnt')" and "b = rp_backend_id pl"
    and "fb_nets s b = Some n" and "\<not> cp_shutting_down (sy_pool (nt_sys n))" and "cp_free_list (sy_pool (nt_sys n)) \<noteq> []"
    and "sy_tasks (nt_sys n) t = None" and "answers b q fs" and "complete First fs"
  shows "\<exists>s' n'. (fabric_step it schemas routing answers)\<^sup>*\<^sup>* s s' \<and> fb_nets s' b = Some n' \<and> nt_served n' = nt_served n @ [(t, q, fs)]"
proof -
  have "fabric_inv schemas routing answers s"
    using fabric_sys.reachable_inv [OF _ assms(3)] assms(1,2) br_wf_run [OF assms(1)] by blast
  then have inv: "net_inv (answers b) n" using assms(8) by (simp add: fabric_inv_def)
  obtain a rest where a: "cp_free_list (sy_pool (nt_sys n)) = a # rest" using assms(10) by (cases "cp_free_list (sy_pool (nt_sys n))") auto
  have j: "nt_jobs n t = None" using assms(4,8) by (simp add: free_session_def)
  from free_serves [of "answers b", OF inv assms(9) j assms(11) a assms(12,13)] obtain n1 n' where
    n1: "ask t q 0 n = Some n1" "(later_step (answers b))\<^sup>*\<^sup>* n1 n'" "nt_served n' = nt_served n @ [(t, q, fs)]" by blast
  define s1 where "s1 = s\<lparr>fb_counters := cnt', fb_nets := (fb_nets s)(b \<mapsto> n1),
    fb_asked := fb_asked s @ [\<lparr>as_session = t, as_query = q, as_view = v, as_backend = b, as_registry = fb_registry s\<rparr>]\<rparr>"
  have "fabric_step it schemas routing answers s s1"
    unfolding s1_def assms(7) using assms(4-6,8) n1(1) by (intro fb_ask) (simp_all add: assms(7))
  moreover have "(fabric_step it schemas routing answers)\<^sup>*\<^sup>* s1 (s1\<lparr>fb_nets := (fb_nets s1)(b \<mapsto> n')\<rparr>)"
    by (rule later_fabric [of answers b, OF n1(2)]) (simp add: s1_def)
  ultimately show ?thesis using n1(3)
    by (intro exI [of _ "s1\<lparr>fb_nets := (fb_nets s1)(b \<mapsto> n')\<rparr>"] exI [of _ n']) (simp add: converse_rtranclp_into_rtranclp)
qed

lemma warm_one:
  "\<exists>n. (later_step answers)\<^sup>*\<^sup>* (net_new b default_PoolConfig) n \<and> cp_free_list (sy_pool (nt_sys n)) \<noteq> [] \<and>
     \<not> cp_shutting_down (sy_pool (nt_sys n)) \<and> sy_tasks (nt_sys n) 1 = None \<and> nt_jobs n = (\<lambda>_. None) \<and> nt_served n = []"
proof -
  let ?p = "cp_new b default_PoolConfig"
  let ?n = "net_new b default_PoolConfig"
  define s1 where "s1 = \<lparr>sy_pool = sy_pool (sys_new b default_PoolConfig), sy_tasks = (sy_tasks (sys_new b default_PoolConfig))
    (0 := map_option Warming (warm_next 0 (sy_pool (sys_new b default_PoolConfig))))\<rparr>"
  have s1: "sy_pool s1 = ?p" "sy_tasks s1 = [0 \<mapsto> Warming 0]"
    by (simp_all add: s1_def sys_new_def warm_next_def) (simp add: cp_new_def default_PoolConfig_def)
  obtain k p' where p: "warm_created 0 7 (Ok True) 0 ?p = Some (k, p')" "cp_free_list p' = [7]" "\<not> cp_shutting_down p'"
    by (auto simp: warm_created_def cp_new_def track_def upd_conn_def sync_metrics_def Let_def)
  define s2 where "s2 = \<lparr>sy_pool = p', sy_tasks = (sy_tasks s1)(0 := map_option Warming k)\<rparr>"
  have 1: "pool_step (sys_new b default_PoolConfig) s1" unfolding s1_def by (rule ps_warm) (simp add: sys_new_def)
  have 2: "pool_step s1 s2" unfolding s2_def using p(1) s1 by (intro ps_warm_created [where a = 7]) (simp_all add: cp_new_def)
  have k: "keeps_held (sys_new b default_PoolConfig) s1" "keeps_held s1 s2"
    using s1 by (auto simp: keeps_held_def sys_new_def)
  have "later_step answers ?n (?n\<lparr>nt_sys := s1\<rparr>)"
    using nt_pool [of ?n s1 answers] 1 k(1) by (simp add: later_step_def asks_nothing_def net_new_def)
  moreover have "later_step answers (?n\<lparr>nt_sys := s1\<rparr>) (?n\<lparr>nt_sys := s2\<rparr>)"
    using nt_pool [of "?n\<lparr>nt_sys := s1\<rparr>" s2 answers] 2 k(2) by (simp add: later_step_def asks_nothing_def net_new_def)
  ultimately have "(later_step answers)\<^sup>*\<^sup>* ?n (?n\<lparr>nt_sys := s2\<rparr>)" by (meson r_into_rtranclp rtranclp_trans)
  then show ?thesis using p(2,3) s1(2) by (intro exI [of _ "?n\<lparr>nt_sys := s2\<rparr>"]) (simp add: s2_def net_new_def)
qed

theorem fabric_can_serve_witness:
  "\<exists>s n. (fabric_step rev sample_schemas default_RoutingConfig sample_answers)\<^sup>*\<^sup>* sample_fabric s \<and> fb_nets s ''a'' = Some n \<and>
     nt_served n = [(1, query_packet ''DELETE FROM t'', [(1, 0 # query_packet ''DELETE FROM t'')])]"
proof -
  let ?q = "query_packet ''DELETE FROM t''"
  let ?fs = "[(1, 0 # ?q)]"
  have c: "complete First ?fs" by (simp add: single_response_def OK_PACKET_def)
  obtain n where n: "(later_step (sample_answers ''a''))\<^sup>*\<^sup>* (net_new ''a'' default_PoolConfig) n" "cp_free_list (sy_pool (nt_sys n)) \<noteq> []"
    "\<not> cp_shutting_down (sy_pool (nt_sys n))" "sy_tasks (nt_sys n) 1 = None" "nt_jobs n = (\<lambda>_. None)" "nt_served n = []"
    using warm_one by blast
  define s where "s = sample_fabric\<lparr>fb_nets := (fb_nets sample_fabric)(''a'' \<mapsto> n)\<rparr>"
  have r: "(fabric_step rev sample_schemas default_RoutingConfig sample_answers)\<^sup>*\<^sup>* sample_fabric s"
    unfolding s_def by (rule later_fabric [of sample_answers "''a''", OF n(1)]) (simp add: sample_fabric_def fabric_new_def)
  have f: "free_session s 1" using n(5) by (auto simp: free_session_def s_def sample_fabric_def fabric_new_def split: if_splits)
  obtain cnt where pl: "plan sample_schemas (fb_registry s) default_RoutingConfig 0 no_context (fb_counters s) (sql_of ?q) sample_session =
      (Ok \<lparr>rp_query_type = DELETE, rp_schema = [], rp_backend_id = ''a'', rp_role = PRIMARY\<rparr>, cnt)"
    using sample_query_plan by (auto simp: s_def sample_fabric_def fabric_new_def)
  have b: "fb_nets s ''a'' = Some n" by (simp add: s_def)
  have u: "sv_pinned_backend sample_session = None" by (simp add: sample_session_def)
  have "sample_answers ''a'' ?q ?fs" by (simp add: sample_answers_def)
  from fabric_can_serve [OF rev_permutes sample_one r [unfolded sample_fabric_def] f u pl _ b n(3,2,4) this c]
  obtain s' n' where s': "(fabric_step rev sample_schemas default_RoutingConfig sample_answers)\<^sup>*\<^sup>* s s'" "fb_nets s' ''a'' = Some n'"
    "nt_served n' = nt_served n @ [(1, ?q, ?fs)]" by auto
  with r n(6) show ?thesis by (intro exI [of _ s'] exI [of _ n']) (auto intro: rtranclp_trans)
qed

end
