(* ===== verification/SchemaThreads.thy ===== *)
theory SchemaThreads
  imports SchemaRegistry
begin

text \<open>
  \<open>routing/src/schema_registry.cpp\<close> with the threads of the event loop.
  \<open>lookup\<close> loads the snapshot that \<open>current_\<close> points to, searches it and
  returns a plain pointer to the entry; its shared pointer to the snapshot is gone when it returns.
  A writer takes \<open>write_lock_\<close>, copies the current map, changes the copy and stores it.
  A snapshot is destroyed with the last shared pointer to it, and its address may be used again.
\<close>

section \<open>Threads and steps\<close>

type_synonym saddr = nat
type_synonym schema_map = "(string \<times> SchemaConfig) list"

datatype sr_write = SrLoad "SchemaConfig list" | SrUpsert SchemaConfig | SrRemove string

text \<open>The atomic operations of \<open>SchemaRegistry\<close>, and the map a writer builds;
  \<^const>\<open>None\<close> is the early return of \<open>remove\<close>.\<close>

fun sr_do :: "sr_write \<Rightarrow> SchemaRegistry \<Rightarrow> SchemaRegistry" where
  "sr_do (SrLoad ss) r = sr_load ss r"
| "sr_do (SrUpsert c) r = sr_upsert c r"
| "sr_do (SrRemove n) r = sr_remove n r"

definition sr_run :: "sr_write list \<Rightarrow> SchemaRegistry" where
  "sr_run ws = fold sr_do ws sr_new"

fun next_map :: "sr_write \<Rightarrow> schema_map \<Rightarrow> schema_map option" where
  "next_map (SrLoad ss) m = Some (fold (\<lambda>s m. emplace (sc_name s) s m) ss [])"
| "next_map (SrUpsert c) m = Some (AList.update (sc_name c) c m)"
| "next_map (SrRemove n) m = (if map_of m n = None then None else Some (AList.delete n m))"

text \<open>Where a thread is: searching a snapshot it has loaded, holding the pointer that
  \<open>lookup\<close> returned, or in a writer that has taken the lock, built the next snapshot, or
  stored it.\<close>

datatype thread =
    Reading string saddr
  | Returned string "(saddr \<times> string) option"
  | Locked sr_write
  | Swapping sr_write saddr saddr
  | Stored sr_write saddr

text \<open>The state, with the stores that happened and how many of them a reader's snapshot has seen
  as history.\<close>

record rcu =
  rc_heap :: "saddr \<rightharpoonup> schema_map"
  rc_current :: saddr
  rc_lock :: "nat option"
  rc_version :: u64
  rc_threads :: "nat \<rightharpoonup> thread"
  rc_log :: "sr_write list"
  rc_seen :: "nat \<Rightarrow> nat"

definition rcu_new :: rcu where
  "rcu_new = \<lparr>rc_heap = [0 \<mapsto> []], rc_current = 0, rc_lock = None, rc_version = 0, rc_threads = (\<lambda>_. None), rc_log = [],
     rc_seen = (\<lambda>_. 0)\<rparr>"

text \<open>The snapshots a thread has shared pointers to: \<open>remove\<close> keeps the old one to
  its end, \<open>upsert\<close> only while it copies.\<close>

fun held :: "thread \<Rightarrow> saddr set" where
  "held (Reading name a) = {a}"
| "held (Swapping w n c) = (case w of SrRemove k \<Rightarrow> {n, c} | _ \<Rightarrow> {n})"
| "held (Stored w c) = (case w of SrRemove k \<Rightarrow> {c} | _ \<Rightarrow> {})"
| "held _ = {}"

definition referenced :: "rcu \<Rightarrow> saddr \<Rightarrow> bool" where
  "referenced s a \<longleftrightarrow> a = rc_current s \<or> (\<exists>t p. rc_threads s t = Some p \<and> a \<in> held p)"

definition collect :: "rcu \<Rightarrow> rcu" where
  "collect s = s\<lparr>rc_heap := (\<lambda>a. if referenced s a then rc_heap s a else None)\<rparr>"

definition find_entry :: "schema_map \<Rightarrow> saddr \<Rightarrow> string \<Rightarrow> (saddr \<times> string) option" where
  "find_entry m a name =
     (if map_of m name \<noteq> None then Some (a, name)
      else if map_of m ''default'' \<noteq> None then Some (a, ''default'')
      else None)"

text \<open>Reading through the pointer.\<close>

definition deref :: "rcu \<Rightarrow> saddr \<times> string \<Rightarrow> SchemaConfig option" where
  "deref s x = Option.bind (rc_heap s (fst x)) (\<lambda>m. map_of m (snd x))"

inductive rcu_step :: "rcu \<Rightarrow> rcu \<Rightarrow> bool" where
  rd_load: "rc_threads s t = None \<Longrightarrow>
    rcu_step s (s\<lparr>rc_threads := (rc_threads s)(t \<mapsto> Reading name (rc_current s)), rc_seen := (rc_seen s)(t := length (rc_log s))\<rparr>)"
| rd_find: "rc_threads s t = Some (Reading name a) \<Longrightarrow> rc_heap s a = Some m \<Longrightarrow>
    rcu_step s (collect (s\<lparr>rc_threads := (rc_threads s)(t \<mapsto> Returned name (find_entry m a name))\<rparr>))"
| rd_done: "rc_threads s t = Some (Returned name x) \<Longrightarrow> rcu_step s (s\<lparr>rc_threads := (rc_threads s)(t := None)\<rparr>)"
| wr_lock: "rc_threads s t = None \<Longrightarrow> rc_lock s = None \<Longrightarrow> w \<noteq> SrRemove ''default'' \<Longrightarrow>
    rcu_step s (s\<lparr>rc_threads := (rc_threads s)(t \<mapsto> Locked w), rc_lock := Some t\<rparr>)"
| wr_nothing: "rc_threads s t = Some (Locked w) \<Longrightarrow> rc_heap s (rc_current s) = Some m \<Longrightarrow> next_map w m = None \<Longrightarrow>
    rcu_step s (s\<lparr>rc_threads := (rc_threads s)(t := None), rc_lock := None\<rparr>)"
| wr_copy: "rc_threads s t = Some (Locked w) \<Longrightarrow> rc_heap s (rc_current s) = Some m \<Longrightarrow> next_map w m = Some m' \<Longrightarrow> rc_heap s n = None \<Longrightarrow>
    rcu_step s (s\<lparr>rc_heap := (rc_heap s)(n \<mapsto> m'), rc_threads := (rc_threads s)(t \<mapsto> Swapping w n (rc_current s))\<rparr>)"
| wr_store: "rc_threads s t = Some (Swapping w n c) \<Longrightarrow>
    rcu_step s (collect (s\<lparr>rc_current := n, rc_threads := (rc_threads s)(t \<mapsto> Stored w c), rc_log := rc_log s @ [w]\<rparr>))"
| wr_finish: "rc_threads s t = Some (Stored w c) \<Longrightarrow>
    rcu_step s (collect (s\<lparr>rc_threads := (rc_threads s)(t := None), rc_lock := None, rc_version := rc_version s + 1\<rparr>))"

section \<open>The invariant\<close>

lemma sr_run_snoc [simp]: "sr_run (ws @ [w]) = sr_do w (sr_run ws)"
  by (simp add: sr_run_def)

lemma next_map_do:
  assumes "next_map w (sr_current r) = Some m" "w \<noteq> SrRemove ''default''"
  shows "sr_current (sr_do w r) = m" "sr_version (sr_do w r) = sr_version r + 1"
  using assms by (cases w; auto simp: sr_load_def sr_upsert_def sr_remove_def sr_find_def split: if_splits)+

text \<open>What each thread may rely on.\<close>

fun thread_ok :: "rcu \<Rightarrow> nat \<Rightarrow> thread \<Rightarrow> bool" where
  "thread_ok s t (Reading name a) \<longleftrightarrow> rc_seen s t \<le> length (rc_log s) \<and> (rc_seen s t = length (rc_log s) \<longrightarrow> a = rc_current s) \<and>
     rc_heap s a = Some (sr_current (sr_run (take (rc_seen s t) (rc_log s))))"
| "thread_ok s t (Returned name x) \<longleftrightarrow> rc_seen s t \<le> length (rc_log s) \<and>
     (rc_seen s t = length (rc_log s) \<longrightarrow> x = find_entry (sr_current (sr_run (rc_log s))) (rc_current s) name)"
| "thread_ok s t (Locked w) \<longleftrightarrow> rc_lock s = Some t \<and> w \<noteq> SrRemove ''default''"
| "thread_ok s t (Swapping w n c) \<longleftrightarrow> rc_lock s = Some t \<and> w \<noteq> SrRemove ''default'' \<and> c = rc_current s \<and> n \<noteq> c \<and>
     (\<exists>m. rc_heap s n = Some m \<and> next_map w (sr_current (sr_run (rc_log s))) = Some m)"
| "thread_ok s t (Stored w c) \<longleftrightarrow> rc_lock s = Some t"

definition stored :: "rcu \<Rightarrow> bool" where
  "stored s \<longleftrightarrow> (\<exists>t w c. rc_threads s t = Some (Stored w c))"

definition rcu_inv :: "rcu \<Rightarrow> bool" where
  "rcu_inv s \<longleftrightarrow> rc_heap s (rc_current s) = Some (sr_current (sr_run (rc_log s))) \<and>
     (\<forall>t p. rc_threads s t = Some p \<longrightarrow> thread_ok s t p) \<and>
     rc_version s + (if stored s then 1 else 0) = sr_version (sr_run (rc_log s))"

lemma rcu_invD: "rcu_inv s \<Longrightarrow> rc_threads s t = Some p \<Longrightarrow> thread_ok s t p"
  unfolding rcu_inv_def by blast

lemma rcu_inv_shared:
  assumes "rcu_inv s"
  shows "rc_heap s (rc_current s) = Some (sr_current (sr_run (rc_log s)))"
    "rc_version s + (if stored s then 1 else 0) = sr_version (sr_run (rc_log s))"
  using assms unfolding rcu_inv_def by blast+

lemma rcu_inv_new: "rcu_inv rcu_new"
  by (simp add: rcu_inv_def rcu_new_def sr_run_def sr_new_def stored_def)

lemma thread_ok_threads [simp]: "thread_ok (s\<lparr>rc_threads := f\<rparr>) t p = thread_ok s t p"
  by (cases p) simp_all

lemma thread_ok_version [simp]: "thread_ok (s\<lparr>rc_version := v\<rparr>) t p = thread_ok s t p"
  by (cases p) simp_all

text \<open>Destroying what no shared pointer refers to changes nothing that a thread relies on.\<close>

lemma collect_simps [simp]:
  "rc_threads (collect s) = rc_threads s" "rc_current (collect s) = rc_current s" "rc_lock (collect s) = rc_lock s"
  "rc_version (collect s) = rc_version s" "rc_log (collect s) = rc_log s" "rc_seen (collect s) = rc_seen s"
  "rc_heap (collect s) (rc_current s) = rc_heap s (rc_current s)" "stored (collect s) = stored s"
  by (simp_all add: collect_def referenced_def stored_def)

lemma heap_collect: "rc_threads s t = Some p \<Longrightarrow> a \<in> held p \<Longrightarrow> rc_heap (collect s) a = rc_heap s a"
  by (auto simp: collect_def referenced_def)

lemma thread_ok_collect: "rc_threads s t = Some p \<Longrightarrow> thread_ok s t p \<Longrightarrow> thread_ok (collect s) t p"
  using heap_collect [of s t p] by (cases p) (auto split: sr_write.splits)

lemma rcu_inv_collect: "rcu_inv s \<Longrightarrow> rcu_inv (collect s)"
proof -
  assume inv: "rcu_inv s"
  have "thread_ok (collect s) t p" if "rc_threads s t = Some p" for t p
    using that inv thread_ok_collect by (simp add: rcu_inv_def)
  with inv show ?thesis by (simp add: rcu_inv_def)
qed

text \<open>A writer that has the lock is the only one.\<close>

fun writes :: "thread \<Rightarrow> bool" where
  "writes (Reading name a) = False"
| "writes (Returned name x) = False"
| "writes _ = True"

lemma writes_lock: "rcu_inv s \<Longrightarrow> rc_threads s t = Some p \<Longrightarrow> writes p \<Longrightarrow> rc_lock s = Some t"
  unfolding rcu_inv_def by (cases p) fastforce+

lemma only_writer: "rcu_inv s \<Longrightarrow> rc_threads s t = Some p \<Longrightarrow> writes p \<Longrightarrow> rc_threads s u = Some p' \<Longrightarrow> writes p' \<Longrightarrow> u = t"
  using writes_lock by (metis option.inject)

text \<open>A step of one thread, from what it does to the shared fields and to its own.\<close>

lemma rcu_inv_thread:
  assumes "rcu_inv s" "rc_heap s' (rc_current s') = Some (sr_current (sr_run (rc_log s')))"
    and "\<And>u p. u \<noteq> t \<Longrightarrow> rc_threads s' u = Some p \<Longrightarrow> rc_threads s u = Some p"
    and "\<And>u p. u \<noteq> t \<Longrightarrow> rc_threads s u = Some p \<Longrightarrow> thread_ok s u p \<Longrightarrow> thread_ok s' u p"
    and "\<And>p. rc_threads s' t = Some p \<Longrightarrow> thread_ok s' t p"
    and "rc_version s' + (if stored s' then 1 else 0) = sr_version (sr_run (rc_log s'))"
  shows "rcu_inv s'"
  unfolding rcu_inv_def
proof (intro conjI allI impI)
  fix u p
  assume p: "rc_threads s' u = Some p"
  show "thread_ok s' u p"
  proof (cases "u = t")
    case False
    moreover from this have "rc_threads s u = Some p" using p assms(3) by simp
    ultimately show ?thesis using assms(1,4) by (auto simp: rcu_inv_def)
  qed (use p assms(5) in simp)
qed (use assms(2,6) in simp_all)

lemma stored_same:
  assumes "\<And>u. u \<noteq> t \<Longrightarrow> rc_threads s' u = rc_threads s u"
    "\<And>w c. rc_threads s t \<noteq> Some (Stored w c)" "\<And>w c. rc_threads s' t \<noteq> Some (Stored w c)"
  shows "stored s' = stored s"
  using assms unfolding stored_def by metis

text \<open>What others may change without harm: the position of another reader, a new address, and for
  a reader the lock and the current snapshot.\<close>

lemma thread_ok_frame:
  "f u = rc_seen s u \<Longrightarrow> thread_ok (s\<lparr>rc_seen := f\<rparr>) u p = thread_ok s u p"
  "rc_heap s n = None \<Longrightarrow> thread_ok s u p \<Longrightarrow> thread_ok (s\<lparr>rc_heap := (rc_heap s)(n \<mapsto> m)\<rparr>) u p"
  "\<not> writes p \<Longrightarrow> thread_ok (s\<lparr>rc_lock := l\<rparr>) u p = thread_ok s u p"
  "\<not> writes p \<Longrightarrow> thread_ok s u p \<Longrightarrow> thread_ok (s\<lparr>rc_current := c, rc_threads := ths, rc_log := rc_log s @ [w]\<rparr>) u p"
  by (cases p; auto)+

lemma rcu_inv_step: "rcu_step s s' \<Longrightarrow> rcu_inv s \<Longrightarrow> rcu_inv s'"
proof (induction rule: rcu_step.induct)
  case (rd_load s t name)
  let ?s = "s\<lparr>rc_threads := (rc_threads s)(t \<mapsto> Reading name (rc_current s)), rc_seen := (rc_seen s)(t := length (rc_log s))\<rparr>"
  have "stored ?s = stored s" using rd_load(1) by (intro stored_same [of t]) auto
  then show ?case
    by (intro rcu_inv_thread [OF rd_load(2), of _ t]) (use rd_load(1) rcu_inv_shared [OF rd_load(2)] in \<open>auto simp: thread_ok_frame\<close>)
next
  case (rd_find s t name a m)
  have ok: "thread_ok s t (Returned name (find_entry m a name))"
    using rcu_invD [OF rd_find(3,1)] rd_find(2) by (cases "rc_seen s t = length (rc_log s)") simp_all
  let ?s = "s\<lparr>rc_threads := (rc_threads s)(t \<mapsto> Returned name (find_entry m a name))\<rparr>"
  have "stored ?s = stored s" using rd_find(1) by (intro stored_same [of t]) auto
  then have "rcu_inv ?s"
    by (intro rcu_inv_thread [OF rd_find(3), of _ t]) (use rcu_inv_shared [OF rd_find(3)] ok in \<open>auto simp del: thread_ok.simps\<close>)
  then show ?case by (rule rcu_inv_collect)
next
  case (rd_done s t name x)
  let ?s = "s\<lparr>rc_threads := (rc_threads s)(t := None)\<rparr>"
  have "stored ?s = stored s" using rd_done(1) by (intro stored_same [of t]) auto
  then show ?case
    by (intro rcu_inv_thread [OF rd_done(2), of _ t]) (use rd_done(1) rcu_inv_shared [OF rd_done(2)] in \<open>auto\<close>)
next
  case (wr_lock s t w)
  let ?s = "s\<lparr>rc_threads := (rc_threads s)(t \<mapsto> Locked w), rc_lock := Some t\<rparr>"
  have r: "\<not> writes p" if "rc_threads s u = Some p" for u p using writes_lock [OF wr_lock(4) that] wr_lock(2) by auto
  have "stored ?s = stored s" using wr_lock(1) by (intro stored_same [of t]) auto
  then show ?case
    by (intro rcu_inv_thread [OF wr_lock(4), of _ t]) (use wr_lock(1-3) rcu_inv_shared [OF wr_lock(4)] r in \<open>auto simp: thread_ok_frame\<close>)
next
  case (wr_nothing s t w m)
  let ?s = "s\<lparr>rc_threads := (rc_threads s)(t := None), rc_lock := None\<rparr>"
  have r: "\<not> writes p" if "u \<noteq> t" "rc_threads s u = Some p" for u p using only_writer [OF wr_nothing(4,1)] that by auto
  have "stored ?s = stored s" using wr_nothing(1) by (intro stored_same [of t]) auto
  then show ?case
    by (intro rcu_inv_thread [OF wr_nothing(4), of _ t]) (use wr_nothing(1-3) rcu_inv_shared [OF wr_nothing(4)] r in \<open>auto simp: thread_ok_frame\<close>)
next
  case (wr_copy s t w m m' n)
  let ?s = "s\<lparr>rc_heap := (rc_heap s)(n \<mapsto> m'), rc_threads := (rc_threads s)(t \<mapsto> Swapping w n (rc_current s))\<rparr>"
  have ok: "thread_ok s t (Locked w)" using rcu_invD [OF wr_copy(5,1)] .
  have n: "n \<noteq> rc_current s" using wr_copy(2,4) by auto
  have "stored ?s = stored s" using wr_copy(1) by (intro stored_same [of t]) auto
  then show ?case
    by (intro rcu_inv_thread [OF wr_copy(5), of _ t]) (use wr_copy(1-4) rcu_inv_shared [OF wr_copy(5)] ok n in \<open>auto simp: thread_ok_frame(2)\<close>)
next
  case (wr_store s t w n c)
  let ?s = "s\<lparr>rc_current := n, rc_threads := (rc_threads s)(t \<mapsto> Stored w c), rc_log := rc_log s @ [w]\<rparr>"
  have r: "\<not> writes p" if "u \<noteq> t" "rc_threads s u = Some p" for u p using only_writer [OF wr_store(2,1)] that by auto
  from rcu_invD [OF wr_store(2,1)] obtain m where m: "rc_heap s n = Some m" "next_map w (sr_current (sr_run (rc_log s))) = Some m" "w \<noteq> SrRemove ''default''"
    "rc_lock s = Some t" by auto
  have "\<not> stored s" using r wr_store(1) unfolding stored_def by (metis option.inject thread.distinct(19) writes.simps(5))
  moreover have "stored ?s" by (auto simp: stored_def)
  ultimately have "rcu_inv ?s"
    by (intro rcu_inv_thread [OF wr_store(2), of _ t])
       (use thread_ok_frame(4) r next_map_do [OF m(2,3)] m rcu_inv_shared [OF wr_store(2)] in auto)
  then show ?case by (rule rcu_inv_collect)
next
  case (wr_finish s t w c)
  let ?s = "s\<lparr>rc_threads := (rc_threads s)(t := None), rc_lock := None, rc_version := rc_version s + 1\<rparr>"
  have r: "\<not> writes p" if "u \<noteq> t" "rc_threads s u = Some p" for u p using only_writer [OF wr_finish(2,1)] that by auto
  have "stored s" using wr_finish(1) by (auto simp: stored_def)
  moreover have "\<not> stored ?s" using r by (fastforce simp: stored_def split: if_splits)
  ultimately have "rcu_inv ?s"
    by (intro rcu_inv_thread [OF wr_finish(2), of _ t]) (use wr_finish(1) rcu_inv_shared [OF wr_finish(2)] r in \<open>auto simp: thread_ok_frame\<close>)
  then show ?case by (rule rcu_inv_collect)
qed

interpretation rcu_sys: inductive_invariant "\<lambda>s. s = rcu_new" rcu_step rcu_inv
  by unfold_locales (auto intro: rcu_inv_new rcu_inv_step)

lemma deref_find:
  assumes "rc_heap s a = Some (sr_current r)"
  shows "Option.bind (find_entry (sr_current r) a name) (deref s) = sr_lookup r name"
  using assms by (auto simp: find_entry_def deref_def sr_lookup_def sr_find_def split: option.splits)

section \<open>Properties\<close>

text \<open>C11. The registry with its threads implements the registry with atomic operations: in every
  interleaving the current snapshot is the result of the stores so far, each one operation on the one
  before, so that no update is lost; a reader searches the registry as it was when it loaded its
  snapshot, whatever writers do meanwhile; there is at most one writer, and the version counts the
  updates whenever there is none; and the pointer that \<open>lookup\<close> returned reads the entry
  that the atomic \<open>lookup\<close> returns as long as no writer has stored since the load.\<close>

theorem schema_rcu_refines:
  assumes "rcu_step\<^sup>*\<^sup>* rcu_new s"
  shows "rc_heap s (rc_current s) = Some (sr_current (sr_run (rc_log s))) \<and>
    (\<forall>t name a. rc_threads s t = Some (Reading name a) \<longrightarrow>
       rc_seen s t \<le> length (rc_log s) \<and> rc_heap s a = Some (sr_current (sr_run (take (rc_seen s t) (rc_log s))))) \<and>
    (\<forall>t name x. rc_threads s t = Some (Returned name x) \<longrightarrow> rc_seen s t = length (rc_log s) \<longrightarrow>
       Option.bind x (deref s) = sr_lookup (sr_run (rc_log s)) name) \<and>
    (\<forall>t u p p'. rc_threads s t = Some p \<longrightarrow> writes p \<longrightarrow> rc_threads s u = Some p' \<longrightarrow> writes p' \<longrightarrow> t = u) \<and>
    (rc_lock s = None \<longrightarrow> rc_version s = sr_version (sr_run (rc_log s)))"
proof -
  have inv: "rcu_inv s" using rcu_sys.reachable_inv assms by blast
  note cur = rcu_inv_shared(1) [OF inv]
  have "rc_version s = sr_version (sr_run (rc_log s))" if l: "rc_lock s = None"
  proof -
    have "\<not> stored s" unfolding stored_def using l writes_lock [OF inv] by (metis option.distinct(1) writes.simps(5))
    then show ?thesis using rcu_inv_shared(2) [OF inv] by simp
  qed
  moreover have "Option.bind x (deref s) = sr_lookup (sr_run (rc_log s)) name"
    if "rc_threads s t = Some (Returned name x)" "rc_seen s t = length (rc_log s)" for t name x
    using rcu_invD [OF inv that(1)] that(2) deref_find [OF cur] by simp
  moreover have "rc_seen s t \<le> length (rc_log s) \<and> rc_heap s a = Some (sr_current (sr_run (take (rc_seen s t) (rc_log s))))"
    if "rc_threads s t = Some (Reading name a)" for t name a
    using rcu_invD [OF inv that] by simp
  ultimately show ?thesis
    using cur only_writer [OF inv] by simp
qed

text \<open>One run of a writer.\<close>

lemma writer_runs:
  assumes "rc_lock s = None" "rc_threads s u = None" "\<And>k. w \<noteq> SrRemove k"
    "rc_heap s (rc_current s) = Some m" "next_map w m = Some m'" "rc_heap s n = None"
  shows "\<exists>s'. rcu_step\<^sup>*\<^sup>* s s' \<and> rc_threads s' = rc_threads s \<and> rc_lock s' = None \<and> rc_current s' = n \<and> rc_heap s' n = Some m' \<and>
    rc_log s' = rc_log s @ [w] \<and> rc_seen s' = rc_seen s \<and>
    (\<forall>a. a \<noteq> n \<longrightarrow> (\<forall>t p. rc_threads s t = Some p \<longrightarrow> a \<notin> held p) \<longrightarrow> rc_heap s' a = None)"
proof -
  define s1 where "s1 = s\<lparr>rc_threads := (rc_threads s)(u \<mapsto> Locked w), rc_lock := Some u\<rparr>"
  define s2 where "s2 = s1\<lparr>rc_heap := (rc_heap s1)(n \<mapsto> m'), rc_threads := (rc_threads s1)(u \<mapsto> Swapping w n (rc_current s1))\<rparr>"
  define s3 where "s3 = collect (s2\<lparr>rc_current := n, rc_threads := (rc_threads s2)(u \<mapsto> Stored w (rc_current s1)), rc_log := rc_log s2 @ [w]\<rparr>)"
  define s4 where "s4 = collect (s3\<lparr>rc_threads := (rc_threads s3)(u := None), rc_lock := None, rc_version := rc_version s3 + 1\<rparr>)"
  have "rcu_step s s1" unfolding s1_def using assms(1-3) by (intro wr_lock)
  moreover have "rcu_step s1 s2" unfolding s2_def using assms(4-6) by (intro wr_copy) (auto simp: s1_def)
  moreover have "rcu_step s2 s3" unfolding s3_def by (intro wr_store) (simp add: s2_def)
  moreover have "rcu_step s3 s4" unfolding s4_def by (intro wr_finish) (simp add: s3_def)
  ultimately have "rcu_step\<^sup>*\<^sup>* s s4" by (meson r_into_rtranclp rtranclp_trans)
  moreover have "rc_threads s4 = rc_threads s" using assms(2) by (auto simp: s4_def s3_def s2_def s1_def)
  moreover have "rc_heap s4 n = Some m'" by (simp add: s4_def s3_def s2_def s1_def collect_def referenced_def)
  moreover have "rc_heap s4 a = None" if "a \<noteq> n" "\<forall>t p. rc_threads s t = Some p \<longrightarrow> a \<notin> held p" for a
    using that by (auto simp: s4_def collect_def referenced_def) (auto simp: s3_def s2_def s1_def split: if_splits)
  ultimately show ?thesis by (intro exI [of _ s4]) (simp add: s4_def s3_def s2_def s1_def)
qed

text \<open>The schemas of the unit test with concurrent readers and a writer, and a run of it: a writer
  loads them, and a reader looks up \<open>billing\<close> and holds the pointer.\<close>

definition concurrent_schemas :: "SchemaConfig list" where
  "concurrent_schemas = [default_SchemaConfig\<lparr>sc_name := ''default''\<rparr>, default_SchemaConfig\<lparr>sc_name := ''billing''\<rparr>]"

lemma reader_returned:
  "\<exists>s. rcu_step\<^sup>*\<^sup>* rcu_new s \<and> rc_threads s = [2 \<mapsto> Returned ''billing'' (Some (1, ''billing''))] \<and> rc_lock s = None \<and>
     rc_current s = 1 \<and> rc_seen s 2 = length (rc_log s) \<and> (\<forall>a. a \<noteq> 1 \<longrightarrow> rc_heap s a = None) \<and> rc_log s = [SrLoad concurrent_schemas]"
proof -
  let ?m = "map (\<lambda>c. (sc_name c, c)) concurrent_schemas"
  have "next_map (SrLoad concurrent_schemas) [] = Some ?m" by (simp add: concurrent_schemas_def emplace_def)
  then obtain s1 where s1: "rcu_step\<^sup>*\<^sup>* rcu_new s1" "rc_threads s1 = (\<lambda>_. None)" "rc_lock s1 = None" "rc_current s1 = 1"
    "rc_heap s1 1 = Some ?m" "rc_log s1 = [SrLoad concurrent_schemas]" "\<And>a. a \<noteq> 1 \<Longrightarrow> rc_heap s1 a = None"
    using writer_runs [of rcu_new 1 "SrLoad concurrent_schemas" "[]" ?m 1] by (auto simp: rcu_new_def)
  define s2 where "s2 = s1\<lparr>rc_threads := (rc_threads s1)(2 \<mapsto> Reading ''billing'' (rc_current s1)),
    rc_seen := (rc_seen s1)(2 := length (rc_log s1))\<rparr>"
  define s3 where "s3 = collect (s2\<lparr>rc_threads := (rc_threads s2)(2 \<mapsto> Returned ''billing'' (find_entry ?m 1 ''billing''))\<rparr>)"
  have "find_entry ?m 1 ''billing'' = Some (1, ''billing'')" by (simp add: find_entry_def concurrent_schemas_def)
  moreover have "rcu_step s1 s2" unfolding s2_def using s1(2) by (intro rd_load) simp
  moreover have "rcu_step s2 s3" unfolding s3_def using s1(4,5) by (intro rd_find) (simp_all add: s2_def)
  moreover have "rc_heap s3 a = None" if "a \<noteq> 1" for a using s1(7) [OF that] by (simp add: s3_def s2_def collect_def)
  ultimately show ?thesis
    using s1 by (intro exI [of _ s3]) (auto simp: s3_def s2_def intro: rtranclp.rtrancl_into_rtrancl)
qed

text \<open>C34. The pointer that \<open>lookup\<close> returns may dangle: when another thread updates a
  schema between the lookup and the use of its result, as in the unit test with concurrent readers and a
  writer, nothing refers to the old snapshot any more and the pointer is into freed memory. The routing
  engine reads the schema through it.\<close>

theorem lookup_pointer_dangles:
  "\<exists>s t x. rcu_step\<^sup>*\<^sup>* rcu_new s \<and> rc_threads s t = Some (Returned ''billing'' (Some x)) \<and>
     rc_heap s (fst x) = None \<and> sr_lookup (sr_run (rc_log s)) ''billing'' \<noteq> None"
proof -
  obtain s where s: "rcu_step\<^sup>*\<^sup>* rcu_new s" "rc_threads s = [2 \<mapsto> Returned ''billing'' (Some (1, ''billing''))]" "rc_lock s = None"
    "rc_current s = 1" "\<forall>a. a \<noteq> 1 \<longrightarrow> rc_heap s a = None" "rc_log s = [SrLoad concurrent_schemas]"
    using reader_returned by blast
  let ?w = "SrUpsert (default_SchemaConfig\<lparr>sc_name := ''billing'', sc_backend_group := ''grp0''\<rparr>)"
  obtain m m' where m: "rc_heap s (rc_current s) = Some m" "next_map ?w m = Some m'"
    using rcu_inv_shared(1) rcu_sys.reachable_inv s(1) by (metis next_map.simps(2))
  obtain s' where s': "rcu_step\<^sup>*\<^sup>* s s'" "rc_threads s' = rc_threads s" "rc_heap s' 1 = None" "rc_log s' = rc_log s @ [?w]"
    using writer_runs [of s 1 ?w m m' 2] s m by auto
  have "sr_lookup (sr_run (rc_log s')) ''billing'' \<noteq> None"
    by (simp add: s'(4) sr_lookup_def sr_find_def sr_upsert_def update_conv')
  then show ?thesis using s(1,2) s' by (intro exI [of _ s'] exI [of _ 2] exI [of _ "(1, ''billing'')"]) (auto intro: rtranclp_trans)
qed

theorem schema_rcu_refines_witness:
  "\<exists>s. rcu_step\<^sup>*\<^sup>* rcu_new s \<and> rc_threads s 2 = Some (Returned ''billing'' (Some (1, ''billing''))) \<and>
     deref s (1, ''billing'') = sr_lookup (sr_run [SrLoad concurrent_schemas]) ''billing'' \<and> rc_version s = 1"
proof -
  obtain s where s: "rcu_step\<^sup>*\<^sup>* rcu_new s" "rc_threads s = [2 \<mapsto> Returned ''billing'' (Some (1, ''billing''))]" "rc_lock s = None"
    "rc_seen s 2 = length (rc_log s)" "rc_log s = [SrLoad concurrent_schemas]"
    using reader_returned by blast
  have "sr_version (sr_run [SrLoad concurrent_schemas]) = 1" by (simp add: sr_run_def sr_load_def sr_new_def)
  moreover have t: "rc_threads s 2 = Some (Returned ''billing'' (Some (1, ''billing'')))" by (simp add: s(2))
  moreover note f = schema_rcu_refines [OF s(1), THEN conjunct2, THEN conjunct2]
  have "Option.bind (Some (1, ''billing'')) (deref s) = sr_lookup (sr_run (rc_log s)) ''billing''"
    using f [THEN conjunct1] t s(4) by blast
  moreover have "rc_version s = sr_version (sr_run (rc_log s))" using f [THEN conjunct2, THEN conjunct2] s(3) by blast
  ultimately show ?thesis using s(1,5) by (intro exI [of _ s]) simp
qed

end
