(* ===== verification/SelectThreads.thy ===== *)
theory SelectThreads
  imports RoutingEngine
begin

text \<open>
  \<open>BackendSelector::select\<close> on one thread while other threads change the registry. The
  group list comes from one snapshot, but role, state and lag of each entry are separate atomic
  loads. The history of the registry is a list of operations, and \<open>\<tau> k\<close> is how
  many of them have happened at the thread's \<open>k\<close>-th load.
\<close>

section \<open>Selection by separate loads\<close>

definition at_load :: "id_order \<Rightarrow> br_op list \<Rightarrow> (nat \<Rightarrow> nat) \<Rightarrow> nat \<Rightarrow> BackendRegistry" where
  "at_load it ops \<tau> k = br_run it (take (\<tau> k) ops)"

text \<open>The loop of \<open>get_group_by_role\<close>: one load for each entry of the snapshot's
  group.\<close>

fun roles_read :: "(nat \<Rightarrow> BackendRegistry) \<Rightarrow> nat \<Rightarrow> BackendRole \<Rightarrow> addr list \<Rightarrow> addr list" where
  "roles_read \<sigma> k role [] = []"
| "roles_read \<sigma> k role (a # as) =
     (if map_option be_role (br_heap (\<sigma> k) a) = Some role then a # roles_read \<sigma> (Suc k) role as
      else roles_read \<sigma> (Suc k) role as)"

text \<open>The loop of \<open>filter\<close>: a load of the state and, for replicas of a
  replication-aware configuration, one of the lag.\<close>

fun states_read :: "(nat \<Rightarrow> BackendRegistry) \<Rightarrow> nat \<Rightarrow> BackendRole \<Rightarrow> u32 \<Rightarrow> bool \<Rightarrow> addr list \<Rightarrow> addr list" where
  "states_read \<sigma> k role max_lag_ms replication_aware [] = []"
| "states_read \<sigma> k role max_lag_ms replication_aware (a # as) =
     (let rest = states_read \<sigma> (k + 2) role max_lag_ms replication_aware as
      in if map_option (\<lambda>e. usable_for_role (be_state e) role) (br_heap (\<sigma> k) a) \<noteq> Some True then rest
         else if role = REPLICA \<and> replication_aware \<and>
           map_option (\<lambda>e. be_replication_lag_ms e > max_lag_ms) (br_heap (\<sigma> (k + 1)) a) = Some True then rest
         else a # rest)"

text \<open>One round, from the load of the snapshot, with the number of loads after it.\<close>

definition round_read :: "(nat \<Rightarrow> BackendRegistry) \<Rightarrow> nat \<Rightarrow> RoutingConfig \<Rightarrow> string \<Rightarrow> BackendRole \<Rightarrow> addr list \<times> nat" where
  "round_read \<sigma> k defaults g role =
     (let xs = br_get_group (\<sigma> k) g;
          rs = roles_read \<sigma> (k + 1) role xs;
          k = k + 1 + length xs
      in (states_read \<sigma> k role (rt_max_replica_lag_ms defaults) (rt_replication_aware defaults) rs, k + 2 * length rs))"

definition candidates_read :: "(nat \<Rightarrow> BackendRegistry) \<Rightarrow> RoutingConfig \<Rightarrow> SchemaConfig \<Rightarrow> BackendRole \<Rightarrow> addr list \<times> nat" where
  "candidates_read \<sigma> defaults schema role =
     (let (as, k) = round_read \<sigma> 0 defaults (sc_backend_group schema) role
      in if as = [] \<and> role = REPLICA then round_read \<sigma> k defaults (sc_backend_group schema) PRIMARY else (as, k))"

text \<open>A policy looks at each candidate once; only \<open>failover\<close> loads a field that
  changes.\<close>

fun policy_read :: "(nat \<Rightarrow> BackendRegistry) \<Rightarrow> nat \<Rightarrow> addr list \<Rightarrow> BackendEntry list" where
  "policy_read \<sigma> k [] = []"
| "policy_read \<sigma> k (a # as) =
     (case br_heap (\<sigma> k) a of None \<Rightarrow> policy_read \<sigma> (Suc k) as | Some e \<Rightarrow> e # policy_read \<sigma> (Suc k) as)"

definition select_read :: "(nat \<Rightarrow> BackendRegistry) \<Rightarrow> RoutingConfig \<Rightarrow> nat \<Rightarrow> RoutingContext \<Rightarrow> counters
    \<Rightarrow> SchemaConfig \<Rightarrow> BackendRole \<Rightarrow> (BackendID, RoutingError) result \<times> counters" where
  "select_read \<sigma> defaults raw ctx cnt schema role =
     (let (as, k) = candidates_read \<sigma> defaults schema role in
      if as = [] then (Err NO_BACKEND_AVAILABLE, cnt)
      else (let p = (case sc_routing_policy schema of Some p \<Rightarrow> p | None \<Rightarrow> rt_default_policy defaults);
                (chosen, n) = policy_for p raw ctx (cnt p) (policy_read \<sigma> k as);
                cnt' = cnt(p := n)
            in if chosen = [] then (Err NO_BACKEND_AVAILABLE, cnt') else (Ok chosen, cnt')))"

section \<open>Without interference\<close>

lemma roles_read_const: "roles_read (\<lambda>_. r) k role as = filter (\<lambda>a. map_option be_role (br_heap r a) = Some role) as"
  by (induction as arbitrary: k) auto

lemma states_read_const:
  "states_read (\<lambda>_. r) k role m aware as =
   filter (\<lambda>a. case br_heap r a of None \<Rightarrow> False
     | Some e \<Rightarrow> usable_for_role (be_state e) role \<and> \<not> (role = REPLICA \<and> aware \<and> be_replication_lag_ms e > m)) as"
  by (induction as arbitrary: k) (auto simp: Let_def split: option.splits)

lemma policy_read_const: "policy_read (\<lambda>_. r) k as = entries r as"
  by (induction as arbitrary: k) (auto simp: entries_def map_filter_simps split: option.splits)

lemma entries_Nil: "\<forall>a \<in> set as. br_heap r a \<noteq> None \<Longrightarrow> entries r as = [] \<longleftrightarrow> as = []"
  using length_entries [of as r] by (metis length_0_conv)

lemma round_read_const:
  "entries r (fst (round_read (\<lambda>_. r) k defaults g role)) =
     filter_candidates (entries r (br_get_group_by_role r g role)) role (rt_max_replica_lag_ms defaults) (rt_replication_aware defaults)"
  "entries r (fst (round_read (\<lambda>_. r) k defaults g role)) = [] \<longleftrightarrow> fst (round_read (\<lambda>_. r) k defaults g role) = []"
proof -
  show "entries r (fst (round_read (\<lambda>_. r) k defaults g role)) =
     filter_candidates (entries r (br_get_group_by_role r g role)) role (rt_max_replica_lag_ms defaults) (rt_replication_aware defaults)"
    by (simp add: round_read_def Let_def roles_read_const states_read_const entries_filter filter_candidates_def
        br_get_group_by_role_eq br_get_group_eq del: filter_filter)
  show "entries r (fst (round_read (\<lambda>_. r) k defaults g role)) = [] \<longleftrightarrow> fst (round_read (\<lambda>_. r) k defaults g role) = []"
    by (rule entries_Nil) (auto simp: round_read_def Let_def states_read_const split: option.splits)
qed

text \<open>With no change in between, separate loads select what the atomic selector does.\<close>

lemma select_read_const: "select_read (\<lambda>_. r) defaults raw ctx cnt schema role = select r defaults raw ctx cnt schema role"
proof -
  obtain as k where c: "candidates_read (\<lambda>_. r) defaults schema role = (as, k)" by fastforce
  let ?g = "sc_backend_group schema"
  have "entries r as = candidates_for r defaults schema role" "entries r as = [] \<longleftrightarrow> as = []"
    using c round_read_const [of r _ defaults ?g] unfolding candidates_read_def candidates_for_def Let_def
    by (auto split: prod.splits if_splits) (metis fst_conv)+
  then show ?thesis using c by (simp add: select_read_def select_def policy_read_const)
qed

section \<open>With interference\<close>

text \<open>An entry keeps its id and its group.\<close>

definition same_ident :: "(addr \<Rightarrow> BackendEntry option) \<Rightarrow> (addr \<Rightarrow> BackendEntry option) \<Rightarrow> bool" where
  "same_ident h h' \<longleftrightarrow> (\<forall>a e. h a = Some e \<longrightarrow> (\<exists>e'. h' a = Some e' \<and> be_id e' = be_id e \<and> be_group e' = be_group e))"

lemma same_ident_trans: "same_ident h h' \<Longrightarrow> same_ident h' h'' \<Longrightarrow> same_ident h h''"
  unfolding same_ident_def by metis

lemma apply_ident:
  assumes "br_wf r"
  shows "same_ident (br_heap r) (br_heap (br_apply it op r))"
proof (cases op)
  case (Load bs)
  obtain ids r' where l: "load_ids bs [] r = (ids, r')" by fastforce
  have "br_heap r' a = br_heap r a" if "br_heap r a = Some e" for a e
    using load_ids_keeps [OF l] assms that by (auto simp: br_wf_def heap_ok_def)
  then show ?thesis using l by (auto simp: Load br_load_def same_ident_def)
next
  case (Add b)
  then show ?thesis using assms by (auto simp: br_add_def alloc_def same_ident_def br_wf_def heap_ok_def)
qed (auto simp: same_ident_def br_remove_def br_update_state_def br_update_role_def br_update_lag_def modify_def split: option.splits)

lemma run_ident:
  assumes "permutes_entries it" "n \<le> m"
  shows "same_ident (br_heap (br_run it (take n ops))) (br_heap (br_run it (take m ops)))"
proof -
  have "br_wf r \<Longrightarrow> same_ident (br_heap r) (br_heap (fold (br_apply it) xs r))" for r xs
  proof (induction xs arbitrary: r)
    case (Cons x xs)
    then show ?case using apply_ident [of r it x] br_wf_apply [OF assms(1), of r x] same_ident_trans by auto
  qed (auto simp: same_ident_def)
  moreover have "take m ops = take n ops @ take (m - n) (drop n ops)" using assms(2) take_add [of n "m - n" ops] by simp
  ultimately show ?thesis using br_wf_run [OF assms(1), of "take n ops"] by (simp add: br_run_def)
qed

lemma group_entry:
  assumes "br_wf r" "a \<in> set (br_get_group r g)"
  shows "\<exists>e. br_heap r a = Some e \<and> be_group e = g"
proof -
  have "mset (br_get_group r g) = mset (filter (\<lambda>a. group_of (br_heap r) a = g) (map snd (by_id (br_current r))))"
    using assms(1) unfolding br_get_group_eq br_wf_def index_ok_def by blast
  then have "a \<in> set (filter (\<lambda>a. group_of (br_heap r) a = g) (map snd (by_id (br_current r))))" using assms(2) mset_eq_setD by blast
  then show ?thesis using wf_heap [OF assms(1), of a] by (auto simp: group_of_def split: option.splits)
qed

text \<open>Every check that a candidate passes was true at the load that made it.\<close>

lemma roles_read_at:
  "a \<in> set (roles_read \<sigma> k role as) \<Longrightarrow>
   a \<in> set as \<and> (\<exists>i. k \<le> i \<and> i < k + length as \<and> map_option be_role (br_heap (\<sigma> i) a) = Some role)"
proof (induction as arbitrary: k)
  case (Cons x xs)
  show ?case
  proof (cases "a \<in> set (roles_read \<sigma> (Suc k) role xs)")
    case True
    from Cons.IH [OF this] obtain i where "a \<in> set xs" "Suc k \<le> i" "i < Suc k + length xs" "map_option be_role (br_heap (\<sigma> i) a) = Some role"
      by blast
    then show ?thesis by (intro conjI exI [of _ i]) simp_all
  next
    case False
    with Cons.prems have "a = x" "map_option be_role (br_heap (\<sigma> k) a) = Some role" by (simp_all split: if_splits)
    then show ?thesis by (intro conjI exI [of _ k]) simp_all
  qed
qed simp

definition usable_at :: "(nat \<Rightarrow> BackendRegistry) \<Rightarrow> BackendRole \<Rightarrow> u32 \<Rightarrow> bool \<Rightarrow> addr \<Rightarrow> nat \<Rightarrow> bool" where
  "usable_at \<sigma> role max_lag_ms replication_aware a j \<longleftrightarrow>
     map_option (\<lambda>e. usable_for_role (be_state e) role) (br_heap (\<sigma> j) a) = Some True \<and>
     \<not> (role = REPLICA \<and> replication_aware \<and>
        map_option (\<lambda>e. be_replication_lag_ms e > max_lag_ms) (br_heap (\<sigma> (j + 1)) a) = Some True)"

lemma states_read_Cons:
  "states_read \<sigma> k role m aware (a # as) =
   (if usable_at \<sigma> role m aware a k then a # states_read \<sigma> (k + 2) role m aware as else states_read \<sigma> (k + 2) role m aware as)"
  by (auto simp: usable_at_def Let_def)

lemma states_read_at:
  "a \<in> set (states_read \<sigma> k role m aware as) \<Longrightarrow>
   a \<in> set as \<and> (\<exists>j. k \<le> j \<and> j < k + 2 * length as \<and> usable_at \<sigma> role m aware a j)"
proof (induction as arbitrary: k)
  case (Cons x xs)
  show ?case
  proof (cases "a \<in> set (states_read \<sigma> (k + 2) role m aware xs)")
    case True
    from Cons.IH [OF this] obtain j where "a \<in> set xs" "k + 2 \<le> j" "j < k + 2 + 2 * length xs" "usable_at \<sigma> role m aware a j" by blast
    then show ?thesis by (intro conjI exI [of _ j]) simp_all
  next
    case False
    with Cons.prems have "a = x" "usable_at \<sigma> role m aware a k" by (simp_all add: states_read_Cons del: states_read.simps split: if_splits)
    then show ?thesis by (intro conjI exI [of _ k]) simp_all
  qed
qed simp

text \<open>Before the \<open>n\<close>-th load an entry was in the group of a snapshot, later had the
  role, and later still was usable for it.\<close>

definition checked :: "(nat \<Rightarrow> BackendRegistry) \<Rightarrow> nat \<Rightarrow> RoutingConfig \<Rightarrow> string \<Rightarrow> BackendRole \<Rightarrow> addr \<Rightarrow> bool" where
  "checked \<sigma> n defaults g role a \<longleftrightarrow> (\<exists>h i j. h < i \<and> i < j \<and> j < n \<and> a \<in> set (br_get_group (\<sigma> h) g) \<and>
     map_option be_role (br_heap (\<sigma> i) a) = Some role \<and>
     usable_at \<sigma> role (rt_max_replica_lag_ms defaults) (rt_replication_aware defaults) a j)"

lemma round_read_checked:
  assumes "a \<in> set (fst (round_read \<sigma> k defaults g role))"
  shows "checked \<sigma> (snd (round_read \<sigma> k defaults g role)) defaults g role a"
proof -
  let ?xs = "br_get_group (\<sigma> k) g"
  let ?k = "k + 1 + length ?xs"
  let ?rs = "roles_read \<sigma> (k + 1) role ?xs"
  have "a \<in> set (states_read \<sigma> ?k role (rt_max_replica_lag_ms defaults) (rt_replication_aware defaults) ?rs)"
    using assms by (simp add: round_read_def Let_def)
  from states_read_at [OF this] obtain j where j: "a \<in> set ?rs" "?k \<le> j" "j < ?k + 2 * length ?rs"
    "usable_at \<sigma> role (rt_max_replica_lag_ms defaults) (rt_replication_aware defaults) a j" by blast
  from roles_read_at [OF j(1)] obtain i where "a \<in> set ?xs" "k + 1 \<le> i" "i < ?k" "map_option be_role (br_heap (\<sigma> i) a) = Some role"
    by blast
  with j show ?thesis unfolding checked_def by (intro exI [of _ k] exI [of _ i] exI [of _ j]) (simp add: round_read_def Let_def)
qed

lemma candidates_checked:
  assumes "candidates_read \<sigma> defaults schema role = (as, n)" "a \<in> set as"
  shows "checked \<sigma> n defaults (sc_backend_group schema) role a \<or>
    role = REPLICA \<and> checked \<sigma> n defaults (sc_backend_group schema) PRIMARY a"
proof -
  let ?g = "sc_backend_group schema"
  obtain bs k where 1: "round_read \<sigma> 0 defaults ?g role = (bs, k)" by fastforce
  show ?thesis
  proof (cases "bs = [] \<and> role = REPLICA")
    case True
    with assms 1 have "round_read \<sigma> k defaults ?g PRIMARY = (as, n)" by (simp add: candidates_read_def)
    with round_read_checked [of a \<sigma> k defaults ?g PRIMARY] True assms(2) show ?thesis by simp
  next
    case False
    with assms 1 have "round_read \<sigma> 0 defaults ?g role = (as, n)" by (auto simp: candidates_read_def)
    with round_read_checked [of a \<sigma> 0 defaults ?g role] assms(2) show ?thesis by simp
  qed
qed

lemma policy_read_at: "e \<in> set (policy_read \<sigma> k as) \<Longrightarrow> \<exists>a \<in> set as. \<exists>i \<ge> k. br_heap (\<sigma> i) a = Some e"
proof (induction as arbitrary: k)
  case (Cons a as)
  show ?case
  proof (cases "e \<in> set (policy_read \<sigma> (Suc k) as)")
    case True
    from Cons.IH [OF this] show ?thesis using Suc_leD by auto
  next
    case False
    with Cons.prems have "br_heap (\<sigma> k) a = Some e" by (auto split: option.splits)
    then show ?thesis by auto
  qed
qed simp

section \<open>Properties\<close>

text \<open>C8. Selection on one thread while other threads change the registry, at any time between its
  loads: the chosen backend was in the group of the schema in a snapshot that the selection loaded, had
  the role at the later load of its role (for reads also the primary role, as a fall-back), and was
  usable for that role at the still later load of its state, with its lag in bounds. When nothing
  changes meanwhile, the selection is that of the atomic selector.\<close>

theorem select_read_checked:
  assumes "permutes_entries it" and "mono \<tau>" and "\<sigma> = at_load it ops \<tau>"
    and "fst (select_read \<sigma> defaults raw ctx cnt schema role) = Ok b"
  shows "\<exists>a n role'. checked \<sigma> n defaults (sc_backend_group schema) role' a \<and> (role' = role \<or> role = REPLICA \<and> role' = PRIMARY) \<and>
    (\<exists>e. br_heap (\<sigma> n) a = Some e \<and> be_id e = b \<and> be_group e = sc_backend_group schema) \<and>
    ((\<forall>k. \<tau> k = \<tau> 0) \<longrightarrow> select_read \<sigma> defaults raw ctx cnt schema role = select (\<sigma> 0) defaults raw ctx cnt schema role)"
proof -
  let ?p = "case sc_routing_policy schema of None \<Rightarrow> rt_default_policy defaults | Some p \<Rightarrow> p"
  let ?g = "sc_backend_group schema"
  obtain as n where c: "candidates_read \<sigma> defaults schema role = (as, n)" by fastforce
  have "b = fst (policy_select ?p raw ctx (cnt ?p) (policy_read \<sigma> n as))" "b \<noteq> []"
    using assms(4) c by (auto simp: select_read_def Let_def split: if_splits prod.splits)
  with pol.sel_member [of ?p raw ctx "cnt ?p" "policy_read \<sigma> n as"] obtain e where e: "e \<in> set (policy_read \<sigma> n as)" "be_id e = b"
    by auto
  from policy_read_at [OF e(1)] obtain a i where a: "a \<in> set as" "n \<le> i" "br_heap (\<sigma> i) a = Some e" by blast
  from candidates_checked [OF c a(1)] obtain role' where r: "checked \<sigma> n defaults ?g role' a" "role' = role \<or> role = REPLICA \<and> role' = PRIMARY"
    by blast
  then obtain h i' j where "h < i'" "i' < j" "j < n" and h': "a \<in> set (br_get_group (\<sigma> h) ?g)" unfolding checked_def by blast
  then have h: "h < n" "a \<in> set (br_get_group (\<sigma> h) ?g)" by simp_all
  have ident: "same_ident (br_heap (\<sigma> x)) (br_heap (\<sigma> y))" if "x \<le> y" for x y
    using run_ident [OF assms(1) monoD [OF assms(2) that]] by (simp add: assms(3) at_load_def)
  have "br_wf (\<sigma> h)" using br_wf_run [OF assms(1)] by (simp add: assms(3) at_load_def)
  from group_entry [OF this h(2)] ident [of h n] h(1) obtain e' where e': "br_heap (\<sigma> n) a = Some e'" "be_group e' = ?g"
    unfolding same_ident_def by fastforce
  with ident [OF a(2)] a(3) e(2) have "be_id e' = b" unfolding same_ident_def by fastforce
  moreover have "\<sigma> = (\<lambda>_. \<sigma> 0)" if "\<forall>k. \<tau> k = \<tau> 0" using that unfolding assms(3) at_load_def by metis
  then have "(\<forall>k. \<tau> k = \<tau> 0) \<longrightarrow> select_read \<sigma> defaults raw ctx cnt schema role = select (\<sigma> 0) defaults raw ctx cnt schema role"
    using select_read_const by metis
  ultimately show ?thesis using r e' by blast
qed

text \<open>A primary that fails, is demoted and recovers as a replica, while a write is planned: its
  role is loaded before the demotion and its state after the recovery.\<close>

definition demotion :: "br_op list" where
  "demotion = [Load [sample_backend ''p'' PRIMARY], UpdateState ''p'' FAILED, UpdateRole ''p'' REPLICA, UpdateState ''p'' HEALTHY]"

definition torn :: "nat \<Rightarrow> nat" where
  "torn k = (if k \<le> 1 then 2 else 4)"

definition torn_schema :: SchemaConfig where
  "torn_schema = default_SchemaConfig\<lparr>sc_name := ''default'', sc_backend_group := ''g''\<rparr>"

lemma torn_selects: "fst (select_read (at_load rev demotion torn) default_RoutingConfig 0 no_context (\<lambda>_. 0) torn_schema PRIMARY) = Ok ''p''"
  by code_simp

lemma torn_never: "2 \<le> n \<Longrightarrow> \<forall>e \<in> set (all_entries (br_run rev (take n demotion))). \<not> eligible default_RoutingConfig ''g'' PRIMARY e"
proof -
  assume "2 \<le> n"
  then consider "n = 2" | "n = 3" | "4 \<le> n" by linarith
  then show ?thesis
  proof cases
    case 1
    have "list_all (\<lambda>e. \<not> eligible default_RoutingConfig ''g'' PRIMARY e) (all_entries (br_run rev (take 2 demotion)))" by code_simp
    with 1 show ?thesis by (simp add: list_all_iff)
  next
    case 2
    have "list_all (\<lambda>e. \<not> eligible default_RoutingConfig ''g'' PRIMARY e) (all_entries (br_run rev (take 3 demotion)))" by code_simp
    with 2 show ?thesis by (simp add: list_all_iff)
  next
    case 3
    have "list_all (\<lambda>e. \<not> eligible default_RoutingConfig ''g'' PRIMARY e) (all_entries (br_run rev demotion))" by code_simp
    moreover have "take n demotion = demotion" using 3 by (simp add: demotion_def)
    ultimately show ?thesis by (simp add: list_all_iff)
  qed
qed

text \<open>C35. The checks need not hold together: a write can be given a backend that at no moment of
  the selection is a usable primary, because its role was loaded before it was demoted and its state
  after it had recovered as a replica.\<close>

theorem select_torn:
  "\<exists>it ops \<tau> routing schema b. permutes_entries it \<and> mono \<tau> \<and>
     fst (select_read (at_load it ops \<tau>) routing 0 no_context (\<lambda>_. 0) schema PRIMARY) = Ok b \<and>
     (\<forall>n. filter (eligible routing (sc_backend_group schema) PRIMARY) (all_entries (br_run it (take (\<tau> 0 + n) ops))) = [])"
proof -
  have "mono torn" by (simp add: mono_def torn_def)
  moreover have "filter (eligible default_RoutingConfig (sc_backend_group torn_schema) PRIMARY)
      (all_entries (br_run rev (take (torn 0 + n) demotion))) = []" for n
    using torn_never [of "torn 0 + n"] by (simp add: torn_def torn_schema_def filter_empty_conv)
  ultimately show ?thesis using torn_selects rev_permutes by blast
qed

theorem select_read_checked_witness:
  "\<exists>a n role'. checked (at_load rev demotion torn) n default_RoutingConfig ''g'' role' a \<and> role' = PRIMARY"
proof -
  have "mono torn" by (simp add: mono_def torn_def)
  from select_read_checked [OF rev_permutes this refl torn_selects] show ?thesis
    by (auto simp: torn_schema_def)
qed

end
