(* ===== verification/BackendConnector.thy ===== *)
theory BackendConnector
  imports Sockets Handshake ConfigTypes
begin

text \<open>
  \<open>protocol/mysql/backend_connector.cpp\<close> and \<open>mysql_backend_connection.cpp\<close>: how the proxy, as a
  client, opens and authenticates a connection to a backend, and the connection object that the
  pool keeps. The resolver, the TCP connect and the socket operations are parameters, \<open>sha1\<close> is
  OpenSSL's hash. A value \<^const>\<open>None\<close> means that the coroutine does not return.
\<close>

section \<open>MySqlBackendConnection\<close>

record 'c MySqlBackendConnection =
  mb_socket :: 'c
  mb_backend_thread_id :: u32

definition mb_new :: "'c \<Rightarrow> u32 \<Rightarrow> 'c MySqlBackendConnection" where
  "mb_new sock tid = \<lparr>mb_socket = sock, mb_backend_thread_id = tid\<rparr>"

definition mb_validate :: "('c \<Rightarrow> bool) \<Rightarrow> ('c \<Rightarrow> bytes \<Rightarrow> bool \<times> 'c) \<Rightarrow> ('c \<Rightarrow> nat \<Rightarrow> bytes option \<times> 'c)
    \<Rightarrow> 'c MySqlBackendConnection \<Rightarrow> (bool \<times> 'c MySqlBackendConnection) option" where
  "mb_validate sock_open send recv b =
     (if \<not> sock_open (mb_socket b) then Some (False, b)
      else do {
        (w, seq, s) \<leftarrow> write_packet send (mb_socket b) [cmd_PING] 0;
        if is_err w then Some (False, b\<lparr>mb_socket := s\<rparr>)
        else do {
          (r, s) \<leftarrow> read_packet recv s;
          Some (case r of Err _ \<Rightarrow> False
                | Ok pkt \<Rightarrow> pk_payload pkt \<noteq> [] \<and> hd (pk_payload pkt) = OK_PACKET, b\<lparr>mb_socket := s\<rparr>) } })"

definition mb_is_open :: "('c \<Rightarrow> bool) \<Rightarrow> 'c MySqlBackendConnection \<Rightarrow> bool" where
  "mb_is_open sock_open b = sock_open (mb_socket b)"

definition mb_close :: "('c \<Rightarrow> bool) \<Rightarrow> ('c \<Rightarrow> 'c) \<Rightarrow> ('c \<Rightarrow> 'c) \<Rightarrow> 'c MySqlBackendConnection \<Rightarrow> 'c MySqlBackendConnection" where
  "mb_close sock_open shutdown_both sock_close b =
     (if sock_open (mb_socket b) then b\<lparr>mb_socket := sock_close (shutdown_both (mb_socket b))\<rparr> else b)"

section \<open>The salt of an AuthSwitchRequest\<close>

definition kClientFlags :: u32 where
  "kClientFlags = caps_LONG_PASSWORD OR caps_PROTOCOL_41 OR caps_SECURE_CONNECTION OR
     caps_PLUGIN_AUTH OR caps_TRANSACTIONS OR caps_CONNECT_WITH_DB"

function skip_plugin :: "bytes \<Rightarrow> nat \<Rightarrow> nat" where
  "skip_plugin payload pos =
     (if pos < length payload \<and> payload ! pos \<noteq> 0x00 then skip_plugin payload (pos + 1) else pos)"
  by auto
termination by (relation "measure (\<lambda>(payload, pos). length payload - pos)") auto

function switch_salt_loop :: "bytes \<Rightarrow> nat \<Rightarrow> nat \<Rightarrow> bytes \<Rightarrow> bytes" where
  "switch_salt_loop payload i pos salt =
     (if i < 20 \<and> pos < length payload
      then switch_salt_loop payload (i + 1) (pos + 1) (salt[i := payload ! pos]) else salt)"
  by auto
termination by (relation "measure (\<lambda>(payload, i, pos, salt). 20 - i)") auto

declare skip_plugin.simps [simp del] switch_salt_loop.simps [simp del]

definition parse_switch_salt :: "bytes \<Rightarrow> bytes" where
  "parse_switch_salt payload = switch_salt_loop payload 0 (skip_plugin payload 1 + 1) (replicate 20 0)"

section \<open>BackendConnector\<close>

text \<open>The response to the server's handshake (lines 84 to 93).\<close>

definition client_response :: "(bytes \<Rightarrow> bytes) \<Rightarrow> BackendConfig \<Rightarrow> HandshakeV10 \<Rightarrow> HandshakeResponse41" where
  "client_response sha1 backend server_hs =
     (let resp = default_HandshakeResponse41\<lparr>
            hr_capability_flags := kClientFlags,
            hr_max_packet_size := word_of_nat MAX_PACKET_SIZE,
            hr_character_set := charset_UTF8MB4,
            hr_username := bc_user backend,
            hr_auth_response := scramble_native_password sha1 (bc_password backend) (hs_auth_data server_hs),
            hr_database := [],
            hr_auth_plugin := NATIVE_PASSWORD\<rparr>
      in resp\<lparr>hr_capability_flags := hr_capability_flags resp AND NOT caps_CONNECT_WITH_DB\<rparr>)"

text \<open>
  Steps 2 to 4 on a connected socket; the second component is the socket when the coroutine
  returns (the source closes it on an error, by its destructor).
\<close>

definition authenticate :: "(bytes \<Rightarrow> bytes) \<Rightarrow> ('c \<Rightarrow> bytes \<Rightarrow> bool \<times> 'c) \<Rightarrow> ('c \<Rightarrow> nat \<Rightarrow> bytes option \<times> 'c)
    \<Rightarrow> BackendConfig \<Rightarrow> 'c \<Rightarrow> (('c MySqlBackendConnection, PoolError) result \<times> 'c) option" where
  "authenticate sha1 send recv backend s = do {
     (hs_pkt, s) \<leftarrow> read_packet recv s;
     (case hs_pkt of
        Err _ \<Rightarrow> Some (Err CONNECT_FAILED, s)
      | Ok hp \<Rightarrow> do {
          hs \<leftarrow> hs_decode (pk_payload hp);
          (case hs of
             Err _ \<Rightarrow> Some (Err CONNECT_FAILED, s)
           | Ok server_hs \<Rightarrow> do {
               let tid = hs_connection_id server_hs;
               (w, seq, s) \<leftarrow> write_packet send s (hr_encode (client_response sha1 backend server_hs)) (pk_sequence hp + 1);
               if is_err w then Some (Err CONNECT_FAILED, s)
               else do {
                 (auth_pkt, s) \<leftarrow> read_packet recv s;
                 (case auth_pkt of
                    Err _ \<Rightarrow> Some (Err CONNECT_FAILED, s)
                  | Ok ap \<Rightarrow>
                      if pk_payload ap \<noteq> [] \<and> hd (pk_payload ap) = 0xFE then do {
                        let new_salt = parse_switch_salt (pk_payload ap);
                        let token = scramble_native_password sha1 (bc_password backend) new_salt;
                        (w2, seq, s) \<leftarrow> write_packet send s token (pk_sequence ap + 1);
                        if is_err w2 then Some (Err CONNECT_FAILED, s)
                        else do {
                          (final_pkt, s) \<leftarrow> read_packet recv s;
                          (case final_pkt of
                             Err _ \<Rightarrow> Some (Err CONNECT_FAILED, s)
                           | Ok fp \<Rightarrow>
                               if pk_payload fp = [] \<or> hd (pk_payload fp) \<noteq> OK_PACKET
                               then Some (Err CONNECT_FAILED, s)
                               else Some (Ok (mb_new s tid), s)) } }
                      else if pk_payload ap = [] \<or> hd (pk_payload ap) \<noteq> OK_PACKET
                      then Some (Err CONNECT_FAILED, s)
                      else Some (Ok (mb_new s tid), s)) } }) }) }"

definition connect :: "(bytes \<Rightarrow> bytes) \<Rightarrow> (string \<Rightarrow> string \<Rightarrow> 'n option) \<Rightarrow> ('n \<Rightarrow> 'c option)
    \<Rightarrow> ('c \<Rightarrow> bytes \<Rightarrow> bool \<times> 'c) \<Rightarrow> ('c \<Rightarrow> nat \<Rightarrow> bytes option \<times> 'c)
    \<Rightarrow> BackendConfig \<Rightarrow> ('c MySqlBackendConnection, PoolError) result option" where
  "connect sha1 resolve tcp_connect send recv backend =
     (case resolve (bc_host backend) (to_digits (unat (bc_port backend))) of
        None \<Rightarrow> Some (Err CONNECT_FAILED)
      | Some endpoints \<Rightarrow>
          (case tcp_connect endpoints of
             None \<Rightarrow> Some (Err CONNECT_FAILED)
           | Some s \<Rightarrow> map_option fst (authenticate sha1 send recv backend s)))"

text \<open>The factory of a pool: a call of it connects to the backend it was made for.\<close>

definition make_factory :: "(bytes \<Rightarrow> bytes) \<Rightarrow> (string \<Rightarrow> string \<Rightarrow> 'n option) \<Rightarrow> ('n \<Rightarrow> 'c option)
    \<Rightarrow> ('c \<Rightarrow> bytes \<Rightarrow> bool \<times> 'c) \<Rightarrow> ('c \<Rightarrow> nat \<Rightarrow> bytes option \<times> 'c)
    \<Rightarrow> BackendConfig \<Rightarrow> unit \<Rightarrow> ('c MySqlBackendConnection, PoolError) result option" where
  "make_factory sha1 resolve tcp_connect send recv backend = (\<lambda>_. connect sha1 resolve tcp_connect send recv backend)"


section \<open>The salt of a switch request\<close>

lemma skip_plugin_at:
  "0 \<notin> set plugin \<Longrightarrow> skip_plugin (pre @ plugin @ 0 # r) (length pre) = length pre + length plugin"
proof (induction plugin arbitrary: pre)
  case Nil
  then show ?case by (subst skip_plugin.simps) (simp add: nth_append)
next
  case (Cons x xs)
  from Cons.IH [of "pre @ [x]"] Cons.prems show ?case by (subst skip_plugin.simps) (simp add: nth_append)
qed

lemma switch_salt_loop_at:
  "length bs + i = 20 \<Longrightarrow> length salt = 20 \<Longrightarrow> switch_salt_loop (pre @ bs @ trail) i (length pre) salt = take i salt @ bs"
proof (induction bs arbitrary: pre i salt)
  case Nil
  then show ?case by (subst switch_salt_loop.simps) simp
next
  case (Cons b bs)
  from Cons.IH [of "i + 1" "salt[i := b]" "pre @ [b]"] Cons.prems show ?case
    by (subst switch_salt_loop.simps) (simp add: nth_append take_Suc_conv_app_nth)
qed

definition auth_switch :: "bytes \<Rightarrow> bytes \<Rightarrow> bytes \<Rightarrow> bytes" where
  "auth_switch plugin salt trail = [0xFE] @ plugin @ [0] @ salt @ trail"

lemma parse_switch_salt_at:
  assumes "0 \<notin> set plugin" "length salt = 20"
  shows "parse_switch_salt (auth_switch plugin salt trail) = salt"
  using skip_plugin_at [OF assms(1), of "[0xFE]" "salt @ trail"]
    switch_salt_loop_at [of salt 0 "replicate 20 0" "[0xFE] @ plugin @ [0]" trail] assms(2)
  by (simp add: parse_switch_salt_def auth_switch_def)

section \<open>What the proxy sends\<close>

text \<open>SHA-1 has 20 bytes.\<close>

definition hash20 :: "(bytes \<Rightarrow> bytes) \<Rightarrow> bool" where
  "hash20 sha1 \<longleftrightarrow> (\<forall>x. length (sha1 x) = 20)"

lemma verify_scramble20:
  "hash20 sha1 \<Longrightarrow> pwd \<noteq> [] \<Longrightarrow> verify_native_password sha1 pwd salt (scramble_native_password sha1 pwd salt)"
  using verify_scramble [of sha1 pwd] by (simp add: hash20_def)

lemma length_scramble: "hash20 sha1 \<Longrightarrow> length (scramble_native_password sha1 pwd salt) \<le> 20"
  by (simp add: scramble_native_password_def native_hashes_def Let_def hash20_def)

lemma client_response_valid:
  assumes "hash20 sha1" "CHR 0x00 \<notin> set (bc_user backend)"
  shows "hr_valid (client_response sha1 backend hs)"
  using assms(2) length_scramble [of sha1 "bc_password backend" "hs_auth_data hs", OF assms(1)]
  by (simp add: hr_valid_def client_response_def Let_def kClientFlags_def caps_defs NATIVE_PASSWORD_def)

lemma client_response_small:
  assumes "hash20 sha1" "length (bc_user backend) < 0xFFFF00"
  shows "length (hr_encode (client_response sha1 backend hs)) < MAX_PACKET_SIZE"
  using assms(2) length_scramble [of sha1 "bc_password backend" "hs_auth_data hs", OF assms(1)]
  by (simp add: hr_encode_def client_response_def Let_def kClientFlags_def caps_defs NATIVE_PASSWORD_def MAX_PACKET_SIZE_def
      write_u32_le_def write_u8_def write_null_str_def write_bytes_def)


section \<open>The exchange with a server\<close>

text \<open>A handshake that survives the wire.\<close>

definition hs_valid :: "HandshakeV10 \<Rightarrow> bool" where
  "hs_valid hs \<longleftrightarrow> length (hs_auth_data hs) = 20 \<and> CHR 0x00 \<notin> set (hs_server_version hs) \<and>
     CHR 0x00 \<notin> set (hs_auth_plugin_name hs) \<and> hs_capability_flags hs AND caps_SECURE_CONNECTION \<noteq> 0 \<and>
     hs_capability_flags hs AND caps_PLUGIN_AUTH \<noteq> 0 \<and> length (hs_encode hs) < MAX_PACKET_SIZE"

definition config_valid :: "BackendConfig \<Rightarrow> bool" where
  "config_valid backend \<longleftrightarrow> CHR 0x00 \<notin> set (bc_user backend) \<and> length (bc_user backend) < 0xFFFF00 \<and> bc_password backend \<noteq> []"

text \<open>What a server that knows the password concludes from the response.\<close>

definition server_accepts :: "(bytes \<Rightarrow> bytes) \<Rightarrow> string \<Rightarrow> string \<Rightarrow> bytes \<Rightarrow> bytes \<Rightarrow> bool" where
  "server_accepts sha1 user pwd salt payload =
     (case hr_decode payload of
        Some (Ok r) \<Rightarrow> hr_username r = user \<and> verify_native_password sha1 pwd salt (hr_auth_response r)
      | _ \<Rightarrow> False)"

lemma response_accepted:
  assumes "hash20 sha1" "config_valid backend"
  shows "server_accepts sha1 (bc_user backend) (bc_password backend) (hs_auth_data hs)
    (hr_encode (client_response sha1 backend hs))"
proof -
  have "hr_valid (client_response sha1 backend hs)"
    using client_response_valid [of sha1 backend hs] assms by (simp add: config_valid_def)
  then show ?thesis
    using assms verify_scramble20
    by (simp add: server_accepts_def hr_decode_encode config_valid_def) (simp add: client_response_def)
qed

lemma authenticate_first:
  assumes sha: "hash20 sha1" and b: "config_valid backend" and hs: "hs_valid hs"
    and d: "duplex send recv inflight sent"
    and s: "inflight s = encode (hs_encode hs) q0 @ encode p q1 @ rest" and p: "length p < MAX_PACKET_SIZE"
  obtains s1 s2 s3 where
    "read_packet recv s = Some (Ok \<lparr>pk_length = word_of_nat (length (hs_encode hs)), pk_sequence = q0, pk_payload = hs_encode hs\<rparr>, s1)"
    "write_packet send s1 (hr_encode (client_response sha1 backend hs)) (q0 + 1) = Some (Ok (), q0 + 2, s2)"
    "read_packet recv s2 = Some (Ok \<lparr>pk_length = word_of_nat (length p), pk_sequence = q1, pk_payload = p\<rparr>, s3)"
    "inflight s3 = rest" "sent s3 = sent s @ encode (hr_encode (client_response sha1 backend hs)) (q0 + 1)"
    "hs_decode (hs_encode hs) = Some (Ok hs)"
proof -
  let ?r = "hr_encode (client_response sha1 backend hs)"
  from duplex_recv [OF d _ s] hs obtain s1 where 1: "inflight s1 = encode p q1 @ rest" "sent s1 = sent s"
    "read_packet recv s = Some (Ok \<lparr>pk_length = word_of_nat (length (hs_encode hs)), pk_sequence = q0, pk_payload = hs_encode hs\<rparr>, s1)"
    by (auto simp: hs_valid_def)
  have "length ?r < MAX_PACKET_SIZE" using client_response_small [of sha1 backend hs] sha b by (simp add: config_valid_def)
  from duplex_write [OF d this, of s1 "q0 + 1"] obtain s2 where 2: "sent s2 = sent s1 @ encode ?r (q0 + 1)" "inflight s2 = inflight s1"
    "write_packet send s1 ?r (q0 + 1) = Some (Ok (), q0 + 1 + 1, s2)" .
  from duplex_recv [OF d p, of s2 q1 rest] 1(1) 2(2) obtain s3 where 3: "inflight s3 = rest" "sent s3 = sent s2"
    "read_packet recv s2 = Some (Ok \<lparr>pk_length = word_of_nat (length p), pk_sequence = q1, pk_payload = p\<rparr>, s3)" by auto
  have "hs_decode (hs_encode hs) = Some (Ok hs)" using hs by (intro hs_decode_encode) (simp_all add: hs_valid_def)
  with 1 2 3 that show thesis by (simp add: add.assoc)
qed

lemma authenticate_plain:
  assumes "hash20 sha1" "config_valid backend" "hs_valid hs" "duplex send recv inflight sent"
    "inflight s = encode (hs_encode hs) q0 @ encode p q1 @ rest" "length p < MAX_PACKET_SIZE"
    and p: "p = [] \<or> hd p \<noteq> 0xFE"
  shows "\<exists>s'. authenticate sha1 send recv backend s =
      Some (if p \<noteq> [] \<and> hd p = OK_PACKET then Ok (mb_new s' (hs_connection_id hs)) else Err CONNECT_FAILED, s') \<and>
    inflight s' = rest \<and> sent s' = sent s @ encode (hr_encode (client_response sha1 backend hs)) (q0 + 1)"
proof -
  from authenticate_first [OF assms(1-6)] obtain s1 s2 s3 where
    "read_packet recv s = Some (Ok \<lparr>pk_length = word_of_nat (length (hs_encode hs)), pk_sequence = q0, pk_payload = hs_encode hs\<rparr>, s1)"
    "write_packet send s1 (hr_encode (client_response sha1 backend hs)) (q0 + 1) = Some (Ok (), q0 + 2, s2)"
    "read_packet recv s2 = Some (Ok \<lparr>pk_length = word_of_nat (length p), pk_sequence = q1, pk_payload = p\<rparr>, s3)"
    "inflight s3 = rest" "sent s3 = sent s @ encode (hr_encode (client_response sha1 backend hs)) (q0 + 1)"
    "hs_decode (hs_encode hs) = Some (Ok hs)" .
  then show ?thesis using p by (auto simp: authenticate_def)
qed

lemma authenticate_switch:
  assumes sha: "hash20 sha1" and bk: "config_valid backend" and hs: "hs_valid hs"
    and d: "duplex send recv inflight sent"
    and "inflight s = encode (hs_encode hs) q0 @ encode (auth_switch plugin salt trail) q1 @ encode p q2 @ rest"
    and n: "length (auth_switch plugin salt trail) < MAX_PACKET_SIZE" and p: "length p < MAX_PACKET_SIZE"
    and sw: "0 \<notin> set plugin" "length salt = 20"
  shows "\<exists>s'. authenticate sha1 send recv backend s =
      Some (if p \<noteq> [] \<and> hd p = OK_PACKET then Ok (mb_new s' (hs_connection_id hs)) else Err CONNECT_FAILED, s') \<and>
    inflight s' = rest \<and> sent s' = sent s @ encode (hr_encode (client_response sha1 backend hs)) (q0 + 1) @
      encode (scramble_native_password sha1 (bc_password backend) salt) (q1 + 1)"
proof -
  let ?a = "auth_switch plugin salt trail" and ?t = "scramble_native_password sha1 (bc_password backend) salt"
  from authenticate_first [OF assms(1-5) n] obtain s1 s2 s3 where 1:
    "read_packet recv s = Some (Ok \<lparr>pk_length = word_of_nat (length (hs_encode hs)), pk_sequence = q0, pk_payload = hs_encode hs\<rparr>, s1)"
    "write_packet send s1 (hr_encode (client_response sha1 backend hs)) (q0 + 1) = Some (Ok (), q0 + 2, s2)"
    "read_packet recv s2 = Some (Ok \<lparr>pk_length = word_of_nat (length ?a), pk_sequence = q1, pk_payload = ?a\<rparr>, s3)"
    "inflight s3 = encode p q2 @ rest" "sent s3 = sent s @ encode (hr_encode (client_response sha1 backend hs)) (q0 + 1)"
    "hs_decode (hs_encode hs) = Some (Ok hs)" .
  have "length ?t < MAX_PACKET_SIZE"
    using length_scramble [of sha1 "bc_password backend" salt, OF sha] by (simp add: MAX_PACKET_SIZE_def)
  from duplex_write [OF d this, of s3 "q1 + 1"] obtain s4 where 2: "sent s4 = sent s3 @ encode ?t (q1 + 1)" "inflight s4 = inflight s3"
    "write_packet send s3 ?t (q1 + 1) = Some (Ok (), q1 + 1 + 1, s4)" .
  from duplex_recv [OF d p, of s4 q2 rest] 1(4) 2(2) obtain s5 where 3: "inflight s5 = rest" "sent s5 = sent s4"
    "read_packet recv s4 = Some (Ok \<lparr>pk_length = word_of_nat (length p), pk_sequence = q2, pk_payload = p\<rparr>, s5)" by auto
  have "?a \<noteq> [] \<and> hd ?a = 0xFE" by (simp add: auth_switch_def)
  then show ?thesis
    using 1 2 3 parse_switch_salt_at [OF sw, of trail] by (auto simp: authenticate_def)
qed

section \<open>Properties\<close>

text \<open>C9. A backend that knows the password accepts the proxy: when a server sends its handshake and
  then a verdict, the proxy answers the handshake with one packet, numbered after it, that decodes to
  the configured user and passes the server's check of the configured password against its salt; the
  connection is established, with the server's thread id, exactly when the verdict is an OK packet.\<close>

theorem connect_authenticates:
  assumes "hash20 sha1" and "config_valid backend" and "hs_valid hs"
    and "duplex send recv inflight sent"
    and "resolve (bc_host backend) (to_digits (unat (bc_port backend))) = Some ep" and "tcp_connect ep = Some s"
    and "inflight s = encode (hs_encode hs) q0 @ encode p q1 @ rest" and "length p < MAX_PACKET_SIZE"
    and "p = [] \<or> hd p \<noteq> 0xFE"
  shows "\<exists>s' payload.
    connect sha1 resolve tcp_connect send recv backend =
      Some (if p \<noteq> [] \<and> hd p = OK_PACKET then Ok (mb_new s' (hs_connection_id hs)) else Err CONNECT_FAILED) \<and>
    inflight s' = rest \<and> sent s' = sent s @ encode payload (q0 + 1) \<and>
    server_accepts sha1 (bc_user backend) (bc_password backend) (hs_auth_data hs) payload"
proof -
  from authenticate_plain [OF assms(1-4,7-9)] obtain s' where
    "authenticate sha1 send recv backend s =
      Some (if p \<noteq> [] \<and> hd p = OK_PACKET then Ok (mb_new s' (hs_connection_id hs)) else Err CONNECT_FAILED, s')"
    "inflight s' = rest" "sent s' = sent s @ encode (hr_encode (client_response sha1 backend hs)) (q0 + 1)" by blast
  moreover have "server_accepts sha1 (bc_user backend) (bc_password backend) (hs_auth_data hs)
      (hr_encode (client_response sha1 backend hs))" by (rule response_accepted [OF assms(1,2)])
  ultimately show ?thesis using assms(5,6) by (auto simp: connect_def)
qed

text \<open>The proxy follows an authentication switch: to a request for another salt it answers with the
  token for that salt, which the server's check accepts, and the connection is established exactly when
  the packet after that is OK.\<close>

lemma connect_switches:
  assumes "hash20 sha1" and "config_valid backend" and "hs_valid hs"
    and "duplex send recv inflight sent"
    and "resolve (bc_host backend) (to_digits (unat (bc_port backend))) = Some ep" and "tcp_connect ep = Some s"
    and "inflight s = encode (hs_encode hs) q0 @ encode (auth_switch plugin salt trail) q1 @ encode p q2 @ rest"
    and "length (auth_switch plugin salt trail) < MAX_PACKET_SIZE" and "length p < MAX_PACKET_SIZE"
    and "0 \<notin> set plugin" and "length salt = 20"
  shows "\<exists>s' payload token.
    connect sha1 resolve tcp_connect send recv backend =
      Some (if p \<noteq> [] \<and> hd p = OK_PACKET then Ok (mb_new s' (hs_connection_id hs)) else Err CONNECT_FAILED) \<and>
    inflight s' = rest \<and> sent s' = sent s @ encode payload (q0 + 1) @ encode token (q1 + 1) \<and>
    verify_native_password sha1 (bc_password backend) salt token"
proof -
  let ?t = "scramble_native_password sha1 (bc_password backend) salt"
  have "verify_native_password sha1 (bc_password backend) salt ?t"
    using verify_scramble20 assms(1,2) by (simp add: config_valid_def)
  with authenticate_switch [OF assms(1-4,7-11)] assms(5,6) show ?thesis by (fastforce simp: connect_def)
qed


text \<open>A backend, its handshake and a hash of the right length.\<close>

definition sample_hash :: "bytes \<Rightarrow> bytes" where
  "sample_hash x = replicate 20 (word_of_nat (length x))"

definition sample_config :: BackendConfig where
  "sample_config = default_BackendConfig\<lparr>bc_user := ''app'', bc_password := ''pw''\<rparr>"

definition sample_greeting :: HandshakeV10 where
  "sample_greeting = default_HandshakeV10\<lparr>hs_connection_id := 7, hs_auth_data := replicate 20 0x41\<rparr>"

lemma sample_exchange: "hash20 sample_hash" "config_valid sample_config" "hs_valid sample_greeting"
proof -
  have "length (hs_encode sample_greeting) < 200" by code_simp
  then show "hs_valid sample_greeting"
    by (simp add: hs_valid_def sample_greeting_def default_HandshakeV10_def NATIVE_PASSWORD_def SERVER_FLAGS_eq
        caps_SECURE_CONNECTION_def caps_PLUGIN_AUTH_def MAX_PACKET_SIZE_def)
qed (simp_all add: hash20_def sample_hash_def config_valid_def sample_config_def)

theorem connect_authenticates_witness:
  "\<exists>s' payload.
    connect sample_hash (\<lambda>h p. Some ()) (\<lambda>_. Some (encode (hs_encode sample_greeting) 0 @ encode [0, 0, 0, 2, 0, 0, 0] 2, []))
      two_pipes_send two_pipes_recv sample_config = Some (Ok (mb_new s' 7)) \<and>
    snd s' = encode payload 1 \<and> server_accepts sample_hash ''app'' ''pw'' (replicate 20 0x41) payload"
  using connect_authenticates [OF sample_exchange two_pipes_duplex, of "\<lambda>h p. Some ()" "()"
      "\<lambda>_. Some (encode (hs_encode sample_greeting) 0 @ encode [0, 0, 0, 2, 0, 0, 0] 2, [])"
      "(encode (hs_encode sample_greeting) 0 @ encode [0, 0, 0, 2, 0, 0, 0] 2, [])" 0 "[0, 0, 0, 2, 0, 0, 0]" 2 "[]"]
  by (simp add: OK_PACKET_def MAX_PACKET_SIZE_def sample_config_def) (simp add: sample_greeting_def, blast)

end
