(* ===== verification/ConfigLoader.thy ===== *)
theory ConfigLoader
  imports ConfigTypes "HOL-Library.AList"
begin

text \<open>
  \<open>core/src/config.cpp\<close>: the loader of the YAML configuration. yaml-cpp is a parameter, a record of
  the operations that the loader calls on a node; an exception is a value. A parser that fills a
  struct is a list of steps, one per statement of the source, run in order up to the first
  exception.
\<close>

section \<open>yaml-cpp\<close>

text \<open>What a caught exception carries: a \<open>YAML::Exception\<close> or another \<open>std::exception\<close>, with its text.\<close>

datatype config_exn = Yaml_exn string | Std_exn string

text \<open>
  \<open>y_defined\<close> is the conversion to \<open>bool\<close>, \<open>y_index\<close> the subscript with a key (undefined when the
  key is missing, an exception on a scalar), \<open>y_seq\<close> and \<open>y_map\<close> are \<open>IsSequence\<close> and \<open>IsMap\<close>,
  \<open>y_items\<close> and \<open>y_pairs\<close> the iteration, the others \<open>as<T>\<close>.
\<close>

record 'n yaml =
  y_defined :: "'n \<Rightarrow> bool"
  y_index :: "'n \<Rightarrow> string \<Rightarrow> ('n, string) result"
  y_seq :: "'n \<Rightarrow> bool"
  y_map :: "'n \<Rightarrow> bool"
  y_items :: "'n \<Rightarrow> 'n list"
  y_pairs :: "'n \<Rightarrow> ('n \<times> 'n) list"
  y_string :: "'n \<Rightarrow> (string, string) result"
  y_u32 :: "'n \<Rightarrow> (u32, string) result"
  y_bool :: "'n \<Rightarrow> (bool, string) result"
  y_double :: "'n \<Rightarrow> (double, string) result"

section \<open>Steps\<close>

type_synonym 'r step = "'r \<Rightarrow> ('r, config_exn) result"

fun run_steps :: "'r step list \<Rightarrow> 'r step" where
  "run_steps [] r = Ok r"
| "run_steps (s # ss) r = (case s r of Ok r' \<Rightarrow> run_steps ss r' | Err e \<Rightarrow> Err e)"

fun yaml_exn :: "('a, string) result \<Rightarrow> ('a, config_exn) result" where
  "yaml_exn (Ok a) = Ok a"
| "yaml_exn (Err w) = Err (Yaml_exn w)"

fun traverse :: "('n \<Rightarrow> ('a, config_exn) result) \<Rightarrow> 'n list \<Rightarrow> ('a list, config_exn) result" where
  "traverse f [] = Ok []"
| "traverse f (n # ns) = (case f n of Err e \<Rightarrow> Err e | Ok a \<Rightarrow> (case traverse f ns of Err e \<Rightarrow> Err e | Ok as \<Rightarrow> Ok (a # as)))"

text \<open>\<open>if (n[k]) ...\<close> with a body that gets the node \<open>n[k]\<close>.\<close>

definition with_key :: "'n yaml \<Rightarrow> 'n \<Rightarrow> string \<Rightarrow> ('n \<Rightarrow> 'r step) \<Rightarrow> 'r step" where
  "with_key Y n k body r =
     (case y_index Y n k of
        Err w \<Rightarrow> Err (Yaml_exn w)
      | Ok m \<Rightarrow> if y_defined Y m then body m r else Ok r)"

text \<open>\<open>if (n[k]) r.field = conv(n[k])\<close>; \<open>upd\<close> is the update function of the field.\<close>

definition set_field :: "'n yaml \<Rightarrow> ('n \<Rightarrow> ('a, config_exn) result) \<Rightarrow> 'n \<Rightarrow> string \<Rightarrow> (('a \<Rightarrow> 'a) \<Rightarrow> 'r \<Rightarrow> 'r) \<Rightarrow> 'r step" where
  "set_field Y conv n k upd =
     with_key Y n k (\<lambda>m r. case conv m of Err e \<Rightarrow> Err e | Ok v \<Rightarrow> Ok (upd (\<lambda>_. v) r))"

definition set_str :: "'n yaml \<Rightarrow> 'n \<Rightarrow> string \<Rightarrow> ((string \<Rightarrow> string) \<Rightarrow> 'r \<Rightarrow> 'r) \<Rightarrow> 'r step" where
  "set_str Y = set_field Y (\<lambda>m. yaml_exn (y_string Y m))"

definition set_u32 :: "'n yaml \<Rightarrow> 'n \<Rightarrow> string \<Rightarrow> ((u32 \<Rightarrow> u32) \<Rightarrow> 'r \<Rightarrow> 'r) \<Rightarrow> 'r step" where
  "set_u32 Y = set_field Y (\<lambda>m. yaml_exn (y_u32 Y m))"

definition set_bool :: "'n yaml \<Rightarrow> 'n \<Rightarrow> string \<Rightarrow> ((bool \<Rightarrow> bool) \<Rightarrow> 'r \<Rightarrow> 'r) \<Rightarrow> 'r step" where
  "set_bool Y = set_field Y (\<lambda>m. yaml_exn (y_bool Y m))"

definition set_double :: "'n yaml \<Rightarrow> 'n \<Rightarrow> string \<Rightarrow> ((double \<Rightarrow> double) \<Rightarrow> 'r \<Rightarrow> 'r) \<Rightarrow> 'r step" where
  "set_double Y = set_field Y (\<lambda>m. yaml_exn (y_double Y m))"

text \<open>\<open>static_cast<uint16_t>(n[k].as<uint32_t>())\<close>.\<close>

definition set_port :: "'n yaml \<Rightarrow> 'n \<Rightarrow> string \<Rightarrow> ((u16 \<Rightarrow> u16) \<Rightarrow> 'r \<Rightarrow> 'r) \<Rightarrow> 'r step" where
  "set_port Y = set_field Y (\<lambda>m. case y_u32 Y m of Err w \<Rightarrow> Err (Yaml_exn w) | Ok v \<Rightarrow> Ok (ucast v))"

text \<open>\<open>parse(n[k].as<std::string>())\<close> for an enumeration.\<close>

definition set_enum :: "'n yaml \<Rightarrow> (string \<Rightarrow> ('a, config_exn) result) \<Rightarrow> 'n \<Rightarrow> string \<Rightarrow> (('a \<Rightarrow> 'a) \<Rightarrow> 'r \<Rightarrow> 'r) \<Rightarrow> 'r step" where
  "set_enum Y parse = set_field Y (\<lambda>m. case y_string Y m of Err w \<Rightarrow> Err (Yaml_exn w) | Ok s \<Rightarrow> parse s)"

text \<open>The same for a \<open>std::optional\<close> field.\<close>

definition set_opt :: "'n yaml \<Rightarrow> ('n \<Rightarrow> ('a, config_exn) result) \<Rightarrow> 'n \<Rightarrow> string \<Rightarrow> (('a option \<Rightarrow> 'a option) \<Rightarrow> 'r \<Rightarrow> 'r) \<Rightarrow> 'r step" where
  "set_opt Y conv n k upd =
     with_key Y n k (\<lambda>m r. case conv m of Err e \<Rightarrow> Err e | Ok v \<Rightarrow> Ok (upd (\<lambda>_. Some v) r))"

definition as_enum :: "'n yaml \<Rightarrow> (string \<Rightarrow> ('a, config_exn) result) \<Rightarrow> 'n \<Rightarrow> ('a, config_exn) result" where
  "as_enum Y parse m = (case y_string Y m of Err w \<Rightarrow> Err (Yaml_exn w) | Ok s \<Rightarrow> parse s)"

definition as_str :: "'n yaml \<Rightarrow> 'n \<Rightarrow> (string, config_exn) result" where
  "as_str Y m = yaml_exn (y_string Y m)"

text \<open>\<open>if (n[k] && n[k].IsSequence()) for (item : n[k]) field.push_back(item)\<close>.\<close>

definition push_seq :: "'n yaml \<Rightarrow> ('n \<Rightarrow> ('a, config_exn) result) \<Rightarrow> 'n \<Rightarrow> string \<Rightarrow> (('a list \<Rightarrow> 'a list) \<Rightarrow> 'r \<Rightarrow> 'r) \<Rightarrow> 'r step" where
  "push_seq Y item n k upd =
     with_key Y n k (\<lambda>m r. if y_seq Y m
       then (case traverse item (y_items Y m) of Err e \<Rightarrow> Err e | Ok xs \<Rightarrow> Ok (upd (\<lambda>ys. ys @ xs) r)) else Ok r)"

section \<open>Enumerations\<close>

fun lookup_enum :: "(string \<times> 'a) list \<Rightarrow> string \<Rightarrow> string \<Rightarrow> ('a, config_exn) result" where
  "lookup_enum [] what s = Err (Std_exn what)"
| "lookup_enum ((k, v) # kvs) what s = (if s = k then Ok v else lookup_enum kvs what s)"

definition quoted :: "string \<Rightarrow> string" where
  "quoted s = [CHR 0x27] @ s @ [CHR 0x27]"

definition parse_node_mode :: "string \<Rightarrow> (NodeMode, config_exn) result" where
  "parse_node_mode s =
     lookup_enum [(''standalone'', STANDALONE), (''cluster'', CLUSTER)]
       (''invalid node.mode '' @ quoted s @ '' (standalone|cluster)'') s"

definition parse_backend_type :: "string \<Rightarrow> (BackendType, config_exn) result" where
  "parse_backend_type s =
     lookup_enum [(''mysql'', MYSQL), (''mariadb'', MARIADB), (''postgres'', POSTGRES), (''rds-mysql'', RDS_MYSQL),
       (''rds-mariadb'', RDS_MARIADB), (''rds-postgres'', RDS_POSTGRES)] (''invalid backend type '' @ quoted s) s"

definition parse_backend_role :: "string \<Rightarrow> (BackendRole, config_exn) result" where
  "parse_backend_role s =
     lookup_enum [(''primary'', PRIMARY), (''replica'', REPLICA)] (''invalid role '' @ quoted s @ '' (primary|replica)'') s"

definition parse_recovery_mode :: "string \<Rightarrow> (RecoveryMode, config_exn) result" where
  "parse_recovery_mode s =
     lookup_enum [(''STATELESS'', STATELESS), (''BASIC'', BASIC), (''ADVANCED'', ADVANCED), (''STRICT'', STRICT)]
       (''invalid recovery_mode '' @ quoted s @ '' (STATELESS|BASIC|ADVANCED|STRICT)'') s"

definition parse_affinity_mode :: "string \<Rightarrow> (AffinityMode, config_exn) result" where
  "parse_affinity_mode s =
     lookup_enum [(''NONE'', Affinity_NONE), (''SCHEMA'', Affinity_SCHEMA), (''BACKEND'', Affinity_BACKEND),
       (''TRANSACTION'', Affinity_TRANSACTION)] (''invalid affinity '' @ quoted s @ '' (NONE|SCHEMA|BACKEND|TRANSACTION)'') s"

definition parse_routing_policy :: "string \<Rightarrow> (RoutingPolicy, config_exn) result" where
  "parse_routing_policy s =
     lookup_enum [(''round_robin'', ROUND_ROBIN), (''weighted'', WEIGHTED), (''least_connections'', LEAST_CONNECTIONS),
       (''latency'', LATENCY), (''random'', RANDOM), (''failover'', FAILOVER), (''consistent_hashing'', CONSISTENT_HASHING)]
       (''invalid routing_policy '' @ quoted s) s"

definition parse_failover_policy :: "string \<Rightarrow> (FailoverPolicy, config_exn) result" where
  "parse_failover_policy s =
     lookup_enum [(''IMMEDIATE'', IMMEDIATE), (''GRACEFUL'', GRACEFUL), (''MANUAL'', MANUAL)]
       (''invalid failover.policy '' @ quoted s @ '' (IMMEDIATE|GRACEFUL|MANUAL)'') s"

section \<open>Sections of the file\<close>

definition parse_pool :: "'n yaml \<Rightarrow> 'n \<Rightarrow> (PoolConfig, config_exn) result" where
  "parse_pool Y n =
     (if \<not> y_defined Y n then Ok default_PoolConfig
      else run_steps
        [set_u32 Y n ''min'' pool_min_update,
         set_u32 Y n ''max'' pool_max_update,
         set_u32 Y n ''idle_timeout_sec'' pool_idle_timeout_sec_update,
         set_u32 Y n ''connect_timeout_ms'' pool_connect_timeout_ms_update,
         set_u32 Y n ''acquire_timeout_ms'' pool_acquire_timeout_ms_update,
         set_bool Y n ''warm'' pool_warm_update] default_PoolConfig)"

definition parse_listener :: "'n yaml \<Rightarrow> 'n \<Rightarrow> u16 \<Rightarrow> (ListenerConfig, config_exn) result" where
  "parse_listener Y n default_port =
     (let l = default_ListenerConfig\<lparr>lst_port := default_port\<rparr> in
      if \<not> y_defined Y n then Ok l
      else run_steps
        [set_bool Y n ''enabled'' lst_enabled_update,
         set_str Y n ''bind'' lst_bind_update,
         set_port Y n ''port'' lst_port_update,
         set_u32 Y n ''max_connections'' lst_max_connections_update,
         set_u32 Y n ''backlog'' lst_backlog_update,
         set_u32 Y n ''io_threads'' lst_io_threads_update] l)"

definition parse_tls_endpoint :: "'n yaml \<Rightarrow> 'n \<Rightarrow> (TlsEndpointConfig, config_exn) result" where
  "parse_tls_endpoint Y n =
     (if \<not> y_defined Y n then Ok default_TlsEndpointConfig
      else run_steps
        [set_bool Y n ''enabled'' tlse_enabled_update,
         set_str Y n ''cert'' tlse_cert_update,
         set_str Y n ''key'' tlse_key_update,
         set_str Y n ''ca'' tlse_ca_update,
         set_bool Y n ''mutual'' tlse_mutual_update,
         set_str Y n ''min_version'' tlse_min_version_update] default_TlsEndpointConfig)"

text \<open>\<open>b.tags[key] = value\<close> for every pair of a map.\<close>

fun set_tags :: "'n yaml \<Rightarrow> ('n \<times> 'n) list \<Rightarrow> (string \<times> string) list \<Rightarrow> ((string \<times> string) list, config_exn) result" where
  "set_tags Y [] tags = Ok tags"
| "set_tags Y ((kn, vn) # ps) tags =
     (case as_str Y kn of Err e \<Rightarrow> Err e
      | Ok k \<Rightarrow> (case as_str Y vn of Err e \<Rightarrow> Err e | Ok v \<Rightarrow> set_tags Y ps (AList.update k v tags)))"

definition parse_backend :: "'n yaml \<Rightarrow> 'n \<Rightarrow> (BackendConfig, config_exn) result" where
  "parse_backend Y n =
     run_steps
       [set_str Y n ''id'' bc_id_update,
        set_enum Y parse_backend_type n ''type'' bc_type_update,
        set_str Y n ''host'' bc_host_update,
        set_port Y n ''port'' bc_port_update,
        set_enum Y parse_backend_role n ''role'' bc_role_update,
        set_str Y n ''group'' bc_group_update,
        set_str Y n ''user'' bc_user_update,
        set_str Y n ''password'' bc_password_update,
        set_str Y n ''secrets_file'' bc_secrets_file_update,
        set_u32 Y n ''weight'' bc_weight_update,
        set_u32 Y n ''max_replication_lag_ms'' bc_max_replication_lag_ms_update,
        set_field Y (parse_pool Y) n ''pool'' bc_pool_update,
        with_key Y n ''tags'' (\<lambda>t b. if y_map Y t
          then (case set_tags Y (y_pairs Y t) (bc_tags b) of Err e \<Rightarrow> Err e | Ok ts \<Rightarrow> Ok (b\<lparr>bc_tags := ts\<rparr>)) else Ok b)]
       default_BackendConfig"

definition parse_schema :: "'n yaml \<Rightarrow> 'n \<Rightarrow> (SchemaConfig, config_exn) result" where
  "parse_schema Y n =
     run_steps
       [set_str Y n ''name'' sc_name_update,
        set_str Y n ''backend_group'' sc_backend_group_update,
        set_opt Y (as_enum Y parse_routing_policy) n ''routing_policy'' sc_routing_policy_update,
        set_opt Y (as_enum Y parse_recovery_mode) n ''session_recovery'' sc_session_recovery_update,
        set_opt Y (as_enum Y parse_affinity_mode) n ''session_affinity'' sc_session_affinity_update,
        set_opt Y (\<lambda>m. yaml_exn (y_bool Y m)) n ''read_write_split'' sc_read_write_split_update]
       default_SchemaConfig"

definition parse_tenant_mapping :: "'n yaml \<Rightarrow> 'n \<Rightarrow> (TenantMapping, config_exn) result" where
  "parse_tenant_mapping Y m =
     run_steps [set_str Y m ''tenant'' tm_tenant_update, set_str Y m ''backend_group'' tm_backend_group_update]
       default_TenantMapping"

definition parse_routing :: "'n yaml \<Rightarrow> 'n \<Rightarrow> (RoutingConfig, config_exn) result" where
  "parse_routing Y n =
     (if \<not> y_defined Y n then Ok default_RoutingConfig
      else run_steps
        [set_enum Y parse_routing_policy n ''default_policy'' rt_default_policy_update,
         set_bool Y n ''read_write_split'' rt_read_write_split_update,
         set_bool Y n ''send_writes_to_primary'' rt_send_writes_to_primary_update,
         set_bool Y n ''replication_aware'' rt_replication_aware_update,
         set_u32 Y n ''max_replica_lag_ms'' rt_max_replica_lag_ms_update,
         with_key Y n ''tenants'' (\<lambda>t. run_steps
           [set_bool Y t ''enabled'' (rt_tenants_update \<circ> tn_enabled_update),
            set_str Y t ''attribute_key'' (rt_tenants_update \<circ> tn_attribute_key_update),
            push_seq Y (parse_tenant_mapping Y) t ''mappings'' (rt_tenants_update \<circ> tn_mappings_update)])]
        default_RoutingConfig)"

definition parse_per_user :: "'n yaml \<Rightarrow> 'n \<Rightarrow> (PerUserSessionConfig, config_exn) result" where
  "parse_per_user Y u =
     run_steps
       [set_str Y u ''user'' pu_user_update,
        set_opt Y (as_enum Y parse_recovery_mode) u ''recovery_mode'' pu_recovery_mode_update,
        set_opt Y (as_enum Y parse_affinity_mode) u ''affinity'' pu_affinity_update] default_PerUserSessionConfig"

definition parse_session :: "'n yaml \<Rightarrow> 'n \<Rightarrow> (SessionConfig, config_exn) result" where
  "parse_session Y n =
     (if \<not> y_defined Y n then Ok default_SessionConfig
      else run_steps
        [set_enum Y parse_recovery_mode n ''recovery_mode'' ses_recovery_mode_update,
         set_enum Y parse_affinity_mode n ''affinity'' ses_affinity_update,
         set_u32 Y n ''max_idle_sec'' ses_max_idle_sec_update,
         set_u32 Y n ''max_lifetime_sec'' ses_max_lifetime_sec_update,
         push_seq Y (parse_per_user Y) n ''per_user'' ses_per_user_update] default_SessionConfig)"

definition parse_health_check :: "'n yaml \<Rightarrow> 'n \<Rightarrow> (HealthCheckConfig, config_exn) result" where
  "parse_health_check Y n =
     (if \<not> y_defined Y n then Ok default_HealthCheckConfig
      else run_steps
        [set_u32 Y n ''interval_ms'' hc_interval_ms_update,
         set_u32 Y n ''timeout_ms'' hc_timeout_ms_update,
         set_u32 Y n ''failure_threshold'' hc_failure_threshold_update,
         set_u32 Y n ''recovery_threshold'' hc_recovery_threshold_update,
         set_str Y n ''method'' hc_method_update,
         set_str Y n ''query'' hc_query_update] default_HealthCheckConfig)"

definition parse_failover :: "'n yaml \<Rightarrow> 'n \<Rightarrow> (FailoverConfig, config_exn) result" where
  "parse_failover Y n =
     (if \<not> y_defined Y n then Ok default_FailoverConfig
      else run_steps
        [set_bool Y n ''enabled'' fo_enabled_update,
         set_enum Y parse_failover_policy n ''policy'' fo_policy_update,
         set_u32 Y n ''grace_period_ms'' fo_grace_period_ms_update,
         set_bool Y n ''promotion_enabled'' fo_promotion_enabled_update,
         set_str Y n ''promotion_strategy'' fo_promotion_strategy_update,
         set_field Y (parse_health_check Y) n ''health_check'' fo_health_check_update,
         with_key Y n ''query_recovery'' (\<lambda>qr. run_steps
           [set_bool Y qr ''enabled'' (fo_query_recovery_update \<circ> qr_enabled_update),
            set_bool Y qr ''retry_selects'' (fo_query_recovery_update \<circ> qr_retry_selects_update),
            set_bool Y qr ''retry_writes'' (fo_query_recovery_update \<circ> qr_retry_writes_update),
            set_u32 Y qr ''max_retries'' (fo_query_recovery_update \<circ> qr_max_retries_update),
            set_u32 Y qr ''retry_delay_ms'' (fo_query_recovery_update \<circ> qr_retry_delay_ms_update),
            set_str Y qr ''retry_backoff'' (fo_query_recovery_update \<circ> qr_retry_backoff_update)])]
        default_FailoverConfig)"

definition parse_cluster :: "'n yaml \<Rightarrow> 'n \<Rightarrow> (ClusterConfig, config_exn) result" where
  "parse_cluster Y n =
     (if \<not> y_defined Y n then Ok default_ClusterConfig
      else run_steps
        [set_bool Y n ''enabled'' cl_enabled_update,
         set_str Y n ''bind'' cl_bind_update,
         set_port Y n ''port'' cl_port_update,
         set_str Y n ''discovery'' cl_discovery_update,
         set_str Y n ''seed_dns'' cl_seed_dns_update,
         push_seq Y (as_str Y) n ''seed_nodes'' cl_seed_nodes_update,
         with_key Y n ''gossip'' (\<lambda>g. run_steps
           [set_u32 Y g ''interval_ms'' (cl_gossip_update \<circ> gos_interval_ms_update),
            set_u32 Y g ''fanout'' (cl_gossip_update \<circ> gos_fanout_update),
            set_u32 Y g ''suspicion_mult'' (cl_gossip_update \<circ> gos_suspicion_mult_update),
            set_u32 Y g ''retransmit_mult'' (cl_gossip_update \<circ> gos_retransmit_mult_update),
            with_key Y g ''sync_keys'' (\<lambda>ks c. if y_seq Y ks
              then (case traverse (as_str Y) (y_items Y ks) of Err e \<Rightarrow> Err e
                    | Ok xs \<Rightarrow> Ok (c\<lparr>cl_gossip := (cl_gossip c)\<lparr>gos_sync_keys := xs\<rparr>\<rparr>)) else Ok c)])]
        default_ClusterConfig)"

definition parse_firewall_rule :: "'n yaml \<Rightarrow> 'n \<Rightarrow> (FirewallRule, config_exn) result" where
  "parse_firewall_rule Y r =
     run_steps
       [set_str Y r ''name'' fr_name_update,
        set_str Y r ''match'' fr_match_update,
        set_str Y r ''match_regex'' fr_match_regex_update,
        set_str Y r ''action'' fr_action_update,
        set_str Y r ''message'' fr_message_update,
        push_seq Y (as_str Y) r ''schemas'' fr_schemas_update,
        push_seq Y (as_str Y) r ''users'' fr_users_update] default_FirewallRule"

definition parse_firewall :: "'n yaml \<Rightarrow> 'n \<Rightarrow> (FirewallConfig, config_exn) result" where
  "parse_firewall Y n =
     (if \<not> y_defined Y n then Ok default_FirewallConfig
      else run_steps
        [set_bool Y n ''enabled'' fw_enabled_update,
         set_str Y n ''default_action'' fw_default_action_update,
         push_seq Y (parse_firewall_rule Y) n ''rules'' fw_rules_update] default_FirewallConfig)"

text \<open>The key of an override: the first of \<open>user\<close>, \<open>schema\<close>, \<open>tenant\<close> that is present.\<close>

fun set_first_key :: "'n yaml \<Rightarrow> 'n \<Rightarrow> string list \<Rightarrow> RateLimitOverride step" where
  "set_first_key Y n [] r = Ok r"
| "set_first_key Y n (k # ks) r =
     (case y_index Y n k of
        Err w \<Rightarrow> Err (Yaml_exn w)
      | Ok m \<Rightarrow> if y_defined Y m
                then (case as_str Y m of Err e \<Rightarrow> Err e | Ok s \<Rightarrow> Ok (r\<lparr>rlo_key := s\<rparr>))
                else set_first_key Y n ks r)"

definition parse_override :: "'n yaml \<Rightarrow> 'n \<Rightarrow> (RateLimitOverride, config_exn) result" where
  "parse_override Y n =
     run_steps [set_first_key Y n [''user'', ''schema'', ''tenant''], set_u32 Y n ''qps'' rlo_qps_update]
       default_RateLimitOverride"

definition parse_rate_limit_dim :: "'n yaml \<Rightarrow> 'n \<Rightarrow> (RateLimitDimension, config_exn) result" where
  "parse_rate_limit_dim Y n =
     (if \<not> y_defined Y n then Ok default_RateLimitDimension
      else run_steps
        [set_bool Y n ''enabled'' rld_enabled_update,
         set_u32 Y n ''default_qps'' rld_default_qps_update,
         set_double Y n ''burst_multiplier'' rld_burst_multiplier_update,
         push_seq Y (parse_override Y) n ''overrides'' rld_overrides_update] default_RateLimitDimension)"

definition parse_logging :: "'n yaml \<Rightarrow> 'n \<Rightarrow> (LoggingConfig, config_exn) result" where
  "parse_logging Y n =
     (if \<not> y_defined Y n then Ok default_LoggingConfig
      else run_steps
        [set_str Y n ''level'' lg_level_update,
         set_str Y n ''format'' lg_format_update,
         set_str Y n ''output'' lg_output_update,
         with_key Y n ''file'' (\<lambda>f. run_steps
           [set_str Y f ''path'' (lg_file_update \<circ> lf_path_update),
            set_bool Y f ''rotate'' (lg_file_update \<circ> lf_rotate_update),
            set_u32 Y f ''max_size_mb'' (lg_file_update \<circ> lf_max_size_mb_update),
            set_u32 Y f ''max_backups'' (lg_file_update \<circ> lf_max_backups_update),
            set_bool Y f ''compress'' (lg_file_update \<circ> lf_compress_update)]),
         with_key Y n ''audit'' (\<lambda>a. run_steps
           [set_bool Y a ''enabled'' (lg_audit_update \<circ> aud_enabled_update),
            set_str Y a ''output'' (lg_audit_update \<circ> aud_output_update),
            set_str Y a ''file'' (lg_audit_update \<circ> aud_file_update),
            set_bool Y a ''log_queries'' (lg_audit_update \<circ> aud_log_queries_update),
            set_bool Y a ''log_connections'' (lg_audit_update \<circ> aud_log_connections_update),
            set_bool Y a ''log_failovers'' (lg_audit_update \<circ> aud_log_failovers_update),
            set_bool Y a ''log_auth'' (lg_audit_update \<circ> aud_log_auth_update),
            set_bool Y a ''log_config_changes'' (lg_audit_update \<circ> aud_log_config_changes_update),
            set_bool Y a ''log_firewall_hits'' (lg_audit_update \<circ> aud_log_firewall_hits_update)])]
        default_LoggingConfig)"


section \<open>The whole file\<close>

text \<open>\<open>r.field = parse(n[k])\<close>, whether or not the key is present.\<close>

definition assign_sub :: "'n yaml \<Rightarrow> ('n \<Rightarrow> ('a, config_exn) result) \<Rightarrow> 'n \<Rightarrow> string \<Rightarrow> (('a \<Rightarrow> 'a) \<Rightarrow> 'r \<Rightarrow> 'r) \<Rightarrow> 'r step" where
  "assign_sub Y parse n k upd r =
     (case y_index Y n k of
        Err w \<Rightarrow> Err (Yaml_exn w)
      | Ok m \<Rightarrow> (case parse m of Err e \<Rightarrow> Err e | Ok v \<Rightarrow> Ok (upd (\<lambda>_. v) r)))"

definition parse_node :: "'n yaml \<Rightarrow> 'n \<Rightarrow> Config step" where
  "parse_node Y root =
     with_key Y root ''node'' (\<lambda>n. run_steps
       [set_str Y n ''id'' (cfg_node_update \<circ> node_id_update),
        set_str Y n ''name'' (cfg_node_update \<circ> node_name_update),
        set_str Y n ''data_dir'' (cfg_node_update \<circ> node_data_dir_update),
        set_enum Y parse_node_mode n ''mode'' (cfg_node_update \<circ> node_mode_update)])"

definition admin_on :: "Config step" where
  "admin_on c = Ok (cfg_listeners_update (lsts_admin_update (lst_enabled_update (\<lambda>_. True))) c)"

definition parse_listeners :: "'n yaml \<Rightarrow> 'n \<Rightarrow> Config step" where
  "parse_listeners Y root c =
     (case y_index Y root ''listeners'' of
        Err w \<Rightarrow> Err (Yaml_exn w)
      | Ok l \<Rightarrow>
          if y_defined Y l then run_steps
            [assign_sub Y (\<lambda>m. parse_listener Y m 3306) l ''mysql'' (cfg_listeners_update \<circ> lsts_mysql_update),
             assign_sub Y (\<lambda>m. parse_listener Y m 5432) l ''postgres'' (cfg_listeners_update \<circ> lsts_postgres_update),
             assign_sub Y (\<lambda>m. parse_listener Y m 8080) l ''admin'' (cfg_listeners_update \<circ> lsts_admin_update),
             admin_on] c
          else run_steps
            [\<lambda>c. Ok (cfg_listeners_update (lsts_mysql_update (lst_port_update (\<lambda>_. 3306))) c),
             \<lambda>c. Ok (cfg_listeners_update (lsts_postgres_update (lst_port_update (\<lambda>_. 5432))) c),
             \<lambda>c. Ok (cfg_listeners_update (lsts_admin_update (lst_port_update (\<lambda>_. 8080))) c),
             admin_on] c)"

definition parse_tls :: "'n yaml \<Rightarrow> 'n \<Rightarrow> Config step" where
  "parse_tls Y root =
     with_key Y root ''tls'' (\<lambda>t. run_steps
       [assign_sub Y (parse_tls_endpoint Y) t ''frontend'' (cfg_tls_update \<circ> tls_frontend_update),
        assign_sub Y (parse_tls_endpoint Y) t ''backend'' (cfg_tls_update \<circ> tls_backend_update \<circ> btls_endpoint_update),
        with_key Y t ''backend'' (\<lambda>b. set_bool Y b ''verify_server''
          (cfg_tls_update \<circ> tls_backend_update \<circ> btls_verify_server_update))])"

definition parse_auth :: "'n yaml \<Rightarrow> 'n \<Rightarrow> Config step" where
  "parse_auth Y root =
     with_key Y root ''auth'' (\<lambda>a. run_steps
       [set_str Y a ''method'' (cfg_auth_update \<circ> auth_method_update),
        with_key Y a ''local'' (\<lambda>l. set_str Y l ''users_file'' (cfg_auth_update \<circ> auth_users_file_update)),
        with_key Y a ''ldap'' (\<lambda>ld. run_steps
          [set_bool Y ld ''enabled'' (cfg_auth_update \<circ> auth_ldap_update \<circ> ldap_enabled_update),
           set_str Y ld ''url'' (cfg_auth_update \<circ> auth_ldap_update \<circ> ldap_url_update),
           set_str Y ld ''base_dn'' (cfg_auth_update \<circ> auth_ldap_update \<circ> ldap_base_dn_update),
           set_str Y ld ''bind_dn'' (cfg_auth_update \<circ> auth_ldap_update \<circ> ldap_bind_dn_update),
           set_str Y ld ''bind_password'' (cfg_auth_update \<circ> auth_ldap_update \<circ> ldap_bind_password_update),
           set_str Y ld ''user_filter'' (cfg_auth_update \<circ> auth_ldap_update \<circ> ldap_user_filter_update),
           set_str Y ld ''group_attribute'' (cfg_auth_update \<circ> auth_ldap_update \<circ> ldap_group_attribute_update),
           set_u32 Y ld ''timeout_ms'' (cfg_auth_update \<circ> auth_ldap_update \<circ> ldap_timeout_ms_update),
           set_bool Y ld ''start_tls'' (cfg_auth_update \<circ> auth_ldap_update \<circ> ldap_start_tls_update)]),
        with_key Y a ''jwt'' (\<lambda>jw. run_steps
          [set_bool Y jw ''enabled'' (cfg_auth_update \<circ> auth_jwt_update \<circ> jwt_enabled_update),
           set_str Y jw ''algorithm'' (cfg_auth_update \<circ> auth_jwt_update \<circ> jwt_algorithm_update),
           set_str Y jw ''public_key'' (cfg_auth_update \<circ> auth_jwt_update \<circ> jwt_public_key_update),
           set_str Y jw ''secret'' (cfg_auth_update \<circ> auth_jwt_update \<circ> jwt_secret_update),
           set_str Y jw ''issuer'' (cfg_auth_update \<circ> auth_jwt_update \<circ> jwt_issuer_update),
           set_str Y jw ''audience'' (cfg_auth_update \<circ> auth_jwt_update \<circ> jwt_audience_update),
           set_u32 Y jw ''leeway_sec'' (cfg_auth_update \<circ> auth_jwt_update \<circ> jwt_leeway_sec_update)])])"

definition parse_rbac :: "'n yaml \<Rightarrow> 'n \<Rightarrow> Config step" where
  "parse_rbac Y root =
     with_key Y root ''rbac'' (\<lambda>rb. run_steps
       [set_bool Y rb ''enabled'' (cfg_rbac_update \<circ> rbac_enabled_update),
        set_str Y rb ''roles_file'' (cfg_rbac_update \<circ> rbac_roles_file_update)])"

definition parse_rate_limit :: "'n yaml \<Rightarrow> 'n \<Rightarrow> Config step" where
  "parse_rate_limit Y root =
     with_key Y root ''rate_limit'' (\<lambda>rl. run_steps
       [set_bool Y rl ''enabled'' (cfg_rate_limit_update \<circ> rl_enabled_update),
        assign_sub Y (parse_rate_limit_dim Y) rl ''per_user'' (cfg_rate_limit_update \<circ> rl_per_user_update),
        assign_sub Y (parse_rate_limit_dim Y) rl ''per_ip'' (cfg_rate_limit_update \<circ> rl_per_ip_update),
        assign_sub Y (parse_rate_limit_dim Y) rl ''per_schema'' (cfg_rate_limit_update \<circ> rl_per_schema_update),
        assign_sub Y (parse_rate_limit_dim Y) rl ''per_tenant'' (cfg_rate_limit_update \<circ> rl_per_tenant_update)])"

definition parse_api :: "'n yaml \<Rightarrow> 'n \<Rightarrow> Config step" where
  "parse_api Y root =
     with_key Y root ''api'' (\<lambda>ap. run_steps
       [set_bool Y ap ''enabled'' (cfg_api_update \<circ> api_enabled_update),
        set_str Y ap ''bind'' (cfg_api_update \<circ> api_bind_update),
        set_port Y ap ''port'' (cfg_api_update \<circ> api_port_update),
        set_bool Y ap ''auth'' (cfg_api_update \<circ> api_auth_update),
        set_str Y ap ''token_file'' (cfg_api_update \<circ> api_token_file_update),
        with_key Y ap ''ui'' (\<lambda>ui. run_steps
          [set_bool Y ui ''enabled'' (cfg_api_update \<circ> api_ui_enabled_update),
           set_str Y ui ''path'' (cfg_api_update \<circ> api_ui_path_update)]),
        with_key Y ap ''cors'' (\<lambda>cors. run_steps
          [set_bool Y cors ''enabled'' (cfg_api_update \<circ> api_cors_enabled_update),
           push_seq Y (as_str Y) cors ''origins'' (cfg_api_update \<circ> api_cors_origins_update)]),
        set_u32 Y ap ''max_request_body_kb'' (cfg_api_update \<circ> api_max_request_body_kb_update),
        set_u32 Y ap ''request_timeout_ms'' (cfg_api_update \<circ> api_request_timeout_ms_update)])"

definition parse_metrics :: "'n yaml \<Rightarrow> 'n \<Rightarrow> Config step" where
  "parse_metrics Y root =
     with_key Y root ''metrics'' (\<lambda>mt. run_steps
       [with_key Y mt ''prometheus'' (\<lambda>pr. run_steps
          [set_bool Y pr ''enabled'' (cfg_metrics_update \<circ> met_prometheus_update \<circ> prom_enabled_update),
           set_str Y pr ''bind'' (cfg_metrics_update \<circ> met_prometheus_update \<circ> prom_bind_update),
           set_port Y pr ''port'' (cfg_metrics_update \<circ> met_prometheus_update \<circ> prom_port_update),
           set_str Y pr ''path'' (cfg_metrics_update \<circ> met_prometheus_update \<circ> prom_path_update),
           set_bool Y pr ''auth'' (cfg_metrics_update \<circ> met_prometheus_update \<circ> prom_auth_update)]),
        with_key Y mt ''tracing'' (\<lambda>tr. run_steps
          [set_bool Y tr ''enabled'' (cfg_metrics_update \<circ> met_tracing_update \<circ> tr_enabled_update),
           set_str Y tr ''exporter'' (cfg_metrics_update \<circ> met_tracing_update \<circ> tr_exporter_update),
           set_str Y tr ''endpoint'' (cfg_metrics_update \<circ> met_tracing_update \<circ> tr_endpoint_update),
           set_str Y tr ''service_name'' (cfg_metrics_update \<circ> met_tracing_update \<circ> tr_service_name_update),
           set_str Y tr ''service_version'' (cfg_metrics_update \<circ> met_tracing_update \<circ> tr_service_version_update),
           set_double Y tr ''sample_rate'' (cfg_metrics_update \<circ> met_tracing_update \<circ> tr_sample_rate_update),
           set_str Y tr ''propagation'' (cfg_metrics_update \<circ> met_tracing_update \<circ> tr_propagation_update)])])"

definition parse_config :: "'n yaml \<Rightarrow> 'n \<Rightarrow> (Config, config_exn) result" where
  "parse_config Y root =
     run_steps
       [parse_node Y root,
        parse_listeners Y root,
        parse_tls Y root,
        push_seq Y (parse_backend Y) root ''backends'' cfg_backends_update,
        push_seq Y (parse_schema Y) root ''schemas'' cfg_schemas_update,
        assign_sub Y (parse_routing Y) root ''routing'' cfg_routing_update,
        assign_sub Y (parse_session Y) root ''session'' cfg_session_update,
        assign_sub Y (parse_failover Y) root ''failover'' cfg_failover_update,
        assign_sub Y (parse_cluster Y) root ''cluster'' cfg_cluster_update,
        parse_auth Y root,
        parse_rbac Y root,
        assign_sub Y (parse_firewall Y) root ''firewall'' cfg_firewall_update,
        parse_rate_limit Y root,
        parse_api Y root,
        parse_metrics Y root,
        assign_sub Y (parse_logging Y) root ''logging'' cfg_logging_update] default_Config"

section \<open>Validation\<close>

definition check_port :: "u16 \<Rightarrow> string \<Rightarrow> string option" where
  "check_port p name = (if p = 0 then Some (name @ '' port cannot be 0'') else None)"

fun validate_backends :: "string set \<Rightarrow> BackendConfig list \<Rightarrow> string option" where
  "validate_backends seen [] = None"
| "validate_backends seen (b # bs) =
     (if bc_id b = [] then Some (''backend is missing '' @ quoted ''id'')
      else if bc_host b = [] then Some (''backend '' @ quoted (bc_id b) @ '' is missing '' @ quoted ''host'')
      else if bc_port b = 0 then Some (''backend '' @ quoted (bc_id b) @ '' port cannot be 0'')
      else if bc_group b = [] then Some (''backend '' @ quoted (bc_id b) @ '' is missing '' @ quoted ''group'')
      else if bc_id b \<in> seen then Some (''duplicate backend id '' @ quoted (bc_id b))
      else validate_backends (insert (bc_id b) seen) bs)"

fun validate_schemas :: "string set \<Rightarrow> SchemaConfig list \<Rightarrow> string option" where
  "validate_schemas seen [] = None"
| "validate_schemas seen (s # ss) =
     (if sc_name s = [] then Some (''schema is missing '' @ quoted ''name'')
      else if sc_backend_group s = [] then Some (''schema '' @ quoted (sc_name s) @ '' is missing '' @ quoted ''backend_group'')
      else if sc_name s \<in> seen then Some (''duplicate schema name '' @ quoted (sc_name s))
      else validate_schemas (insert (sc_name s) seen) ss)"

text \<open>The checks of the source in their order; the first that returns a message ends it.\<close>

fun first_error :: "string option list \<Rightarrow> string option" where
  "first_error [] = None"
| "first_error (Some e # cs) = Some e"
| "first_error (None # cs) = first_error cs"

definition validate :: "Config \<Rightarrow> string option" where
  "validate cfg =
     (let mysql = lsts_mysql (cfg_listeners cfg); postgres = lsts_postgres (cfg_listeners cfg) in
      first_error
        [if node_id (cfg_node cfg) = [] then Some ''node.id is required'' else None,
         if lst_enabled mysql then check_port (lst_port mysql) ''listeners.mysql'' else None,
         if lst_enabled postgres then check_port (lst_port postgres) ''listeners.postgres'' else None,
         check_port (api_port (cfg_api cfg)) ''api'',
         validate_backends {} (cfg_backends cfg),
         validate_schemas {} (cfg_schemas cfg),
         if lst_enabled mysql \<and> cfg_backends cfg = []
         then Some ''listeners.mysql is enabled but no backends are configured'' else None,
         if lst_enabled mysql \<and> cfg_schemas cfg = []
         then Some ''listeners.mysql is enabled but no schemas are configured'' else None])"

section \<open>ConfigLoader and ConfigReloader\<close>

text \<open>\<open>file_exists\<close> is \<open>std::filesystem::exists\<close> (which may throw) and \<open>load_file\<close> is \<open>YAML::LoadFile\<close>.\<close>

definition load_body :: "'n yaml \<Rightarrow> (string \<Rightarrow> (bool, string) result) \<Rightarrow> (string \<Rightarrow> ('n, string) result)
    \<Rightarrow> string \<Rightarrow> ((Config, string) result, config_exn) result" where
  "load_body Y file_exists load_file path =
     (case file_exists path of
        Err w \<Rightarrow> Err (Std_exn w)
      | Ok False \<Rightarrow> Ok (Err (''config file not found: '' @ path))
      | Ok True \<Rightarrow>
          (case load_file path of
             Err w \<Rightarrow> Err (Yaml_exn w)
           | Ok root \<Rightarrow>
               (case parse_config Y root of
                  Err e \<Rightarrow> Err e
                | Ok cfg \<Rightarrow> (case validate cfg of Some e \<Rightarrow> Ok (Err e) | None \<Rightarrow> Ok (Ok cfg)))))"

definition load :: "'n yaml \<Rightarrow> (string \<Rightarrow> (bool, string) result) \<Rightarrow> (string \<Rightarrow> ('n, string) result)
    \<Rightarrow> string \<Rightarrow> (Config, string) result" where
  "load Y file_exists load_file path =
     (case load_body Y file_exists load_file path of
        Ok r \<Rightarrow> r
      | Err (Yaml_exn w) \<Rightarrow> Err (''YAML parse error: '' @ w)
      | Err (Std_exn w) \<Rightarrow> Err (''config error: '' @ w))"

text \<open>\<open>on_reload\<close> is called with the new configuration, on the state that it changes.\<close>

definition reload :: "'n yaml \<Rightarrow> (string \<Rightarrow> (bool, string) result) \<Rightarrow> (string \<Rightarrow> ('n, string) result)
    \<Rightarrow> string \<Rightarrow> (Config \<Rightarrow> 's \<Rightarrow> 's) \<Rightarrow> 's \<Rightarrow> 's" where
  "reload Y file_exists load_file path on_reload s =
     (case load Y file_exists load_file path of Err _ \<Rightarrow> s | Ok cfg \<Rightarrow> on_reload cfg s)"

section \<open>What a step keeps\<close>

definition keeps :: "('r \<Rightarrow> 'a) \<Rightarrow> 'r step \<Rightarrow> bool" where
  "keeps f s \<longleftrightarrow> (\<forall>r r'. s r = Ok r' \<longrightarrow> f r' = f r)"

named_theorems keeps_intros \<open>steps that keep a field\<close>

lemma keeps_run_steps [keeps_intros]: "(\<And>s. s \<in> set ss \<Longrightarrow> keeps f s) \<Longrightarrow> keeps f (run_steps ss)"
proof (induction ss)
  case (Cons s ss)
  have "f r' = f r" if "run_steps (s # ss) r = Ok r'" for r r'
  proof -
    from that obtain x where x: "s r = Ok x" "run_steps ss x = Ok r'" by (cases "s r") simp_all
    have "keeps f s" "keeps f (run_steps ss)" using Cons by simp_all
    with x show ?thesis unfolding keeps_def by metis
  qed
  then show ?case by (simp add: keeps_def)
qed (simp add: keeps_def)

lemma keeps_with_key [keeps_intros]: "(\<And>m. keeps f (body m)) \<Longrightarrow> keeps f (with_key Y n k body)"
  by (auto simp: keeps_def with_key_def split: result.splits if_splits)

lemma keeps_assign_sub [keeps_intros]: "(\<And>g r. f (upd g r) = f r) \<Longrightarrow> keeps f (assign_sub Y parse n k upd)"
  by (auto simp: keeps_def assign_sub_def split: result.splits)

lemma keeps_set_field [keeps_intros]: "(\<And>g r. f (upd g r) = f r) \<Longrightarrow> keeps f (set_field Y conv n k upd)"
  unfolding set_field_def by (rule keeps_with_key) (auto simp: keeps_def split: result.splits)

lemma keeps_push_seq [keeps_intros]: "(\<And>g r. f (upd g r) = f r) \<Longrightarrow> keeps f (push_seq Y item n k upd)"
  unfolding push_seq_def by (rule keeps_with_key) (auto simp: keeps_def split: result.splits if_splits)

lemmas set_defs = set_str_def set_u32_def set_bool_def set_double_def set_port_def set_enum_def

lemma run_steps_append: "run_steps (ss @ ts) r = (case run_steps ss r of Ok r' \<Rightarrow> run_steps ts r' | Err e \<Rightarrow> Err e)"
  by (induction ss arbitrary: r) (auto split: result.splits)

text \<open>A field that one step establishes and the later ones keep.\<close>

lemma run_steps_last:
  assumes "run_steps (ss @ s # ts) r = Ok r'" "\<And>x x'. s x = Ok x' \<Longrightarrow> f x' = v" "keeps f (run_steps ts)"
  shows "f r' = v"
proof -
  obtain x where "run_steps (s # ts) x = Ok r'"
    using assms(1) by (cases "run_steps ss r") (simp_all add: run_steps_append)
  then obtain x' where x': "s x = Ok x'" "run_steps ts x' = Ok r'" by (cases "s x") simp_all
  show ?thesis using assms(2) [OF x'(1)] assms(3) x'(2) by (simp add: keeps_def)
qed


section \<open>Well-formed configurations\<close>

definition config_ok :: "Config \<Rightarrow> bool" where
  "config_ok cfg \<longleftrightarrow>
     node_id (cfg_node cfg) \<noteq> [] \<and>
     (lst_enabled (lsts_mysql (cfg_listeners cfg)) \<longrightarrow>
        lst_port (lsts_mysql (cfg_listeners cfg)) \<noteq> 0 \<and> cfg_backends cfg \<noteq> [] \<and> cfg_schemas cfg \<noteq> []) \<and>
     (lst_enabled (lsts_postgres (cfg_listeners cfg)) \<longrightarrow> lst_port (lsts_postgres (cfg_listeners cfg)) \<noteq> 0) \<and>
     api_port (cfg_api cfg) \<noteq> 0 \<and>
     distinct (map bc_id (cfg_backends cfg)) \<and>
     (\<forall>b \<in> set (cfg_backends cfg). bc_id b \<noteq> [] \<and> bc_host b \<noteq> [] \<and> bc_port b \<noteq> 0 \<and> bc_group b \<noteq> []) \<and>
     distinct (map sc_name (cfg_schemas cfg)) \<and>
     (\<forall>s \<in> set (cfg_schemas cfg). sc_name s \<noteq> [] \<and> sc_backend_group s \<noteq> [])"

lemma first_error_None: "first_error cs = None \<longleftrightarrow> (\<forall>c \<in> set cs. c = None)"
  by (induction cs rule: first_error.induct) auto

lemma validate_backends_None:
  "validate_backends seen bs = None \<longleftrightarrow>
     distinct (map bc_id bs) \<and> bc_id ` set bs \<inter> seen = {} \<and>
     (\<forall>b \<in> set bs. bc_id b \<noteq> [] \<and> bc_host b \<noteq> [] \<and> bc_port b \<noteq> 0 \<and> bc_group b \<noteq> [])"
  by (induction seen bs rule: validate_backends.induct) auto

lemma validate_schemas_None:
  "validate_schemas seen ss = None \<longleftrightarrow>
     distinct (map sc_name ss) \<and> sc_name ` set ss \<inter> seen = {} \<and>
     (\<forall>s \<in> set ss. sc_name s \<noteq> [] \<and> sc_backend_group s \<noteq> [])"
  by (induction seen ss rule: validate_schemas.induct) auto

lemma validate_None: "validate cfg = None \<longleftrightarrow> config_ok cfg"
  by (auto simp: validate_def config_ok_def Let_def first_error_None check_port_def
      validate_backends_None validate_schemas_None)

lemma load_Ok:
  "load Y file_exists load_file path = Ok cfg \<longleftrightarrow>
     (\<exists>root. file_exists path = Ok True \<and> load_file path = Ok root \<and> parse_config Y root = Ok cfg \<and> config_ok cfg)"
  by (auto simp: load_def load_body_def validate_None [symmetric] split: result.splits config_exn.splits bool.splits option.splits)

definition admin_enabled :: "Config \<Rightarrow> bool" where
  "admin_enabled cfg = lst_enabled (lsts_admin (cfg_listeners cfg))"

lemma admin_on_last: "run_steps (ss @ [admin_on]) c = Ok c' \<Longrightarrow> admin_enabled c'"
  by (cases "run_steps ss c") (auto simp: run_steps_append admin_on_def admin_enabled_def)

lemma parse_listeners_admin:
  assumes "parse_listeners Y root c = Ok c'"
  shows "admin_enabled c'"
proof -
  have l: "[a, b, d, e] = [a, b, d] @ [e]" for a b d e :: "Config step" by simp
  obtain m where "y_index Y root ''listeners'' = Ok m"
    using assms by (cases "y_index Y root ''listeners''") (simp_all add: parse_listeners_def)
  with assms show ?thesis
    unfolding parse_listeners_def l
    by (cases "y_defined Y m") (simp_all only: result.case if_True if_False admin_on_last)
qed


lemma parse_config_admin:
  assumes "parse_config Y root = Ok cfg"
  shows "admin_enabled cfg"
proof -
  have f: "admin_enabled (cfg_node_update g c) = admin_enabled c" "admin_enabled (cfg_tls_update g1 c) = admin_enabled c"
    "admin_enabled (cfg_backends_update g2 c) = admin_enabled c" "admin_enabled (cfg_schemas_update g3 c) = admin_enabled c"
    "admin_enabled (cfg_routing_update g4 c) = admin_enabled c" "admin_enabled (cfg_session_update g5 c) = admin_enabled c"
    "admin_enabled (cfg_failover_update g6 c) = admin_enabled c" "admin_enabled (cfg_cluster_update g7 c) = admin_enabled c"
    "admin_enabled (cfg_auth_update g8 c) = admin_enabled c" "admin_enabled (cfg_rbac_update g9 c) = admin_enabled c"
    "admin_enabled (cfg_firewall_update g10 c) = admin_enabled c" "admin_enabled (cfg_rate_limit_update g11 c) = admin_enabled c"
    "admin_enabled (cfg_api_update g12 c) = admin_enabled c" "admin_enabled (cfg_metrics_update g13 c) = admin_enabled c"
    "admin_enabled (cfg_logging_update g14 c) = admin_enabled c"
    for g g1 g2 g3 g4 g5 g6 g7 g8 g9 g10 g11 g12 g13 g14 c
    by (simp_all add: admin_enabled_def)
  show ?thesis
    by (rule run_steps_last [where ss = "[parse_node Y root]" and s = "parse_listeners Y root" and v = True and f = admin_enabled,
          unfolded append.simps simp_thms, OF assms [unfolded parse_config_def]])
       (auto intro!: keeps_intros simp: f set_defs parse_tls_def parse_auth_def parse_rbac_def parse_rate_limit_def
         parse_api_def parse_metrics_def parse_listeners_admin)
qed

lemma set_port_truncates:
  assumes "set_port Y n k upd r = Ok r'" "y_index Y n k = Ok m" "y_defined Y m" "y_u32 Y m = Ok v"
  shows "r' = upd (\<lambda>_. ucast v) r"
  using assms by (simp add: set_port_def set_field_def with_key_def)


lemma parse_backend_port:
  assumes "parse_backend Y n = Ok b" "y_index Y n ''port'' = Ok m" "y_defined Y m" "y_u32 Y m = Ok v"
  shows "bc_port b = ucast v"
proof (rule run_steps_last [where ss = "[set_str Y n ''id'' bc_id_update, set_enum Y parse_backend_type n ''type'' bc_type_update,
          set_str Y n ''host'' bc_host_update]" and s = "set_port Y n ''port'' bc_port_update" and f = bc_port,
        unfolded append.simps, OF assms(1) [unfolded parse_backend_def]])
  show "bc_port x' = ucast v" if "set_port Y n ''port'' bc_port_update x = Ok x'" for x x'
    using set_port_truncates [OF that assms(2-4)] by simp
  have "keeps bc_port (with_key Y n ''tags'' (\<lambda>t b. if y_map Y t
      then (case set_tags Y (y_pairs Y t) (bc_tags b) of Err e \<Rightarrow> Err e | Ok ts \<Rightarrow> Ok (b\<lparr>bc_tags := ts\<rparr>)) else Ok b))"
    by (rule keeps_with_key) (auto simp: keeps_def split: result.splits if_splits)
  then show "keeps bc_port (run_steps
       [set_enum Y parse_backend_role n ''role'' bc_role_update, set_str Y n ''group'' bc_group_update,
        set_str Y n ''user'' bc_user_update, set_str Y n ''password'' bc_password_update,
        set_str Y n ''secrets_file'' bc_secrets_file_update, set_u32 Y n ''weight'' bc_weight_update,
        set_u32 Y n ''max_replication_lag_ms'' bc_max_replication_lag_ms_update,
        set_field Y (parse_pool Y) n ''pool'' bc_pool_update,
        with_key Y n ''tags'' (\<lambda>t b. if y_map Y t
          then (case set_tags Y (y_pairs Y t) (bc_tags b) of Err e \<Rightarrow> Err e | Ok ts \<Rightarrow> Ok (b\<lparr>bc_tags := ts\<rparr>)) else Ok b)])"
    by (auto intro!: keeps_run_steps keeps_set_field simp: set_defs)
qed

section \<open>Properties\<close>

text \<open>C22. Only well-formed configurations leave the loader: a configuration that \<open>load\<close> returns has a node
  id, backends and schemas with unique non-empty names, hosts, groups and non-zero ports, non-zero ports
  for the enabled listeners, backends and schemas for an enabled MySQL listener, and the admin
  listener enabled, whatever the file contains; and every parsed file with such a configuration is
  accepted.\<close>

theorem load_well_formed:
  "(load Y file_exists load_file path = Ok cfg \<longleftrightarrow>
     (\<exists>root. file_exists path = Ok True \<and> load_file path = Ok root \<and> parse_config Y root = Ok cfg \<and> config_ok cfg)) \<and>
   (load Y file_exists load_file path = Ok cfg \<longrightarrow> admin_enabled cfg)"
  using load_Ok parse_config_admin by metis

text \<open>A backend port that does not fit in 16 bits is accepted and truncated: whatever the rest of the
  entry, the parsed port is the value modulo \<open>2 ^ 16\<close>.\<close>

lemma backend_port_truncated:
  assumes "parse_backend Y n = Ok b" and "y_index Y n ''port'' = Ok m" and "y_defined Y m" and "y_u32 Y m = Ok v"
  shows "unat (bc_port b) = unat v mod 2 ^ 16"
  using parse_backend_port [OF assms] by (simp add: unsigned_ucast_eq take_bit_eq_mod)

section \<open>Witnesses\<close>

text \<open>YAML documents as trees, with decimal numbers.\<close>

datatype ynode = YUndef | YScalar string | YSeq "ynode list" | YMap "(string \<times> ynode) list"

fun digits :: "u32 \<Rightarrow> string \<Rightarrow> u32 option" where
  "digits n [] = Some n"
| "digits n (c # cs) = (if isdigit c then digits (10 * n + (word_of_nat (of_char c) - 48)) cs else None)"

fun tree_index :: "ynode \<Rightarrow> string \<Rightarrow> (ynode, string) result" where
  "tree_index (YScalar s) k = Err ''operator[] call on a scalar''"
| "tree_index (YMap kvs) k = Ok (case map_of kvs k of Some n \<Rightarrow> n | None \<Rightarrow> YUndef)"
| "tree_index n k = Ok YUndef"

definition tree_yaml :: "ynode yaml" where
  "tree_yaml = \<lparr>
     y_defined = (\<lambda>n. n \<noteq> YUndef),
     y_index = tree_index,
     y_seq = (\<lambda>n. case n of YSeq _ \<Rightarrow> True | _ \<Rightarrow> False),
     y_map = (\<lambda>n. case n of YMap _ \<Rightarrow> True | _ \<Rightarrow> False),
     y_items = (\<lambda>n. case n of YSeq ns \<Rightarrow> ns | _ \<Rightarrow> []),
     y_pairs = (\<lambda>n. case n of YMap kvs \<Rightarrow> map (\<lambda>(k, v). (YScalar k, v)) kvs | _ \<Rightarrow> []),
     y_string = (\<lambda>n. case n of YScalar s \<Rightarrow> Ok s | _ \<Rightarrow> Err ''bad conversion''),
     y_u32 = (\<lambda>n. case n of YScalar s \<Rightarrow> (case digits 0 s of Some v \<Rightarrow> Ok v | None \<Rightarrow> Err ''bad conversion'')
                | _ \<Rightarrow> Err ''bad conversion''),
     y_bool = (\<lambda>n. if n = YScalar ''true'' then Ok True else if n = YScalar ''false'' then Ok False else Err ''bad conversion''),
     y_double = (\<lambda>n. Err ''bad conversion'')\<rparr>"

definition sample_entry :: ynode where
  "sample_entry = YMap [(''id'', YScalar ''b1''), (''host'', YScalar ''db''), (''port'', YScalar ''68842''),
     (''role'', YScalar ''primary''), (''group'', YScalar ''g'')]"

theorem load_well_formed_witness:
  "\<exists>cfg. load tree_yaml (\<lambda>_. Ok True) (\<lambda>_. Ok (YMap [(''node'', YMap [(''id'', YScalar ''n1'')]), (''backends'', YSeq [sample_entry])])) ''f'' = Ok cfg \<and>
     config_ok cfg \<and> admin_enabled cfg"
proof -
  let ?l = "load tree_yaml (\<lambda>_. Ok True) (\<lambda>_. Ok (YMap [(''node'', YMap [(''id'', YScalar ''n1'')]), (''backends'', YSeq [sample_entry])])) ''f''"
  have "is_ok ?l" by code_simp
  then obtain cfg where "?l = Ok cfg" by (cases ?l) auto
  with load_well_formed [of tree_yaml "\<lambda>_. Ok True"
      "\<lambda>_. Ok (YMap [(''node'', YMap [(''id'', YScalar ''n1'')]), (''backends'', YSeq [sample_entry])])" "''f''" cfg]
  show ?thesis by blast
qed

end
