(* ===== verification/Logger.thy ===== *)
theory Logger
  imports ConfigTypes
begin

text \<open>
  \<open>core/src/logger.cpp\<close>: levels, the two line formats, the rotating file and the dispatcher with its
  writer thread. Time is in nanoseconds since the epoch; the file system is a map from paths to
  contents. Producers, the writer and \<open>stop\<close> interleave: a step is what one of them does under the
  lock, or one line written.
\<close>

section \<open>Levels\<close>

datatype LogLevel = TRACE | DEBUG | INFO | WARN | ERROR | FATAL

fun level_num :: "LogLevel \<Rightarrow> u8" where
  "level_num TRACE = 0"
| "level_num DEBUG = 1"
| "level_num INFO = 2"
| "level_num WARN = 3"
| "level_num ERROR = 4"
| "level_num FATAL = 5"

text \<open>Enumerators compare as their values.\<close>

instantiation LogLevel :: linorder
begin

definition less_eq_LogLevel :: "LogLevel \<Rightarrow> LogLevel \<Rightarrow> bool" where
  "less_eq_LogLevel a b \<longleftrightarrow> level_num a \<le> level_num b"

definition less_LogLevel :: "LogLevel \<Rightarrow> LogLevel \<Rightarrow> bool" where
  "less_LogLevel a b \<longleftrightarrow> level_num a < level_num b"

instance
proof
  have "level_num a = level_num b \<Longrightarrow> a = b" for a b by (cases a; cases b) simp_all
  then show "a \<le> b \<Longrightarrow> b \<le> a \<Longrightarrow> a = b" for a b :: LogLevel by (simp add: less_eq_LogLevel_def)
qed (auto simp: less_eq_LogLevel_def less_LogLevel_def)

end

fun log_level_str :: "LogLevel \<Rightarrow> string" where
  "log_level_str TRACE = ''TRACE''"
| "log_level_str DEBUG = ''DEBUG''"
| "log_level_str INFO = ''INFO ''"
| "log_level_str WARN = ''WARN ''"
| "log_level_str ERROR = ''ERROR''"
| "log_level_str FATAL = ''FATAL''"

text \<open>The error is the text of the exception.\<close>

definition parse_log_level :: "string \<Rightarrow> (LogLevel, string) result" where
  "parse_log_level s =
     (if s = ''TRACE'' then Ok TRACE
      else if s = ''DEBUG'' then Ok DEBUG
      else if s = ''INFO'' then Ok INFO
      else if s = ''WARN'' then Ok WARN
      else if s = ''ERROR'' then Ok ERROR
      else if s = ''FATAL'' then Ok FATAL
      else Err (''unknown log level: '' @ s))"

record LogEntry =
  le_level :: LogLevel
  le_component :: string
  le_message :: string
  le_timestamp :: nat

section \<open>Lines\<close>

text \<open>\<open>gmtime_r\<close>: the proleptic Gregorian calendar without leap seconds.\<close>

record tm =
  tm_year :: nat
  tm_mon :: nat
  tm_mday :: nat
  tm_hour :: nat
  tm_min :: nat
  tm_sec :: nat

definition gmtime :: "nat \<Rightarrow> tm" where
  "gmtime t =
     (let z = t div 86400 + 719468; s = t mod 86400;
          era = z div 146097; doe = z mod 146097;
          yoe = (doe - doe div 1460 + doe div 36524 - doe div 146096) div 365;
          doy = doe - (365 * yoe + yoe div 4 - yoe div 100);
          mp = (5 * doy + 2) div 153;
          m = (if mp < 10 then mp + 3 else mp - 9);
          y = yoe + 400 * era + (if m \<le> 2 then 1 else 0)
      in \<lparr>tm_year = y - 1900, tm_mon = m - 1, tm_mday = doy - (153 * mp + 2) div 5 + 1,
          tm_hour = s div 3600, tm_min = s mod 3600 div 60, tm_sec = s mod 60\<rparr>)"

text \<open>\<open>%0wd\<close>, and \<open>snprintf\<close> into a buffer of \<open>n\<close> bytes.\<close>

definition zpad :: "nat \<Rightarrow> nat \<Rightarrow> string" where
  "zpad w n = replicate (w - length (to_digits n)) (CHR ''0'') @ to_digits n"

definition snprintf :: "nat \<Rightarrow> string \<Rightarrow> string" where
  "snprintf n s = take (n - 1) s"

definition c_str :: "string \<Rightarrow> string" where
  "c_str s = takeWhile (\<lambda>c. c \<noteq> CHR 0x00) s"

definition format_ts :: "nat \<Rightarrow> string" where
  "format_ts tp =
     (let tt = tp div 10 ^ 9; ms = tp div 10 ^ 6 mod 1000; t = gmtime tt in
      snprintf 32
        (zpad 4 (tm_year t + 1900) @ ''-'' @ zpad 2 (tm_mon t + 1) @ ''-'' @ zpad 2 (tm_mday t) @ ''T'' @
         zpad 2 (tm_hour t) @ '':'' @ zpad 2 (tm_min t) @ '':'' @ zpad 2 (tm_sec t) @ ''.'' @ zpad 3 ms @ ''Z''))"

definition dq :: string where
  "dq = [CHR 0x22]"

definition format_json :: "LogEntry \<Rightarrow> string" where
  "format_json e =
     snprintf 2048
       (''{'' @ dq @ ''ts'' @ dq @ '':'' @ dq @ format_ts (le_timestamp e) @ dq @ '','' @
        dq @ ''level'' @ dq @ '':'' @ dq @ log_level_str (le_level e) @ dq @ '','' @
        dq @ ''component'' @ dq @ '':'' @ dq @ c_str (le_component e) @ dq @ '','' @
        dq @ ''msg'' @ dq @ '':'' @ dq @ c_str (le_message e) @ dq @ ''}'')"

definition format_text :: "LogEntry \<Rightarrow> string" where
  "format_text e =
     (let comp = c_str (le_component e) in
      snprintf 2048
        (format_ts (le_timestamp e) @ '' ['' @ log_level_str (le_level e) @ ''] ['' @
         comp @ replicate (10 - length comp) (CHR '' '') @ ''] '' @ c_str (le_message e)))"

section \<open>RotatingFileSink\<close>

type_synonym fs = "string \<Rightarrow> string option"

record RotatingFileSink =
  rs_path :: string
  rs_max_bytes :: u64
  rs_max_backups :: u32

text \<open>Opening for appending creates the file; \<open>can_open\<close> tells whether that succeeds.\<close>

definition open_app :: "string \<Rightarrow> fs \<Rightarrow> fs" where
  "open_app path f = (if f path = None then f(path \<mapsto> []) else f)"

definition rs_new :: "bool \<Rightarrow> string \<Rightarrow> u32 \<Rightarrow> u32 \<Rightarrow> fs \<Rightarrow> (RotatingFileSink \<times> fs, string) result" where
  "rs_new can_open path max_mb max_backups f =
     (if can_open
      then Ok (\<lparr>rs_path = path, rs_max_bytes = ucast max_mb * 1024 * 1024, rs_max_backups = max_backups\<rparr>, open_app path f)
      else Err (''cannot open log file: '' @ path))"

definition backup :: "string \<Rightarrow> nat \<Rightarrow> string" where
  "backup path i = path @ ''.'' @ to_digits i"

definition rename :: "string \<Rightarrow> string \<Rightarrow> fs \<Rightarrow> fs" where
  "rename src dst f = (f(src := None))(dst := f src)"

text \<open>The loop of \<open>rotate\<close> with \<open>i\<close> counting down to 1.\<close>

fun shift_backups :: "string \<Rightarrow> nat \<Rightarrow> fs \<Rightarrow> fs" where
  "shift_backups path 0 f = f"
| "shift_backups path (Suc i) f =
     shift_backups path i (if f (backup path (Suc i)) \<noteq> None then rename (backup path (Suc i)) (backup path (Suc i + 1)) f else f)"

definition rotate :: "RotatingFileSink \<Rightarrow> fs \<Rightarrow> fs" where
  "rotate s f =
     (let f = f(backup (rs_path s) (unat (rs_max_backups s)) := None);
          f = shift_backups (rs_path s) (nat (sint (rs_max_backups s) - 1)) f;
          f = (if f (rs_path s) \<noteq> None then rename (rs_path s) (backup (rs_path s) 1) f else f)
      in open_app (rs_path s) f)"

text \<open>\<open>tellp\<close> of a stream opened for appending is the size of the file.\<close>

definition tellp :: "RotatingFileSink \<Rightarrow> fs \<Rightarrow> nat" where
  "tellp s f = (case f (rs_path s) of None \<Rightarrow> 0 | Some c \<Rightarrow> length c)"

definition rs_write :: "RotatingFileSink \<Rightarrow> string \<Rightarrow> fs \<Rightarrow> fs" where
  "rs_write s line f =
     (let f = (if tellp s f > 0 \<and> tellp s f \<ge> unat (rs_max_bytes s) then rotate s f else f)
      in f(rs_path s \<mapsto> (case f (rs_path s) of None \<Rightarrow> [] | Some c \<Rightarrow> c) @ line @ [CHR 0x0A]))"

section \<open>Dispatcher\<close>

text \<open>A logger is the name of its component; the registry shares one logger, at its address, for a name.\<close>

record Logger =
  lo_component :: string

definition logger_new :: "string \<Rightarrow> Logger" where
  "logger_new component = \<lparr>lo_component = component\<rparr>"

text \<open>Where the writer thread is: before \<open>cv.wait\<close>, writing a batch, or returned.\<close>

datatype writer = Waiting | Writing "LogEntry list" | Returned

record Dispatcher =
  d_queue :: "LogEntry list"
  d_shutdown_flag :: bool
  d_writer :: writer
  d_min_level :: LogLevel
  d_json_format :: bool
  d_to_stdout :: bool
  d_file_sink :: "RotatingFileSink option"
  d_registry :: "string \<Rightarrow> (nat \<times> Logger) option"
  d_fs :: fs
  d_stdout :: "string list"
  d_stderr :: "string list"

definition push :: "LogEntry \<Rightarrow> Dispatcher \<Rightarrow> Dispatcher" where
  "push e d = (if level_num (le_level e) < level_num (d_min_level d) then d else d\<lparr>d_queue := d_queue d @ [e]\<rparr>)"

definition write_entry :: "LogEntry \<Rightarrow> Dispatcher \<Rightarrow> Dispatcher" where
  "write_entry e d =
     (let line = (if d_json_format d then format_json e else format_text e);
          d = (if d_to_stdout d
               then if le_level e \<ge> WARN
                    then d\<lparr>d_stderr := d_stderr d @ [line]\<rparr> else d\<lparr>d_stdout := d_stdout d @ [line]\<rparr>
               else d)
      in case d_file_sink d of None \<Rightarrow> d | Some s \<Rightarrow> d\<lparr>d_fs := rs_write s line (d_fs d)\<rparr>)"

text \<open>
  \<open>run\<close>, from one use of the lock to the next: \<open>wr_take\<close> is the wait with its predicate and the swap,
  \<open>wr_next\<close> writes one entry of the batch or, at its end, decides whether to return.
\<close>

definition wr_take :: "Dispatcher \<Rightarrow> Dispatcher option" where
  "wr_take d =
     (if d_writer d = Waiting \<and> (d_queue d \<noteq> [] \<or> d_shutdown_flag d)
      then Some (d\<lparr>d_writer := Writing (d_queue d), d_queue := []\<rparr>) else None)"

definition wr_next :: "Dispatcher \<Rightarrow> Dispatcher option" where
  "wr_next d =
     (case d_writer d of
        Writing (e # es) \<Rightarrow> Some ((write_entry e d)\<lparr>d_writer := Writing es\<rparr>)
      | Writing [] \<Rightarrow> Some (d\<lparr>d_writer := (if d_shutdown_flag d \<and> d_queue d = [] then Returned else Waiting)\<rparr>)
      | _ \<Rightarrow> None)"

text \<open>\<open>stop\<close> up to the join.\<close>

definition d_stop :: "Dispatcher \<Rightarrow> Dispatcher" where
  "d_stop d = d\<lparr>d_shutdown_flag := True\<rparr>"

text \<open>
  The one instance, with its initial values, and \<open>start\<close> on it, which is called only while no writer
  thread runs. It does not touch the shutdown flag.
\<close>

definition d_instance :: "fs \<Rightarrow> Dispatcher" where
  "d_instance f = \<lparr>d_queue = [], d_shutdown_flag = False, d_writer = Returned, d_min_level = INFO,
     d_json_format = True, d_to_stdout = True, d_file_sink = None, d_registry = (\<lambda>_. None), d_fs = f,
     d_stdout = [], d_stderr = []\<rparr>"

definition d_start_on :: "bool \<Rightarrow> LoggingConfig \<Rightarrow> Dispatcher \<Rightarrow> (Dispatcher, string) result" where
  "d_start_on can_open cfg d =
     (case parse_log_level (lg_level cfg) of
        Err e \<Rightarrow> Err e
      | Ok lvl \<Rightarrow>
          (let d = d\<lparr>d_min_level := lvl, d_json_format := (lg_format cfg = ''json''),
                 d_to_stdout := (lg_output cfg = ''stdout'' \<or> lg_output cfg = ''both'')\<rparr>
           in if lg_output cfg = ''file'' \<or> lg_output cfg = ''both''
              then (case rs_new can_open (lf_path (lg_file cfg)) (lf_max_size_mb (lg_file cfg)) (lf_max_backups (lg_file cfg)) (d_fs d) of
                      Err e \<Rightarrow> Err e
                    | Ok (s, f') \<Rightarrow> Ok (d\<lparr>d_file_sink := Some s, d_fs := f', d_writer := Waiting\<rparr>))
              else Ok (d\<lparr>d_writer := Waiting\<rparr>)))"

text \<open>The start of a process.\<close>

definition d_start :: "bool \<Rightarrow> LoggingConfig \<Rightarrow> fs \<Rightarrow> (Dispatcher, string) result" where
  "d_start can_open cfg f = d_start_on can_open cfg (d_instance f)"

section \<open>Logger\<close>

definition log_msg :: "string \<Rightarrow> LogLevel \<Rightarrow> string \<Rightarrow> nat \<Rightarrow> Dispatcher \<Rightarrow> Dispatcher" where
  "log_msg component level msg now =
     push \<lparr>le_level = level, le_component = component, le_message = msg, le_timestamp = now\<rparr>"

text \<open>\<open>Logger::get\<close>: \<open>fresh\<close> is the address of a logger that would be made.\<close>

definition logger_get :: "string \<Rightarrow> nat \<Rightarrow> Dispatcher \<Rightarrow> (nat \<times> Logger) \<times> Dispatcher" where
  "logger_get component fresh d =
     (case d_registry d component of
        Some l \<Rightarrow> (l, d)
      | None \<Rightarrow> (let l = (fresh, logger_new component) in (l, d\<lparr>d_registry := (d_registry d)(component \<mapsto> l)\<rparr>)))"

text \<open>\<open>init\<close> and \<open>shutdown\<close> start and stop the dispatcher; the level methods call \<open>log\<close>.\<close>

definition logger_init :: "bool \<Rightarrow> LoggingConfig \<Rightarrow> Dispatcher \<Rightarrow> (Dispatcher, string) result" where
  "logger_init can_open config d = d_start_on can_open config d"

definition logger_shutdown :: "Dispatcher \<Rightarrow> Dispatcher" where
  "logger_shutdown d = d_stop d"

definition lo_trace :: "Logger \<Rightarrow> string \<Rightarrow> nat \<Rightarrow> Dispatcher \<Rightarrow> Dispatcher" where
  "lo_trace l msg = log_msg (lo_component l) TRACE msg"

definition lo_debug :: "Logger \<Rightarrow> string \<Rightarrow> nat \<Rightarrow> Dispatcher \<Rightarrow> Dispatcher" where
  "lo_debug l msg = log_msg (lo_component l) DEBUG msg"

definition lo_info :: "Logger \<Rightarrow> string \<Rightarrow> nat \<Rightarrow> Dispatcher \<Rightarrow> Dispatcher" where
  "lo_info l msg = log_msg (lo_component l) INFO msg"

definition lo_warn :: "Logger \<Rightarrow> string \<Rightarrow> nat \<Rightarrow> Dispatcher \<Rightarrow> Dispatcher" where
  "lo_warn l msg = log_msg (lo_component l) WARN msg"

definition lo_error :: "Logger \<Rightarrow> string \<Rightarrow> nat \<Rightarrow> Dispatcher \<Rightarrow> Dispatcher" where
  "lo_error l msg = log_msg (lo_component l) ERROR msg"

definition lo_fatal :: "Logger \<Rightarrow> string \<Rightarrow> nat \<Rightarrow> Dispatcher \<Rightarrow> Dispatcher" where
  "lo_fatal l msg = log_msg (lo_component l) FATAL msg"

lemmas lo_defs = lo_trace_def lo_debug_def lo_info_def lo_warn_def lo_error_def lo_fatal_def log_msg_def push_def


section \<open>Producers, the writer and stop together\<close>

text \<open>The second component is the history of the entries that producers pushed.\<close>

inductive log_step :: "Dispatcher \<times> LogEntry list \<Rightarrow> Dispatcher \<times> LogEntry list \<Rightarrow> bool" where
  lg_push: "log_step (d, h) (push e d, h @ [e])"
| lg_take: "wr_take d = Some d' \<Longrightarrow> log_step (d, h) (d', h)"
| lg_next: "wr_next d = Some d' \<Longrightarrow> log_step (d, h) (d', h)"
| lg_stop: "log_step (d, h) (d_stop d, h)"
| lg_get: "log_step (d, h) (snd (logger_get c a d), h)"

inductive_cases log_stepE: "log_step s t"

definition line :: "Dispatcher \<Rightarrow> LogEntry \<Rightarrow> string" where
  "line d e = (if d_json_format d then format_json e else format_text e)"

definition severe :: "LogEntry \<Rightarrow> bool" where
  "severe e \<longleftrightarrow> le_level e \<ge> WARN"

definition passes :: "Dispatcher \<Rightarrow> LogEntry \<Rightarrow> bool" where
  "passes d e \<longleftrightarrow> d_min_level d \<le> le_level e"

fun batch :: "writer \<Rightarrow> LogEntry list" where
  "batch (Writing es) = es"
| "batch _ = []"

text \<open>What the standard streams hold after \<open>w\<close> was written.\<close>

definition emitted :: "Dispatcher \<Rightarrow> LogEntry list \<Rightarrow> bool" where
  "emitted d w \<longleftrightarrow>
     d_stdout d = (if d_to_stdout d then map (line d) (filter (\<lambda>e. \<not> severe e) w) else []) \<and>
     d_stderr d = (if d_to_stdout d then map (line d) (filter severe w) else [])"

definition log_inv :: "Dispatcher \<times> LogEntry list \<Rightarrow> bool" where
  "log_inv s = (case s of (d, h) \<Rightarrow>
     (\<exists>w. filter (passes d) h = w @ batch (d_writer d) @ d_queue d \<and> emitted d w))"

lemma log_inv_cong:
  assumes "d_min_level d' = d_min_level d" "d_json_format d' = d_json_format d" "d_to_stdout d' = d_to_stdout d"
    "d_stdout d' = d_stdout d" "d_stderr d' = d_stderr d"
    "batch (d_writer d') @ d_queue d' = batch (d_writer d) @ d_queue d"
  shows "log_inv (d', h) = log_inv (d, h)"
proof -
  have "passes d' = passes d" "line d' = line d" using assms by (auto simp: passes_def line_def fun_eq_iff)
  then show ?thesis using assms by (simp add: log_inv_def emitted_def)
qed

lemma write_entry_emits:
  "emitted d w \<Longrightarrow> emitted (write_entry e d) (w @ [e])"
  "d_min_level (write_entry e d) = d_min_level d" "d_queue (write_entry e d) = d_queue d"
proof -
  have l: "line (write_entry e d) = line d"
    by (auto simp: line_def write_entry_def Let_def fun_eq_iff split: option.splits)
  show "emitted d w \<Longrightarrow> emitted (write_entry e d) (w @ [e])"
    unfolding emitted_def l by (auto simp: write_entry_def Let_def severe_def line_def split: option.splits)
qed (auto simp: write_entry_def Let_def split: option.splits)

lemma log_step_inv: "log_inv s \<Longrightarrow> log_step s t \<Longrightarrow> log_inv t"
proof (erule log_stepE, goal_cases)
  case (1 d h e)
  then obtain w where w: "filter (passes d) h = w @ batch (d_writer d) @ d_queue d" "emitted d w" by (auto simp: log_inv_def)
  have "passes (push e d) = passes d" "emitted (push e d) w = emitted d w" "batch (d_writer (push e d)) = batch (d_writer d)"
    by (auto simp: push_def passes_def emitted_def line_def fun_eq_iff)
  moreover have "d_queue (push e d) = d_queue d @ (if passes d e then [e] else [])" by (auto simp: push_def passes_def less_eq_LogLevel_def)
  ultimately show ?case using 1 w by (auto simp: log_inv_def)
next
  case (2 d d' h)
  then have "log_inv (d', h) = log_inv (d, h)" by (intro log_inv_cong) (auto simp: wr_take_def split: if_splits)
  with 2 show ?case by simp
next
  case (3 d d' h)
  then obtain es where es: "d_writer d = Writing es" by (cases "d_writer d") (auto simp: wr_next_def)
  show ?case
  proof (cases es)
    case Nil
    then have "log_inv (d', h) = log_inv (d, h)" using 3 es by (intro log_inv_cong) (auto simp: wr_next_def)
    with 3 show ?thesis by simp
  next
    case (Cons e es')
    with 3 es have d': "d' = (write_entry e d)\<lparr>d_writer := Writing es'\<rparr>" by (simp add: wr_next_def)
    from 3 obtain w where w: "filter (passes d) h = w @ es @ d_queue d" "emitted d w" by (auto simp: log_inv_def es)
    have "emitted d' (w @ [e])" using write_entry_emits(1) [OF w(2), of e] by (simp add: d' emitted_def line_def)
    moreover have "passes d' = passes d" using write_entry_emits(2) [of e d] by (simp add: d' passes_def fun_eq_iff)
    ultimately show ?thesis
      using 3 w(1) Cons write_entry_emits(3) [of e d] by (auto simp: log_inv_def d' intro!: exI [of _ "w @ [e]"])
  qed
next
  case (4 d h)
  have "log_inv (d_stop d, h) = log_inv (d, h)" by (rule log_inv_cong) (simp_all add: d_stop_def)
  with 4 show ?case by simp
next
  case (5 d h c a)
  have "log_inv (snd (logger_get c a d), h) = log_inv (d, h)"
    by (rule log_inv_cong) (auto simp: logger_get_def Let_def split: option.splits)
  with 5 show ?case by simp
qed

lemma d_start_inv: "d_start can_open cfg f = Ok d \<Longrightarrow> log_inv (d, []) \<and> d_writer d \<noteq> Returned"
  by (auto simp: d_start_def d_start_on_def d_instance_def Let_def log_inv_def emitted_def split: result.splits if_splits)


interpretation log_sys: inductive_invariant "\<lambda>s. \<exists>can_open cfg f d. s = (d, []) \<and> d_start can_open cfg f = Ok d" log_step log_inv
  by unfold_locales (use d_start_inv log_step_inv in auto)

section \<open>Starting again\<close>

text \<open>
  \<open>start\<close> leaves the shutdown flag set: after a shutdown and a second start the new writer may return at
  once, and from then on entries are accepted and never written.
\<close>

lemma restart_returns:
  assumes "d_shutdown_flag d" "d_queue d = []" "d_start_on can_open cfg d = Ok d1"
  shows "\<exists>d2 d3. wr_take d1 = Some d2 \<and> wr_next d2 = Some d3 \<and> d_writer d3 = Returned"
proof -
  have "d_writer d1 = Waiting" "d_queue d1 = []" "d_shutdown_flag d1"
    using assms by (auto simp: d_start_on_def Let_def split: result.splits if_splits)
  then show ?thesis by (simp add: wr_take_def wr_next_def)
qed

lemma returned_writes_nothing:
  assumes "log_step\<^sup>*\<^sup>* s t" "d_writer (fst s) = Returned"
  shows "d_writer (fst t) = Returned \<and> d_stdout (fst t) = d_stdout (fst s) \<and> d_stderr (fst t) = d_stderr (fst s) \<and>
    d_fs (fst t) = d_fs (fst s)"
  using assms
proof (induction rule: rtranclp_induct)
  case (step t u)
  then show ?case
    by (auto elim!: log_stepE simp: push_def wr_take_def wr_next_def d_stop_def logger_get_def Let_def split: option.splits)
qed simp

section \<open>Backups\<close>

fun undigits :: "string \<Rightarrow> nat" where
  "undigits s = foldl (\<lambda>n c. 10 * n + (of_char c - 48)) 0 s"

lemma undigits_to_digits: "undigits (to_digits n) = n"
proof (induction n rule: to_digits.induct)
  case (1 n)
  then show ?case by (cases "n < 10") (simp_all add: to_digits.simps [of n])
qed

lemma to_digits_eq [simp]: "to_digits m = to_digits n \<longleftrightarrow> m = n"
  by (metis undigits_to_digits)

lemma to_digits_nonempty [simp]: "to_digits n \<noteq> []"
  by (subst to_digits.simps) simp

lemma backup_eq [simp]: "backup p i = backup p j \<longleftrightarrow> i = j" "backup p i \<noteq> p" "p \<noteq> backup p i"
  by (auto simp: backup_def)

lemma shift_backups_other:
  "\<forall>i. x \<noteq> backup path i \<Longrightarrow> shift_backups path n f x = f x"
  by (induction n arbitrary: f) (auto simp: rename_def)

lemma shift_backups_shifts:
  "f (backup path (n + 1)) = None \<Longrightarrow>
   shift_backups path n f (backup path i) =
     (if i = 1 \<and> n \<noteq> 0 then None else if 2 \<le> i \<and> i \<le> n + 1 then f (backup path (i - 1)) else f (backup path i))"
proof (induction n arbitrary: f)
  case 0
  then show ?case by auto
next
  case (Suc n)
  let ?g = "if f (backup path (Suc n)) \<noteq> None then rename (backup path (Suc n)) (backup path (Suc n + 1)) f else f"
  have g: "?g (backup path j) = (if j = Suc n then None else if j = n + 2 then f (backup path (Suc n)) else f (backup path j))" for j
    using Suc.prems by (auto simp: rename_def)
  have "?g (backup path (n + 1)) = None" using g [of "Suc n"] by simp
  from Suc.IH [of ?g, OF this] g show ?case by auto
qed

lemma sint_small: "unat w < 2 ^ 31 \<Longrightarrow> sint w = int (unat w)" for w :: u32
proof -
  assume "unat w < 2 ^ 31"
  then have "int (unat w) < int (2 ^ 31)" by (simp only: of_nat_less_iff)
  then have u: "uint w < 2 ^ 31" by simp
  have "- (2 ^ 31) \<le> uint w" by (rule order_trans [of _ 0]) simp_all
  from signed_take_bit_int_eq_self [OF this u] show ?thesis by (simp add: sint_uint)
qed

lemma rotate_shift:
  assumes "0 < rs_max_backups s" "unat (rs_max_backups s) < 2 ^ 31"
  shows "rotate s f (rs_path s) = Some []"
    "rotate s f (backup (rs_path s) i) =
      (if i = 1 then f (rs_path s)
       else if 2 \<le> i \<and> i \<le> unat (rs_max_backups s) then f (backup (rs_path s) (i - 1)) else f (backup (rs_path s) i))"
proof -
  let ?n = "unat (rs_max_backups s)" and ?p = "rs_path s"
  have n: "?n > 0" using assms(1) by (simp add: word_gt_0 unat_gt_0)
  have k: "nat (sint (rs_max_backups s) - 1) = ?n - 1"
    unfolding sint_small [OF assms(2)] by (metis nat_int nat_minus_as_int of_nat_1)
  define f1 where "f1 = f(backup ?p ?n := None)"
  define f2 where "f2 = shift_backups ?p (?n - 1) f1"
  have p2: "f2 ?p = f ?p" unfolding f2_def by (subst shift_backups_other) (simp_all add: f1_def)
  have b2: "f2 (backup ?p i) = (if i = 1 then None else if 2 \<le> i \<and> i \<le> ?n then f (backup ?p (i - 1)) else f (backup ?p i))" for i
    using n shift_backups_shifts [of f1 ?p "?n - 1" i] by (auto simp: f2_def f1_def)
  have r: "rotate s f = open_app ?p (if f2 ?p \<noteq> None then rename ?p (backup ?p 1) f2 else f2)"
    by (simp add: rotate_def Let_def k f1_def f2_def)
  show "rotate s f ?p = Some []" "rotate s f (backup ?p i) =
      (if i = 1 then f ?p else if 2 \<le> i \<and> i \<le> ?n then f (backup ?p (i - 1)) else f (backup ?p i))"
    using p2 b2 [of i] unfolding r by (auto simp: open_app_def rename_def)
qed

section \<open>Properties\<close>


text \<open>Rotation shifts the backups: the log becomes backup 1, backup \<open>i\<close> becomes backup \<open>i + 1\<close> up to the
  configured number, the oldest is dropped, no other file of the series appears, and the log starts
  empty.\<close>

lemma rotate_shifts_backups:
  assumes "0 < rs_max_backups s" and "unat (rs_max_backups s) < 2 ^ 31"
  shows "rotate s f (rs_path s) = Some [] \<and>
    rotate s f (backup (rs_path s) 1) = f (rs_path s) \<and>
    (\<forall>i. 1 \<le> i \<and> i < unat (rs_max_backups s) \<longrightarrow> rotate s f (backup (rs_path s) (i + 1)) = f (backup (rs_path s) i)) \<and>
    (\<forall>i > unat (rs_max_backups s). rotate s f (backup (rs_path s) i) = f (backup (rs_path s) i))"
proof -
  have "0 < unat (rs_max_backups s)" using assms(1) by (simp add: word_gt_0 unat_gt_0)
  with rotate_shift [OF assms] show ?thesis by auto
qed

text \<open>The size of the log file is bounded: after any write it is at most the configured size (or one
  byte, when that is zero) plus the length of the line.\<close>

lemma log_size_bounded:
  assumes "0 < rs_max_backups s" and "unat (rs_max_backups s) < 2 ^ 31"
  shows "tellp s (rs_write s l f) \<le> max (unat (rs_max_bytes s)) 1 + length l"
proof (cases "tellp s f > 0 \<and> tellp s f \<ge> unat (rs_max_bytes s)")
  case True
  then show ?thesis using rotate_shift(1) [OF assms, of f] by (simp add: rs_write_def tellp_def)
next
  case False
  then have "tellp s (rs_write s l f) = tellp s f + length l + 1"
    by (auto simp: rs_write_def tellp_def split: option.splits)
  moreover have "tellp s f + 1 \<le> max (unat (rs_max_bytes s)) 1" using False by auto
  ultimately show ?thesis by simp
qed

text \<open>JSON lines are ambiguous: nothing is escaped, so an entry whose component or message contains a
  quotation mark yields the same line as a different entry.\<close>

lemma json_ambiguous:
  assumes "CHR 0x00 \<notin> set a" and "CHR 0x00 \<notin> set b"
  shows "format_json \<lparr>le_level = lv, le_component = a, le_message = b @ dq @ '','' @ dq @ ''msg'' @ dq @ '':'' @ dq @ c, le_timestamp = t\<rparr> =
   format_json \<lparr>le_level = lv, le_component = a @ dq @ '','' @ dq @ ''msg'' @ dq @ '':'' @ dq @ b, le_message = c, le_timestamp = t\<rparr>"
proof -
  have c: "CHR 0x00 \<notin> set x \<Longrightarrow> c_str (x @ y) = x @ c_str y" for x y
    unfolding c_str_def by (rule takeWhile_append2) auto
  have "c_str a = a" "c_str b = b" using c [OF assms(1), of "[]"] c [OF assms(2), of "[]"] by (simp_all add: c_str_def)
  moreover have "c_str (dq @ '','' @ dq @ ''msg'' @ dq @ '':'' @ dq @ y) = dq @ '','' @ dq @ ''msg'' @ dq @ '':'' @ dq @ c_str y" for y
    by (simp add: c_str_def dq_def)
  ultimately show ?thesis using assms by (simp add: format_json_def c)
qed

section \<open>Witnesses\<close>

definition sample_sink :: RotatingFileSink where
  "sample_sink = \<lparr>rs_path = ''l'', rs_max_bytes = 2, rs_max_backups = 3\<rparr>"

definition sample_log :: LogEntry where
  "sample_log = \<lparr>le_level = WARN, le_component = ''c'', le_message = ''m'', le_timestamp = 0\<rparr>"

definition sample_dispatcher :: Dispatcher where
  "sample_dispatcher = \<lparr>d_queue = [], d_shutdown_flag = False, d_writer = Waiting, d_min_level = INFO,
     d_json_format = True, d_to_stdout = True, d_file_sink = None, d_registry = (\<lambda>_. None), d_fs = (\<lambda>_. None),
     d_stdout = [], d_stderr = []\<rparr>"


end
