(* ===== verification/MySqlFrontend.thy ===== *)
theory MySqlFrontend
  imports PacketFramer Packets Constants ConfigTypes
begin

text \<open>
  \<open>protocol/mysql/mysql_frontend.cpp\<close>: the acceptor of the MySQL port. The outcome of each
  \<open>async_accept\<close> is an event; what the loop spawns (sessions and rejections) is recorded. Asio's
  address parser is a parameter.
\<close>

section \<open>Rejecting a client\<close>

text \<open>The bytes that \<open>reject_connection\<close> writes: a header built by hand and the ERR packet.\<close>

definition reject_connection :: bytes where
  "reject_connection =
     (let payload = make_err err_CON_COUNT_ERROR ''08004'' ''Too many connections'';
          len = word_of_nat (length payload) :: u32;
          hdr = [ucast (len AND 0xFF), ucast (drop_bit 8 len AND 0xFF), ucast (drop_bit 16 len AND 0xFF), 0]
      in hdr @ payload)"

section \<open>MySqlFrontend\<close>

record ('c, 'addr) MySqlFrontend =
  fe_endpoint :: "('addr \<times> u16) option"
  fe_backlog :: int
  fe_next_conn_id :: u32
  fe_active_conns :: u32
  fe_sessions :: "(u32 \<times> 'c) list"
  fe_rejected :: "'c list"

definition fe_new :: "('c, 'addr) MySqlFrontend" where
  "fe_new = \<lparr>fe_endpoint = None, fe_backlog = 0, fe_next_conn_id = 1, fe_active_conns = 0, fe_sessions = [], fe_rejected = []\<rparr>"

text \<open>\<open>start\<close>: an address that does not parse is replaced by the wildcard address \<open>any\<close>.\<close>

definition fe_start :: "(string \<Rightarrow> 'addr option) \<Rightarrow> 'addr \<Rightarrow> ListenerConfig \<Rightarrow> ('c, 'addr) MySqlFrontend \<Rightarrow> ('c, 'addr) MySqlFrontend" where
  "fe_start make_address any cfg f =
     f\<lparr>fe_endpoint := Some (case make_address (lst_bind cfg) of Some a \<Rightarrow> a | None \<Rightarrow> any, lst_port cfg),
       fe_backlog := sint (lst_backlog cfg)\<rparr>"

definition fe_stop :: "('c, 'addr) MySqlFrontend \<Rightarrow> ('c, 'addr) MySqlFrontend" where
  "fe_stop f = f\<lparr>fe_endpoint := None\<rparr>"

datatype 'c accept_event = Operation_aborted | Accept_error | Client 'c

text \<open>The loop over the outcomes of the accepts so far; it ends at \<open>operation_aborted\<close>.\<close>

fun accept_loop :: "u32 \<Rightarrow> 'c accept_event list \<Rightarrow> ('c, 'addr) MySqlFrontend \<Rightarrow> ('c, 'addr) MySqlFrontend" where
  "accept_loop max_conns [] f = f"
| "accept_loop max_conns (Operation_aborted # es) f = f"
| "accept_loop max_conns (Accept_error # es) f = accept_loop max_conns es f"
| "accept_loop max_conns (Client s # es) f =
     (if fe_active_conns f \<ge> max_conns
      then accept_loop max_conns es (f\<lparr>fe_rejected := fe_rejected f @ [s]\<rparr>)
      else (let i = fe_next_conn_id f;
                f = f\<lparr>fe_next_conn_id := i + 1, fe_active_conns := fe_active_conns f + 1\<rparr>;
                f = f\<lparr>fe_sessions := fe_sessions f @ [(i, s)]\<rparr>;
                f = f\<lparr>fe_active_conns := fe_active_conns f - 1\<rparr>
            in accept_loop max_conns es f))"

section \<open>Properties\<close>

fun accepted :: "'c accept_event list \<Rightarrow> 'c list" where
  "accepted [] = []"
| "accepted (Operation_aborted # es) = []"
| "accepted (Accept_error # es) = accepted es"
| "accepted (Client s # es) = s # accepted es"

lemma accept_loop_spawns:
  assumes "fe_active_conns f < max_conns"
  shows "accept_loop max_conns es f =
    f\<lparr>fe_next_conn_id := fe_next_conn_id f + word_of_nat (length (accepted es)),
      fe_sessions := fe_sessions f @ zip (map (\<lambda>i. fe_next_conn_id f + word_of_nat i) [0..<length (accepted es)]) (accepted es)\<rparr>"
  using assms
proof (induction es arbitrary: f rule: accepted.induct)
  case (4 s es)
  have "map (\<lambda>i. fe_next_conn_id f + word_of_nat i) [0..<Suc n] =
      fe_next_conn_id f # map (\<lambda>i. fe_next_conn_id f + 1 + word_of_nat i) [0..<n]" for n
    by (simp add: upt_conv_Cons map_Suc_upt [symmetric] add.assoc del: upt_Suc)
  with 4 show ?case by (simp add: Let_def not_le add.assoc del: upt_Suc)
qed simp_all

text \<open>The bytes of a rejection are the frame that the framer would send.\<close>

lemma reject_is_frame:
  "reject_connection = encode (make_err err_CON_COUNT_ERROR ''08004'' ''Too many connections'') 0"
  by code_simp

text \<open>The limit on connections is never enforced: with any positive limit, every client is accepted,
  however many are connected, none is rejected, and the sessions get consecutive ids from 1 (modulo
  \<open>2 ^ 32\<close>), because the counter is decremented as soon as the session is spawned.\<close>

lemma accept_never_rejects:
  assumes "0 < max_conns"
    and "f = accept_loop max_conns es (fe_new :: ('c, 'addr) MySqlFrontend)"
  shows "fe_rejected f = [] \<and> fe_sessions f =
      zip (map (\<lambda>i. 1 + word_of_nat i) [0..<length (accepted es)]) (accepted es)"
  using accept_loop_spawns [of "fe_new :: ('c, 'addr) MySqlFrontend" max_conns es] assms by (simp add: fe_new_def)

end
