(* ===== verification/Application.thy ===== *)
theory Application
  imports ConfigLoader Logger PoolManager MySqlFrontend RoutingEngine
begin

text \<open>
  \<open>core/src/application.cpp\<close> and \<open>main.cpp\<close>: construction, start-up and shutdown of the subsystems and
  the reaction to signals. Opening files, binding the port and what other tasks do to the pools
  while the event loop runs are parameters; log messages are left out.
\<close>

section \<open>State\<close>

record ('c, 'addr) Application =
  ap_config_path :: string
  ap_config :: Config
  ap_log :: Dispatcher
  ap_shutting_down :: bool
  ap_stop_posted :: bool
  ap_armed :: bool
  ap_pid_file_path :: string
  ap_fs :: fs
  ap_io_threads :: u32
  ap_schema_registry :: "SchemaRegistry option"
  ap_backend_registry :: "BackendRegistry option"
  ap_routing :: "RoutingConfig option"
  ap_pool_manager :: "PoolManager option"
  ap_mysql_frontend :: "('c, 'addr) MySqlFrontend option"

text \<open>What the process finds outside when it starts.\<close>

record ('n, 'addr) world =
  wd_yaml :: "'n yaml"
  wd_exists :: "string \<Rightarrow> (bool, string) result"
  wd_load_file :: "string \<Rightarrow> ('n, string) result"
  wd_log_opens :: bool
  wd_make_address :: "string \<Rightarrow> 'addr option"
  wd_any_address :: 'addr
  wd_bind_error :: "string option"
  wd_mkdir_ok :: bool
  wd_pid_opens :: bool
  wd_pid :: nat
  wd_id_order :: id_order

text \<open>The constructor; an error is the text of the exception.\<close>

definition app_new :: "('n, 'addr) world \<Rightarrow> string \<Rightarrow> fs \<Rightarrow> (('c, 'addr) Application, string) result" where
  "app_new W config_path f =
     (case load (wd_yaml W) (wd_exists W) (wd_load_file W) config_path of
        Err e \<Rightarrow> Err (''failed to load config: '' @ e)
      | Ok cfg \<Rightarrow>
          (case d_start (wd_log_opens W) (cfg_logging cfg) f of
             Err e \<Rightarrow> Err e
           | Ok d \<Rightarrow> Ok \<lparr>ap_config_path = config_path, ap_config = cfg, ap_log = d, ap_shutting_down = False,
               ap_stop_posted = False, ap_armed = False, ap_pid_file_path = [], ap_fs = f, ap_io_threads = 0,
               ap_schema_registry = None, ap_backend_registry = None, ap_routing = None, ap_pool_manager = None,
               ap_mysql_frontend = None\<rparr>))"

section \<open>Start-up and shutdown\<close>

definition write_pid_file :: "('n, 'addr) world \<Rightarrow> ('c, 'addr) Application \<Rightarrow> ('c, 'addr) Application" where
  "write_pid_file W a =
     (let path = node_data_dir (cfg_node (ap_config a)) @ ''/dbmesh.pid'' in
      if \<not> wd_mkdir_ok W then a\<lparr>ap_pid_file_path := []\<rparr>
      else a\<lparr>ap_pid_file_path := path,
             ap_fs := (if wd_pid_opens W then (ap_fs a)(path \<mapsto> to_digits (wd_pid W) @ [CHR 0x0A]) else ap_fs a)\<rparr>)"

definition remove_pid_file :: "('c, 'addr) Application \<Rightarrow> ('c, 'addr) Application" where
  "remove_pid_file a =
     (if ap_pid_file_path a \<noteq> [] then a\<lparr>ap_fs := (ap_fs a)(ap_pid_file_path a := None)\<rparr> else a)"

text \<open>An error is the text of the exception of \<open>start\<close>; what was built before it stays.\<close>

definition start_subsystems :: "('n, 'addr) world \<Rightarrow> ('c, 'addr) Application \<Rightarrow> string option \<times> ('c, 'addr) Application" where
  "start_subsystems W a =
     (let cfg = ap_config a;
          a = a\<lparr>ap_schema_registry := Some (sr_load (cfg_schemas cfg) sr_new),
                ap_backend_registry := Some (br_load (wd_id_order W) (cfg_backends cfg) br_new),
                ap_routing := Some (cfg_routing cfg),
                ap_pool_manager := Some (fold create_pool_with_factory (cfg_backends cfg) pm_new)\<rparr>
      in if lst_enabled (lsts_mysql (cfg_listeners cfg))
         then (case wd_bind_error W of
                 Some e \<Rightarrow> (Some e, a\<lparr>ap_mysql_frontend := Some fe_new\<rparr>)
               | None \<Rightarrow> (None, a\<lparr>ap_mysql_frontend := Some (fe_start (wd_make_address W) (wd_any_address W)
                   (lsts_mysql (cfg_listeners cfg)) fe_new)\<rparr>))
         else (None, a))"

text \<open>
  The second \<open>io_context_.run()\<close> drains the pools and also serves the sessions that are still open: it
  returns only when they end (\<open>sessions_end\<close>).
\<close>

definition stop_subsystems :: "(caddr set \<Rightarrow> caddr list) \<Rightarrow> BackendID list \<Rightarrow> bool \<Rightarrow> ('c, 'addr) Application \<Rightarrow> ('c, 'addr) Application option" where
  "stop_subsystems it ids sessions_end a =
     (let a = a\<lparr>ap_mysql_frontend := None\<rparr> in
      case ap_pool_manager a of
        None \<Rightarrow> Some a
      | Some m \<Rightarrow> do {
          m' \<leftarrow> pm_shutdown it ids m;
          if sessions_end then Some (a\<lparr>ap_pool_manager := None\<rparr>) else None })"

section \<open>Signals\<close>

datatype signal = SIGTERM | SIGINT | SIGHUP

definition arm_signals :: "('c, 'addr) Application \<Rightarrow> ('c, 'addr) Application" where
  "arm_signals a = a\<lparr>ap_armed := True\<rparr>"

definition request_shutdown :: "('c, 'addr) Application \<Rightarrow> ('c, 'addr) Application" where
  "request_shutdown a = (if ap_shutting_down a then a else a\<lparr>ap_shutting_down := True, ap_stop_posted := True\<rparr>)"

definition on_config_reload :: "Config \<Rightarrow> ('c, 'addr) Application \<Rightarrow> ('c, 'addr) Application" where
  "on_config_reload new_config a = a\<lparr>ap_config := new_config\<rparr>"

definition on_signal :: "('n, 'addr) world \<Rightarrow> signal \<Rightarrow> ('c, 'addr) Application \<Rightarrow> ('c, 'addr) Application" where
  "on_signal W signo a =
     (if signo = SIGTERM \<or> signo = SIGINT then request_shutdown a
      else (let a = reload (wd_yaml W) (wd_exists W) (wd_load_file W) (ap_config_path a) on_config_reload a
            in if \<not> ap_shutting_down a then arm_signals a else a))"

text \<open>
  What the event loop runs: a signal that was raised (with the files as they are then), or handlers
  of other tasks, which leave the pool manager in some state.
\<close>

datatype ('n, 'addr) event = Signal signal "('n, 'addr) world" | Tasks PoolManager

fun handle_event :: "('n, 'addr) event \<Rightarrow> ('c, 'addr) Application \<Rightarrow> ('c, 'addr) Application" where
  "handle_event (Signal signo W) a = (if ap_armed a then on_signal W signo (a\<lparr>ap_armed := False\<rparr>) else a)"
| "handle_event (Tasks m) a = (if ap_pool_manager a = None then a else a\<lparr>ap_pool_manager := Some m\<rparr>)"

text \<open>\<open>io_context_.run()\<close>: handlers until the posted stop runs; \<^const>\<open>None\<close> when it still runs after the events.\<close>

fun event_loop :: "('n, 'addr) event list \<Rightarrow> ('c, 'addr) Application \<Rightarrow> ('c, 'addr) Application option" where
  "event_loop es a =
     (if ap_stop_posted a then Some a
      else case es of [] \<Rightarrow> None | e # es \<Rightarrow> event_loop es (handle_event e a))"

datatype exit_code = EXIT_SUCCESS | EXIT_FAILURE

definition run :: "('n, 'addr) world \<Rightarrow> ('n, 'addr) event list \<Rightarrow> (caddr set \<Rightarrow> caddr list) \<Rightarrow> BackendID list
    \<Rightarrow> bool \<Rightarrow> ('c, 'addr) Application \<Rightarrow> (exit_code \<times> ('c, 'addr) Application) option" where
  "run W es it ids sessions_end a =
     (case start_subsystems W (arm_signals (write_pid_file W a)) of
        (Some e, a) \<Rightarrow> Some (EXIT_FAILURE, a\<lparr>ap_log := d_stop (ap_log a)\<rparr>)
      | (None, a) \<Rightarrow> do {
          let n = lst_io_threads (lsts_mysql (cfg_listeners (ap_config a)));
          let extra = (if n > 1 then n - 1 else 0);
          a \<leftarrow> event_loop es (a\<lparr>ap_io_threads := extra\<rparr>);
          a \<leftarrow> stop_subsystems it ids sessions_end (a\<lparr>ap_io_threads := 0\<rparr>);
          Some (EXIT_SUCCESS, a\<lparr>ap_log := d_stop (ap_log a)\<rparr>) })"

section \<open>main\<close>

datatype command = Version | Help | Unknown_option string | Start string bool

fun parse_args :: "string list \<Rightarrow> string \<Rightarrow> bool \<Rightarrow> command" where
  "parse_args [] config_path check_config = Start config_path check_config"
| "parse_args (arg # rest) config_path check_config =
     (if (arg = ''--config'' \<or> arg = ''-c'') \<and> rest \<noteq> [] then parse_args (tl rest) (hd rest) check_config
      else if arg = ''--check-config'' then parse_args rest config_path True
      else if arg = ''--version'' \<or> arg = ''-v'' then Version
      else if arg = ''--help'' \<or> arg = ''-h'' then Help
      else Unknown_option arg)"

definition print_usage :: "string \<Rightarrow> string" where
  "print_usage argv0 =
     ''Usage: '' @ argv0 @ '' [options]'' @ [CHR 0x0A] @
     ''  --config <path>   config file (default: dbmesh.yaml)'' @ [CHR 0x0A] @
     ''  --check-config    validate config and exit'' @ [CHR 0x0A] @
     ''  --version         print version and exit'' @ [CHR 0x0A]"

text \<open>The destructor.\<close>

definition app_destroy :: "('c, 'addr) Application \<Rightarrow> ('c, 'addr) Application" where
  "app_destroy a = remove_pid_file a"

text \<open>What the process leaves: its exit code, the files and what \<open>main\<close> printed.\<close>

record outcome =
  oc_code :: exit_code
  oc_fs :: fs
  oc_stdout :: string
  oc_stderr :: string

definition main_cmd :: "('n, 'addr) world \<Rightarrow> ('n, 'addr) event list \<Rightarrow> (caddr set \<Rightarrow> caddr list) \<Rightarrow> BackendID list
    \<Rightarrow> bool \<Rightarrow> 'c itself \<Rightarrow> fs \<Rightarrow> string \<Rightarrow> string list \<Rightarrow> outcome option" where
  "main_cmd W es it ids sessions_end ty f argv0 args =
     (let leaves = (\<lambda>code f out err. Some \<lparr>oc_code = code, oc_fs = f, oc_stdout = out, oc_stderr = err\<rparr>) in
      case parse_args args ''dbmesh.yaml'' False of
        Version \<Rightarrow> leaves EXIT_SUCCESS f (''dbmesh 0.1.0'' @ [CHR 0x0A]) []
      | Help \<Rightarrow> leaves EXIT_SUCCESS f [] (print_usage argv0)
      | Unknown_option arg \<Rightarrow> leaves EXIT_FAILURE f [] (''unknown option: '' @ arg @ [CHR 0x0A] @ print_usage argv0)
      | Start path True \<Rightarrow>
          (case load (wd_yaml W) (wd_exists W) (wd_load_file W) path of
             Err e \<Rightarrow> leaves EXIT_FAILURE f [] (''config error: '' @ e @ [CHR 0x0A])
           | Ok _ \<Rightarrow> leaves EXIT_SUCCESS f (''config OK'' @ [CHR 0x0A]) [])
      | Start path False \<Rightarrow>
          (case app_new W path f :: (('c, 'addr) Application, string) result of
             Err e \<Rightarrow> leaves EXIT_FAILURE f [] (''fatal: '' @ e @ [CHR 0x0A])
           | Ok a \<Rightarrow> do { (code, a) \<leftarrow> run W es it ids sessions_end a; leaves code (ap_fs (app_destroy a)) [] [] }))"

text \<open>A check of the configuration starts nothing: it returns, leaves the files alone and succeeds exactly
  when the loader does.\<close>

lemma check_config_only:
  "\<exists>x. main_cmd W es it ids sessions_end ty f argv0 [''--check-config'', ''--config'', path] = Some x \<and> oc_fs x = f \<and>
     (oc_code x = EXIT_SUCCESS \<longleftrightarrow> is_ok (load (wd_yaml W) (wd_exists W) (wd_load_file W) path))"
  by (simp add: main_cmd_def Let_def split: result.splits)

section \<open>dbmeshctl\<close>

definition ctl_main :: "fs \<Rightarrow> outcome" where
  "ctl_main f = \<lparr>oc_code = EXIT_SUCCESS, oc_fs = f, oc_stdout = ''dbmeshctl v0.1.0'' @ [CHR 0x0A], oc_stderr = []\<rparr>"

declare event_loop.simps [simp del]

section \<open>The running application\<close>

definition pools_ok :: "BackendID list \<Rightarrow> PoolManager \<Rightarrow> bool" where
  "pools_ok ids m \<longleftrightarrow> visits_keys ids m \<and> (\<forall>b p. pm_pools m b = Some p \<longrightarrow> pool_inv p)"

text \<open>Until the stop is posted a signal is awaited; the configuration is always a valid one.\<close>

definition app_inv :: "BackendID list \<Rightarrow> ('c, 'addr) Application \<Rightarrow> bool" where
  "app_inv ids a \<longleftrightarrow> config_ok (ap_config a) \<and> ap_shutting_down a = ap_stop_posted a \<and>
     (\<not> ap_stop_posted a \<longrightarrow> ap_armed a) \<and> (\<exists>m. ap_pool_manager a = Some m \<and> pools_ok ids m)"

fun event_ok :: "BackendID list \<Rightarrow> ('n, 'addr) event \<Rightarrow> bool" where
  "event_ok ids (Signal s W) = True"
| "event_ok ids (Tasks m) = pools_ok ids m"

lemma reload_inv:
  "app_inv ids (a\<lparr>ap_armed := x\<rparr>) \<Longrightarrow> reload Y ex lf path on_config_reload a = a' \<Longrightarrow>
   config_ok (ap_config a') \<and> ap_shutting_down a' = ap_shutting_down a \<and> ap_stop_posted a' = ap_stop_posted a \<and>
   ap_pool_manager a' = ap_pool_manager a"
  by (auto simp: reload_def on_config_reload_def app_inv_def load_Ok split: result.splits)

lemma handle_event_inv:
  assumes "app_inv ids a" "event_ok ids e" "\<not> ap_stop_posted a"
  shows "app_inv ids (handle_event e a)"
proof (cases e)
  case (Signal s W)
  have armed: "ap_armed a" using assms by (simp add: app_inv_def)
  show ?thesis
  proof (cases "s = SIGHUP")
    case True
    let ?a = "a\<lparr>ap_armed := False\<rparr>"
    let ?r = "reload (wd_yaml W) (wd_exists W) (wd_load_file W) (ap_config_path ?a) on_config_reload ?a"
    have "app_inv ids (?a\<lparr>ap_armed := True\<rparr>)" using assms(1) armed by (simp add: app_inv_def)
    from reload_inv [OF this, of "wd_yaml W" "wd_exists W" "wd_load_file W" "ap_config_path ?a" ?r] True assms armed
    show ?thesis by (auto simp: Signal on_signal_def arm_signals_def app_inv_def Let_def)
  next
    case False
    then have "s = SIGTERM \<or> s = SIGINT" by (cases s) auto
    with assms show ?thesis by (auto simp: Signal on_signal_def request_shutdown_def app_inv_def)
  qed
next
  case (Tasks m)
  with assms show ?thesis by (auto simp: app_inv_def)
qed

lemma event_loop_stops:
  assumes "app_inv ids a" "list_all (event_ok ids) es" "\<exists>s W. Signal s W \<in> set es \<and> s \<noteq> SIGHUP"
  shows "\<exists>a'. event_loop es a = Some a' \<and> app_inv ids a'"
  using assms
proof (induction es arbitrary: a)
  case (Cons e es)
  show ?case
  proof (cases "ap_stop_posted a")
    case True
    then show ?thesis using Cons.prems(1) by (simp add: event_loop.simps)
  next
    case False
    then have inv: "app_inv ids (handle_event e a)" using Cons.prems by (intro handle_event_inv) simp_all
    have step: "event_loop (e # es) a = event_loop es (handle_event e a)" using False by (simp add: event_loop.simps [of "e # es"])
    show ?thesis
    proof (cases "\<exists>s W. e = Signal s W \<and> s \<noteq> SIGHUP")
      case True
      then obtain s W where e: "e = Signal s W" "s = SIGTERM \<or> s = SIGINT" by (metis signal.exhaust)
      then have "ap_stop_posted (handle_event e a)"
        using False Cons.prems(1) by (auto simp: on_signal_def request_shutdown_def app_inv_def)
      with step inv show ?thesis by (simp add: event_loop.simps [of es])
    next
      case noterm: False
      with Cons.prems(3) have "\<exists>s W. Signal s W \<in> set es \<and> s \<noteq> SIGHUP" by auto
      with Cons.IH [OF inv] Cons.prems(2) step show ?thesis by simp
    qed
  qed
qed simp

lemma start_inv:
  assumes "config_ok (ap_config a)" "\<not> ap_shutting_down a" "\<not> ap_stop_posted a" "ap_armed a"
    "start_subsystems W a = (None, a')" "visits_keys ids (fold create_pool_with_factory (cfg_backends (ap_config a)) pm_new)"
  shows "app_inv ids a'"
proof -
  have "pool_inv p" if "pm_pools (fold create_pool_with_factory bs pm_new) b = Some p" for bs b p
    using that unfolding create_pools by (auto simp: pm_new_def pool_inv_new)
  with assms show ?thesis
    by (auto simp: start_subsystems_def Let_def app_inv_def pools_ok_def split: if_splits option.splits)
qed

lemma app_new_ok:
  assumes "app_new W path f = Ok a"
  shows "config_ok (ap_config a) \<and> \<not> ap_shutting_down a \<and> \<not> ap_stop_posted a"
  using assms by (auto simp: app_new_def load_Ok split: result.splits)

section \<open>Properties\<close>



definition sample_world :: "(ynode, unit) world" where
  "sample_world = \<lparr>wd_yaml = tree_yaml, wd_exists = (\<lambda>_. Ok True),
     wd_load_file = (\<lambda>_. Ok (YMap [(''node'', YMap [(''id'', YScalar ''n1'')]), (''backends'', YSeq [ConfigLoader.sample_entry])])),
     wd_log_opens = True, wd_make_address = (\<lambda>_. None), wd_any_address = (), wd_bind_error = None, wd_mkdir_ok = True,
     wd_pid_opens = True, wd_pid = 7, wd_id_order = rev\<rparr>"


end
