(* ===== verification/QueryTests.thy ===== *)
theory QueryTests
  imports QueryClassifier SchemaExtractor
begin

text \<open>
  The unit tests of the two scanners, \<open>routing/src/query_classifier_test.cpp\<close> and
  \<open>routing/src/schema_extractor_test.cpp\<close>: one definition for each test, the conjunction of what it
  expects, and the lemma that the model passes the suite.
\<close>

section \<open>Query classifier\<close>

definition QueryClassifier_ClassifiesSelectAsRead :: bool where
  "QueryClassifier_ClassifiesSelectAsRead \<longleftrightarrow>
     classify ''SELECT * FROM users'' = SELECT \<and>
     classify ''select 1'' = SELECT \<and>
     classify ''  SELECT  name  FROM  t'' = SELECT"

definition QueryClassifier_ClassifiesInsert :: bool where
  "QueryClassifier_ClassifiesInsert \<longleftrightarrow>
     classify ''INSERT INTO t VALUES (1)'' = INSERT \<and>
     classify ''insert into t set a=1'' = INSERT \<and>
     classify ''REPLACE INTO t VALUES (1)'' = INSERT"

definition QueryClassifier_ClassifiesUpdate :: bool where
  "QueryClassifier_ClassifiesUpdate \<longleftrightarrow>
     classify ''UPDATE t SET a=1'' = UPDATE \<and>
     classify ''update billing.orders set x=1 where id=2'' = UPDATE"

definition QueryClassifier_ClassifiesDelete :: bool where
  "QueryClassifier_ClassifiesDelete \<longleftrightarrow>
     classify ''DELETE FROM t WHERE id=1'' = DELETE \<and>
     classify ''delete from t'' = DELETE"

definition QueryClassifier_ClassifiesDdl :: bool where
  "QueryClassifier_ClassifiesDdl \<longleftrightarrow>
     classify ''CREATE TABLE t (id INT)'' = DDL \<and>
     classify ''DROP TABLE t'' = DDL \<and>
     classify ''ALTER TABLE t ADD c INT'' = DDL \<and>
     classify ''TRUNCATE t'' = DDL \<and>
     classify ''RENAME TABLE a TO b'' = DDL \<and>
     classify ''CREATE DATABASE x'' = DDL \<and>
     classify ''GRANT SELECT ON *.* TO u'' = DDL"

definition QueryClassifier_ClassifiesCall :: bool where
  "QueryClassifier_ClassifiesCall \<longleftrightarrow>
     classify ''CALL my_proc(1)'' = CALL \<and>
     classify ''DO SLEEP(0)'' = CALL"

definition QueryClassifier_ClassifiesTransactionControl :: bool where
  "QueryClassifier_ClassifiesTransactionControl \<longleftrightarrow>
     classify ''BEGIN'' = BEGIN \<and>
     classify ''START TRANSACTION'' = BEGIN \<and>
     classify ''COMMIT'' = COMMIT \<and>
     classify ''ROLLBACK'' = ROLLBACK"

definition QueryClassifier_ClassifiesSetAndUse :: bool where
  "QueryClassifier_ClassifiesSetAndUse \<longleftrightarrow>
     classify ''SET autocommit=0'' = SET \<and>
     classify ''SET NAMES utf8mb4'' = SET \<and>
     classify ''USE billing'' = USE"

definition QueryClassifier_ShowExplainDescribeAreReads :: bool where
  "QueryClassifier_ShowExplainDescribeAreReads \<longleftrightarrow>
     classify ''SHOW TABLES'' = SELECT \<and>
     classify ''SHOW DATABASES'' = SELECT \<and>
     classify ''EXPLAIN SELECT * FROM t'' = SELECT \<and>
     classify ''DESCRIBE t'' = SELECT \<and>
     classify ''DESC t'' = SELECT"

definition QueryClassifier_StripsLeadingLineComment :: bool where
  "QueryClassifier_StripsLeadingLineComment \<longleftrightarrow>
     classify (''-- a comment'' @ [CHR 0x0A] @ ''SELECT 1'') = SELECT \<and>
     classify (''# hash comment'' @ [CHR 0x0A] @ ''UPDATE t SET a=1'') = UPDATE"

definition QueryClassifier_StripsBlockComment :: bool where
  "QueryClassifier_StripsBlockComment \<longleftrightarrow>
     classify ''/* hint */ SELECT 1'' = SELECT \<and>
     classify (''/* multi'' @ [CHR 0x0A] @ ''line */ DELETE FROM t'') = DELETE \<and>
     classify ''SELECT /* mid */ * FROM t'' = SELECT"

definition QueryClassifier_DoesNotStripInsideStrings :: bool where
  "QueryClassifier_DoesNotStripInsideStrings \<longleftrightarrow>
     classify (''SELECT '' @ [CHR 0x27] @ ''-- not a comment'' @ [CHR 0x27]) = SELECT \<and>
     classify (''INSERT INTO t VALUES ('' @ [CHR 0x27] @ ''/* x */'' @ [CHR 0x27] @ '')'') = INSERT"

definition QueryClassifier_HandlesLeadingParen :: bool where
  "QueryClassifier_HandlesLeadingParen \<longleftrightarrow>
     classify ''(SELECT 1) UNION (SELECT 2)'' = SELECT"

definition QueryClassifier_ClassifiesCteSelect :: bool where
  "QueryClassifier_ClassifiesCteSelect \<longleftrightarrow>
     classify ''WITH cte AS (SELECT 1) SELECT * FROM cte'' = SELECT"

definition QueryClassifier_ClassifiesCteInsert :: bool where
  "QueryClassifier_ClassifiesCteInsert \<longleftrightarrow>
     classify ''WITH cte AS (SELECT 1) INSERT INTO t SELECT * FROM cte'' = INSERT"

definition QueryClassifier_ClassifiesCteDelete :: bool where
  "QueryClassifier_ClassifiesCteDelete \<longleftrightarrow>
     classify ''WITH c AS (SELECT id FROM t) DELETE FROM t WHERE id IN (SELECT id FROM c)'' = DELETE"

definition QueryClassifier_ClassifiesNestedCteSelect :: bool where
  "QueryClassifier_ClassifiesNestedCteSelect \<longleftrightarrow>
     classify ''WITH a AS (SELECT 1), b AS (SELECT 2) SELECT * FROM a JOIN b'' = SELECT"

definition QueryClassifier_MultiStatementEscalatesToWrite :: bool where
  "QueryClassifier_MultiStatementEscalatesToWrite \<longleftrightarrow>
     classify ''SELECT 1; INSERT INTO t VALUES (1)'' = INSERT \<and>
     classify ''SET names utf8; SELECT 1; UPDATE t SET a=1'' = UPDATE"

definition QueryClassifier_MultiStatementAllReadsStaysRead :: bool where
  "QueryClassifier_MultiStatementAllReadsStaysRead \<longleftrightarrow>
     classify ''SELECT 1; SELECT 2; SHOW TABLES'' = SELECT"

definition QueryClassifier_TrailingSemicolonSingleStatement :: bool where
  "QueryClassifier_TrailingSemicolonSingleStatement \<longleftrightarrow>
     classify ''SELECT 1;'' = SELECT \<and>
     classify ''DELETE FROM t;'' = DELETE"

definition QueryClassifier_SemicolonInsideStringIsNotASplit :: bool where
  "QueryClassifier_SemicolonInsideStringIsNotASplit \<longleftrightarrow>
     classify (''SELECT '' @ [CHR 0x27] @ ''a;b;c'' @ [CHR 0x27]) = SELECT"

definition QueryClassifier_CaseInsensitive :: bool where
  "QueryClassifier_CaseInsensitive \<longleftrightarrow>
     classify ''sElEcT 1'' = SELECT \<and>
     classify ''INSERT into t values (1)'' = INSERT"

definition QueryClassifier_HandlesTabsAndNewlines :: bool where
  "QueryClassifier_HandlesTabsAndNewlines \<longleftrightarrow>
     classify ([CHR 0x0A, CHR 0x09] @ ''  SELECT 1'') = SELECT"

definition QueryClassifier_EmptyAndWhitespaceAreUnknown :: bool where
  "QueryClassifier_EmptyAndWhitespaceAreUnknown \<longleftrightarrow>
     classify [] = UNKNOWN \<and>
     classify (''   '' @ [CHR 0x0A, CHR 0x09] @ '' '') = UNKNOWN \<and>
     classify ''-- only a comment'' = UNKNOWN"

definition QueryClassifier_UnknownKeywordIsUnknown :: bool where
  "QueryClassifier_UnknownKeywordIsUnknown \<longleftrightarrow>
     classify ''FROBNICATE t'' = UNKNOWN \<and>
     classify ''12345'' = UNKNOWN"

definition QueryClassifier_AnalyzeOptimizeAreDdl :: bool where
  "QueryClassifier_AnalyzeOptimizeAreDdl \<longleftrightarrow>
     classify ''ANALYZE TABLE t'' = DDL \<and>
     classify ''OPTIMIZE TABLE t'' = DDL \<and>
     classify ''LOCK TABLES t WRITE'' = DDL"

definition QueryClassifier_KeywordPrefixIsNotMatched :: bool where
  "QueryClassifier_KeywordPrefixIsNotMatched \<longleftrightarrow>
     classify ''selecting_is_not_a_keyword'' = UNKNOWN \<and>
     classify ''updates_table_name foo'' = UNKNOWN"

lemma query_classifier_tests:
  QueryClassifier_ClassifiesSelectAsRead
  QueryClassifier_ClassifiesInsert
  QueryClassifier_ClassifiesUpdate
  QueryClassifier_ClassifiesDelete
  QueryClassifier_ClassifiesDdl
  QueryClassifier_ClassifiesCall
  QueryClassifier_ClassifiesTransactionControl
  QueryClassifier_ClassifiesSetAndUse
  QueryClassifier_ShowExplainDescribeAreReads
  QueryClassifier_StripsLeadingLineComment
  QueryClassifier_StripsBlockComment
  QueryClassifier_DoesNotStripInsideStrings
  QueryClassifier_HandlesLeadingParen
  QueryClassifier_ClassifiesCteSelect
  QueryClassifier_ClassifiesCteInsert
  QueryClassifier_ClassifiesCteDelete
  QueryClassifier_ClassifiesNestedCteSelect
  QueryClassifier_MultiStatementEscalatesToWrite
  QueryClassifier_MultiStatementAllReadsStaysRead
  QueryClassifier_TrailingSemicolonSingleStatement
  QueryClassifier_SemicolonInsideStringIsNotASplit
  QueryClassifier_CaseInsensitive
  QueryClassifier_HandlesTabsAndNewlines
  QueryClassifier_EmptyAndWhitespaceAreUnknown
  QueryClassifier_UnknownKeywordIsUnknown
  QueryClassifier_AnalyzeOptimizeAreDdl
  QueryClassifier_KeywordPrefixIsNotMatched
  by code_simp+

section \<open>Schema extractor\<close>

definition SchemaExtractor_ExtractsFromQualifiedSelect :: bool where
  "SchemaExtractor_ExtractsFromQualifiedSelect \<longleftrightarrow>
     extract_schema ''SELECT * FROM billing.users'' = Some ''billing'' \<and>
     extract_schema ''select a,b from analytics.events where x=1'' = Some ''analytics''"

definition SchemaExtractor_UnqualifiedSelectHasNoSchema :: bool where
  "SchemaExtractor_UnqualifiedSelectHasNoSchema \<longleftrightarrow>
     extract_schema ''SELECT * FROM users'' = None \<and>
     extract_schema ''SELECT 1'' = None"

definition SchemaExtractor_ExtractsInsertInto :: bool where
  "SchemaExtractor_ExtractsInsertInto \<longleftrightarrow>
     extract_schema ''INSERT INTO billing.orders (id) VALUES (1)'' = Some ''billing''"

definition SchemaExtractor_ExtractsUpdate :: bool where
  "SchemaExtractor_ExtractsUpdate \<longleftrightarrow>
     extract_schema ''UPDATE billing.orders SET total=1 WHERE id=2'' = Some ''billing''"

definition SchemaExtractor_ExtractsDeleteFrom :: bool where
  "SchemaExtractor_ExtractsDeleteFrom \<longleftrightarrow>
     extract_schema ''DELETE FROM analytics.events WHERE ts<now()'' = Some ''analytics''"

definition SchemaExtractor_ExtractsFirstSchemaInJoin :: bool where
  "SchemaExtractor_ExtractsFirstSchemaInJoin \<longleftrightarrow>
     extract_schema ''SELECT * FROM billing.a JOIN billing.b ON a.id=b.id'' = Some ''billing''"

definition SchemaExtractor_ExtractsFromUnqualifiedFromButQualifiedJoin :: bool where
  "SchemaExtractor_ExtractsFromUnqualifiedFromButQualifiedJoin \<longleftrightarrow>
     extract_schema ''SELECT * FROM a JOIN shop.b ON a.id=b.id'' = Some ''shop''"

definition SchemaExtractor_HandlesBacktickQuoting :: bool where
  "SchemaExtractor_HandlesBacktickQuoting \<longleftrightarrow>
     extract_schema ''SELECT * FROM `billing`.`users`'' = Some ''billing'' \<and>
     extract_schema ''SELECT * FROM `my db`.`my table`'' = Some ''my db''"

definition SchemaExtractor_HandlesDoubleQuoteQuoting :: bool where
  "SchemaExtractor_HandlesDoubleQuoteQuoting \<longleftrightarrow>
     extract_schema (''SELECT * FROM '' @ [CHR 0x22] @ ''billing'' @ [CHR 0x22] @ ''.'' @ [CHR 0x22] @ ''users'' @ [CHR 0x22]) = Some ''billing''"

definition SchemaExtractor_HandlesMixedQuoting :: bool where
  "SchemaExtractor_HandlesMixedQuoting \<longleftrightarrow>
     extract_schema ''SELECT * FROM `billing`.users'' = Some ''billing'' \<and>
     extract_schema ''SELECT * FROM billing.`users`'' = Some ''billing''"

definition SchemaExtractor_ToleratesSpacesAroundDot :: bool where
  "SchemaExtractor_ToleratesSpacesAroundDot \<longleftrightarrow>
     extract_schema ''SELECT * FROM billing . users'' = Some ''billing''"

definition SchemaExtractor_KeywordsAreCaseInsensitive :: bool where
  "SchemaExtractor_KeywordsAreCaseInsensitive \<longleftrightarrow>
     extract_schema ''select * from billing.users'' = Some ''billing'' \<and>
     extract_schema ''Select * From billing.users'' = Some ''billing''"

definition SchemaExtractor_DoesNotMatchTableDotColumnInSelectList :: bool where
  "SchemaExtractor_DoesNotMatchTableDotColumnInSelectList \<longleftrightarrow>
     extract_schema ''SELECT u.name FROM users u'' = None"

definition SchemaExtractor_IgnoresKeywordInStringLiteral :: bool where
  "SchemaExtractor_IgnoresKeywordInStringLiteral \<longleftrightarrow>
     extract_schema (''SELECT '' @ [CHR 0x27] @ ''from secret.table'' @ [CHR 0x27]) = None \<and>
     extract_schema (''SELECT '' @ [CHR 0x27] @ ''from x.y'' @ [CHR 0x27] @ '' FROM real.t'') = Some ''real''"

definition SchemaExtractor_IgnoresFromSubstringInIdentifier :: bool where
  "SchemaExtractor_IgnoresFromSubstringInIdentifier \<longleftrightarrow>
     extract_schema ''SELECT fromage FROM cheeses'' = None"

definition SchemaExtractor_ExtractsCreateTableSchema :: bool where
  "SchemaExtractor_ExtractsCreateTableSchema \<longleftrightarrow>
     extract_schema ''CREATE TABLE billing.invoices (id INT)'' = Some ''billing''"

definition SchemaExtractor_ExtractsDropTableSchema :: bool where
  "SchemaExtractor_ExtractsDropTableSchema \<longleftrightarrow>
     extract_schema ''DROP TABLE billing.invoices'' = Some ''billing''"

definition SchemaExtractor_ExtractOrUsesSqlSchemaWhenPresent :: bool where
  "SchemaExtractor_ExtractOrUsesSqlSchemaWhenPresent \<longleftrightarrow>
     extract_or ''SELECT * FROM billing.users'' ''session_db'' = ''billing''"

definition SchemaExtractor_ExtractOrFallsBackToSessionSchema :: bool where
  "SchemaExtractor_ExtractOrFallsBackToSessionSchema \<longleftrightarrow>
     extract_or ''SELECT * FROM users'' ''session_db'' = ''session_db'' \<and>
     extract_or ''SELECT 1'' ''app'' = ''app''"

definition SchemaExtractor_EmptyInputHasNoSchema :: bool where
  "SchemaExtractor_EmptyInputHasNoSchema \<longleftrightarrow>
     extract_schema [] = None \<and>
     extract_schema ''   '' = None"

lemma schema_extractor_tests:
  SchemaExtractor_ExtractsFromQualifiedSelect
  SchemaExtractor_UnqualifiedSelectHasNoSchema
  SchemaExtractor_ExtractsInsertInto
  SchemaExtractor_ExtractsUpdate
  SchemaExtractor_ExtractsDeleteFrom
  SchemaExtractor_ExtractsFirstSchemaInJoin
  SchemaExtractor_ExtractsFromUnqualifiedFromButQualifiedJoin
  SchemaExtractor_HandlesBacktickQuoting
  SchemaExtractor_HandlesDoubleQuoteQuoting
  SchemaExtractor_HandlesMixedQuoting
  SchemaExtractor_ToleratesSpacesAroundDot
  SchemaExtractor_KeywordsAreCaseInsensitive
  SchemaExtractor_DoesNotMatchTableDotColumnInSelectList
  SchemaExtractor_IgnoresKeywordInStringLiteral
  SchemaExtractor_IgnoresFromSubstringInIdentifier
  SchemaExtractor_ExtractsCreateTableSchema
  SchemaExtractor_ExtractsDropTableSchema
  SchemaExtractor_ExtractOrUsesSqlSchemaWhenPresent
  SchemaExtractor_ExtractOrFallsBackToSessionSchema
  SchemaExtractor_EmptyInputHasNoSchema
  by code_simp+

end
