(* ===== verification/RoutingTests.thy ===== *)
theory RoutingTests
  imports RoutingEngine
begin

text \<open>
  The unit tests of the routing components: \<open>read_write_router_test.cpp\<close>, \<open>schema_registry_test.cpp\<close>,
  \<open>backend_registry_test.cpp\<close>, \<open>backend_selector_test.cpp\<close> and \<open>routing_engine_test.cpp\<close> of \<open>routing/src\<close>.
  Each test is the conjunction of what it expects. A test of a registry takes the order in which the
  hash map is iterated, and one that selects takes the random draw: the lemmas prove each test for
  every order and every draw. \<open>WeightedRespectsWeights\<close> is a statement about the random generator and
  is left out.
\<close>

section \<open>Read/write router\<close>

definition fresh :: RwSessionState where
  "fresh = \<lparr>rw_in_transaction = False, rw_autocommit = True\<rparr>"

definition in_txn :: RwSessionState where
  "in_txn = fresh\<lparr>rw_in_transaction := True\<rparr>"

definition ReadWriteRouter_SelectGoesToReplica :: bool where
  "ReadWriteRouter_SelectGoesToReplica \<longleftrightarrow> select_role SELECT fresh = REPLICA"

definition ReadWriteRouter_WritesGoToPrimary :: bool where
  "ReadWriteRouter_WritesGoToPrimary \<longleftrightarrow>
     select_role INSERT fresh = PRIMARY \<and> select_role UPDATE fresh = PRIMARY \<and>
     select_role DELETE fresh = PRIMARY \<and> select_role DDL fresh = PRIMARY \<and> select_role CALL fresh = PRIMARY"

definition ReadWriteRouter_BeginPinsToPrimary :: bool where
  "ReadWriteRouter_BeginPinsToPrimary \<longleftrightarrow> select_role BEGIN fresh = PRIMARY"

definition ReadWriteRouter_SelectInsideTransactionGoesToPrimary :: bool where
  "ReadWriteRouter_SelectInsideTransactionGoesToPrimary \<longleftrightarrow> select_role SELECT in_txn = PRIMARY"

definition ReadWriteRouter_CommitAndRollbackGoToPrimary :: bool where
  "ReadWriteRouter_CommitAndRollbackGoToPrimary \<longleftrightarrow>
     select_role COMMIT in_txn = PRIMARY \<and> select_role ROLLBACK in_txn = PRIMARY \<and>
     select_role COMMIT fresh = PRIMARY"

definition ReadWriteRouter_SetAndUseGoToPrimary :: bool where
  "ReadWriteRouter_SetAndUseGoToPrimary \<longleftrightarrow> select_role SET fresh = PRIMARY \<and> select_role USE fresh = PRIMARY"

definition ReadWriteRouter_UnknownGoesToPrimary :: bool where
  "ReadWriteRouter_UnknownGoesToPrimary \<longleftrightarrow> select_role UNKNOWN fresh = PRIMARY"

definition ReadWriteRouter_TransactionForcesPrimaryRegardlessOfType :: bool where
  "ReadWriteRouter_TransactionForcesPrimaryRegardlessOfType \<longleftrightarrow>
     select_role SELECT in_txn = PRIMARY \<and> select_role INSERT in_txn = PRIMARY"

lemma read_write_router_tests:
  ReadWriteRouter_SelectGoesToReplica
  ReadWriteRouter_WritesGoToPrimary
  ReadWriteRouter_BeginPinsToPrimary
  ReadWriteRouter_SelectInsideTransactionGoesToPrimary
  ReadWriteRouter_CommitAndRollbackGoToPrimary
  ReadWriteRouter_SetAndUseGoToPrimary
  ReadWriteRouter_UnknownGoesToPrimary
  ReadWriteRouter_TransactionForcesPrimaryRegardlessOfType
  by code_simp+

section \<open>Schema registry\<close>

definition sr_test_schema :: "string \<Rightarrow> string \<Rightarrow> SchemaConfig" where
  "sr_test_schema name g = default_SchemaConfig\<lparr>sc_name := name, sc_backend_group := g\<rparr>"

definition SchemaRegistry_LookupHit :: bool where
  "SchemaRegistry_LookupHit \<longleftrightarrow>
     (let reg = sr_load [sr_test_schema ''billing'' ''prod'', sr_test_schema ''analytics'' ''analytics''] sr_new
      in map_option sc_backend_group (sr_lookup reg ''billing'') = Some ''prod'')"

definition SchemaRegistry_LookupMissFallsBackToDefault :: bool where
  "SchemaRegistry_LookupMissFallsBackToDefault \<longleftrightarrow>
     (let reg = sr_load [sr_test_schema ''default'' ''prod'', sr_test_schema ''billing'' ''billing_grp''] sr_new;
          c = sr_lookup reg ''nonexistent''
      in map_option sc_name c = Some ''default'' \<and> map_option sc_backend_group c = Some ''prod'')"

definition SchemaRegistry_LookupMissWithoutDefaultReturnsNull :: bool where
  "SchemaRegistry_LookupMissWithoutDefaultReturnsNull \<longleftrightarrow>
     sr_lookup (sr_load [sr_test_schema ''billing'' ''prod''] sr_new) ''nope'' = None"

definition SchemaRegistry_LookupByStringViewDoesNotRequireString :: bool where
  "SchemaRegistry_LookupByStringViewDoesNotRequireString \<longleftrightarrow>
     sr_lookup (sr_load [sr_test_schema ''billing'' ''prod''] sr_new) ''billing'' \<noteq> None"

definition SchemaRegistry_UpsertInsertsAndUpdates :: bool where
  "SchemaRegistry_UpsertInsertsAndUpdates \<longleftrightarrow>
     (let reg = sr_load [sr_test_schema ''billing'' ''prod''] sr_new;
          reg1 = sr_upsert (sr_test_schema ''analytics'' ''analytics'') reg;
          reg2 = sr_upsert (sr_test_schema ''billing'' ''new_group'') reg1
      in sr_lookup reg1 ''analytics'' \<noteq> None \<and> sr_size reg1 = 2 \<and>
         map_option sc_backend_group (sr_lookup reg2 ''billing'') = Some ''new_group'' \<and> sr_size reg2 = 2)"

definition SchemaRegistry_RemoveDeletesSchema :: bool where
  "SchemaRegistry_RemoveDeletesSchema \<longleftrightarrow>
     (let reg = sr_load [sr_test_schema ''billing'' ''prod'', sr_test_schema ''analytics'' ''a''] sr_new;
          reg1 = sr_remove ''analytics'' reg
      in sr_lookup reg1 ''analytics'' = None \<and> sr_size reg1 = 1)"

definition SchemaRegistry_RemoveDefaultIsNoOp :: bool where
  "SchemaRegistry_RemoveDefaultIsNoOp \<longleftrightarrow>
     sr_lookup (sr_remove ''default'' (sr_load [sr_test_schema ''default'' ''prod''] sr_new)) ''default'' \<noteq> None"

definition SchemaRegistry_VersionIncrementsOnMutation :: bool where
  "SchemaRegistry_VersionIncrementsOnMutation \<longleftrightarrow>
     (let v0 = sr_version sr_new;
          reg = sr_load [sr_test_schema ''billing'' ''prod''] sr_new;
          v1 = sr_version reg
      in v1 > v0 \<and> sr_version (sr_upsert (sr_test_schema ''x'' ''y'') reg) > v1)"

definition SchemaRegistry_SnapshotReturnsAll :: "((string \<times> SchemaConfig) list \<Rightarrow> (string \<times> SchemaConfig) list) \<Rightarrow> bool" where
  "SchemaRegistry_SnapshotReturnsAll it \<longleftrightarrow>
     length (sr_snapshot it (sr_load [sr_test_schema ''a'' ''g1'', sr_test_schema ''b'' ''g2'',
       sr_test_schema ''c'' ''g3''] sr_new)) = 3"

text \<open>The writer of the concurrent test; its readers leave the registry as it is. What they read through their pointers is the
  subject of \<open>SchemaThreads\<close>.\<close>

definition SchemaRegistry_ConcurrentReadersAndWriter :: bool where
  "SchemaRegistry_ConcurrentReadersAndWriter \<longleftrightarrow>
     (let reg = sr_load [sr_test_schema ''default'' ''prod'', sr_test_schema ''billing'' ''prod''] sr_new
      in sr_lookup (fold (\<lambda>i. sr_upsert (sr_test_schema ''billing'' (''grp'' @ to_digits i))) [0..<2000] reg)
           ''billing'' \<noteq> None)"

lemma find_after_upserts: "sr_find r k \<noteq> None \<Longrightarrow> sr_find (fold (\<lambda>i. sr_upsert (f i)) is r) k \<noteq> None"
  by (induction "is" arbitrary: r) (simp_all add: sr_find_upsert)

lemma schema_registry_tests:
  SchemaRegistry_LookupHit
  SchemaRegistry_LookupMissFallsBackToDefault
  SchemaRegistry_LookupMissWithoutDefaultReturnsNull
  SchemaRegistry_LookupByStringViewDoesNotRequireString
  SchemaRegistry_UpsertInsertsAndUpdates
  SchemaRegistry_RemoveDeletesSchema
  SchemaRegistry_RemoveDefaultIsNoOp
  SchemaRegistry_VersionIncrementsOnMutation
  by code_simp+

lemma schema_snapshot_test: "(\<And>xs. length (it xs) = length xs) \<Longrightarrow> SchemaRegistry_SnapshotReturnsAll it"
  by (simp add: SchemaRegistry_SnapshotReturnsAll_def sr_snapshot_def sr_load_def emplace_def
      sr_test_schema_def sr_new_def default_SchemaConfig_def)

lemma schema_concurrent_test: SchemaRegistry_ConcurrentReadersAndWriter
proof -
  let ?r = "sr_load [sr_test_schema ''default'' ''prod'', sr_test_schema ''billing'' ''prod''] sr_new"
  have "sr_find ?r ''billing'' \<noteq> None" by code_simp
  then have "sr_find (fold (\<lambda>i. sr_upsert (sr_test_schema ''billing'' (''grp'' @ to_digits i))) [0..<2000] ?r) ''billing'' \<noteq> None"
    by (rule find_after_upserts)
  then show ?thesis unfolding SchemaRegistry_ConcurrentReadersAndWriter_def Let_def sr_lookup_def by auto
qed

section \<open>Backend registry\<close>

definition br_test_backend :: "string \<Rightarrow> string \<Rightarrow> BackendRole \<Rightarrow> BackendConfig" where
  "br_test_backend k g role = default_BackendConfig\<lparr>bc_id := k, bc_host := ''10.0.0.1'', bc_port := 3306,
     bc_group := g, bc_role := role, bc_user := ''dbmesh''\<rparr>"

definition BackendRegistry_GetByIdHitAndMiss :: "id_order \<Rightarrow> bool" where
  "BackendRegistry_GetByIdHitAndMiss it \<longleftrightarrow>
     (let reg = br_run it [Load [br_test_backend ''p'' ''prod'' PRIMARY]]
      in map_option be_group (reg_map reg ''p'') = Some ''prod'' \<and> br_get reg ''absent'' = None)"

definition BackendRegistry_GetGroupReturnsAllMembers :: "id_order \<Rightarrow> bool" where
  "BackendRegistry_GetGroupReturnsAllMembers it \<longleftrightarrow>
     (let reg = br_run it [Load [br_test_backend ''p'' ''prod'' PRIMARY, br_test_backend ''r1'' ''prod'' REPLICA,
            br_test_backend ''r2'' ''prod'' REPLICA, br_test_backend ''a'' ''analytics'' PRIMARY]]
      in length (br_get_group reg ''prod'') = 3 \<and> length (br_get_group reg ''analytics'') = 1 \<and>
         length (br_get_group reg ''nope'') = 0)"

definition BackendRegistry_GetGroupByRoleFilters :: "id_order \<Rightarrow> bool" where
  "BackendRegistry_GetGroupByRoleFilters it \<longleftrightarrow>
     (let reg = br_run it [Load [br_test_backend ''p'' ''prod'' PRIMARY, br_test_backend ''r1'' ''prod'' REPLICA,
            br_test_backend ''r2'' ''prod'' REPLICA]]
      in length (br_get_group_by_role reg ''prod'' PRIMARY) = 1 \<and>
         length (br_get_group_by_role reg ''prod'' REPLICA) = 2)"

definition BackendRegistry_AddAndRemove :: "id_order \<Rightarrow> bool" where
  "BackendRegistry_AddAndRemove it \<longleftrightarrow>
     (let ops = [Load [br_test_backend ''p'' ''prod'' PRIMARY], Add (br_test_backend ''r1'' ''prod'' REPLICA)];
          reg = br_run it ops; reg1 = br_run it (ops @ [Remove ''r1''])
      in length (br_get_group reg ''prod'') = 2 \<and> br_get reg ''r1'' \<noteq> None \<and>
         br_get reg1 ''r1'' = None \<and> length (br_get_group reg1 ''prod'') = 1)"

definition BackendRegistry_UpdateStateIsVisible :: "id_order \<Rightarrow> bool" where
  "BackendRegistry_UpdateStateIsVisible it \<longleftrightarrow>
     (let ops = [Load [br_test_backend ''p'' ''prod'' PRIMARY]]
      in map_option be_state (reg_map (br_run it ops) ''p'') = Some HEALTHY \<and>
         map_option be_state (reg_map (br_run it (ops @ [UpdateState ''p'' FAILED])) ''p'') = Some FAILED)"

definition BackendRegistry_UpdateRoleReflectedInRoleQuery :: "id_order \<Rightarrow> bool" where
  "BackendRegistry_UpdateRoleReflectedInRoleQuery it \<longleftrightarrow>
     (let reg = br_run it [Load [br_test_backend ''p'' ''prod'' PRIMARY, br_test_backend ''r1'' ''prod'' REPLICA],
            UpdateRole ''r1'' PRIMARY]
      in length (br_get_group_by_role reg ''prod'' PRIMARY) = 2 \<and>
         length (br_get_group_by_role reg ''prod'' REPLICA) = 0)"

definition BackendRegistry_UpdateLag :: "id_order \<Rightarrow> bool" where
  "BackendRegistry_UpdateLag it \<longleftrightarrow>
     (let reg = br_run it [Load [br_test_backend ''r1'' ''prod'' REPLICA], UpdateLag ''r1'' 1234]
      in map_option be_replication_lag_ms (reg_map reg ''r1'') = Some 1234)"

definition BackendRegistry_VersionIncrements :: "id_order \<Rightarrow> bool" where
  "BackendRegistry_VersionIncrements it \<longleftrightarrow>
     (let v0 = br_version br_new;
          ops = [Load [br_test_backend ''p'' ''prod'' PRIMARY]];
          v1 = br_version (br_run it ops)
      in v1 > v0 \<and> br_version (br_run it (ops @ [UpdateState ''p'' DEGRADED])) > v1)"

text \<open>The writer of the concurrent test: 2000 state updates, with an addition at every hundredth.\<close>

definition concurrent_ops :: "nat \<Rightarrow> br_op list" where
  "concurrent_ops i = UpdateState ''r1'' (if i mod 2 \<noteq> 0 then DEGRADED else HEALTHY) #
     (if i mod 100 = 0 then [Add (br_test_backend (''tmp'' @ to_digits i) ''prod'' REPLICA)] else [])"

definition BackendRegistry_ConcurrentStateUpdatesAndReaders :: "id_order \<Rightarrow> bool" where
  "BackendRegistry_ConcurrentStateUpdatesAndReaders it \<longleftrightarrow>
     (let reg = br_run it (Load [br_test_backend ''p'' ''prod'' PRIMARY, br_test_backend ''r1'' ''prod'' REPLICA] #
            concat (map concurrent_ops [0..<2000]))
      in br_get reg ''r1'' \<noteq> None)"

text \<open>A run of the registry, evaluated: everything but the group index is independent of the order.\<close>

lemmas run_registry = br_run_def br_load_def br_add_def br_remove_def br_update_state_def br_update_role_def
  br_update_lag_def br_get_def modify_def reg_map_def alloc_def emplace_def BackendEntry_of_def br_new_def
  all_entries_def entries_def map_filter_simps br_test_backend_def default_BackendConfig_def Let_def

lemma keeps_backend:
  assumes "br_wf r" "permutes_entries it" "\<forall>op \<in> set ops. (\<forall>bs. op \<noteq> Load bs) \<and> (\<forall>k. op \<noteq> Remove k)" "reg_map r k \<noteq> None"
  shows "reg_map (fold (br_apply it) ops r) k \<noteq> None"
  using assms
proof (induction ops arbitrary: r)
  case (Cons op ops)
  have "reg_map (br_apply it op r) k \<noteq> None"
    using Cons.prems by (cases op) (auto simp: reg_map_apply simp del: br_apply.simps)
  with Cons show ?case by (simp add: br_wf_apply)
qed simp

lemma backend_registry_lookup_tests:
  "BackendRegistry_GetByIdHitAndMiss it"
  "BackendRegistry_UpdateStateIsVisible it"
  "BackendRegistry_UpdateLag it"
  "BackendRegistry_VersionIncrements it"
  by (simp_all add: BackendRegistry_GetByIdHitAndMiss_def BackendRegistry_UpdateStateIsVisible_def
      BackendRegistry_UpdateLag_def BackendRegistry_VersionIncrements_def run_registry)

lemma backend_registry_group_tests:
  assumes "permutes_entries it"
  shows "BackendRegistry_GetGroupReturnsAllMembers it"
    and "BackendRegistry_GetGroupByRoleFilters it"
    and "BackendRegistry_AddAndRemove it"
    and "BackendRegistry_UpdateRoleReflectedInRoleQuery it"
  unfolding BackendRegistry_GetGroupReturnsAllMembers_def BackendRegistry_GetGroupByRoleFilters_def
    BackendRegistry_AddAndRemove_def BackendRegistry_UpdateRoleReflectedInRoleQuery_def
    Let_def length_group [OF br_wf_run [OF assms]]
  by (simp_all add: run_registry)

lemma backend_registry_concurrent_test:
  assumes "permutes_entries it"
  shows "BackendRegistry_ConcurrentStateUpdatesAndReaders it"
proof -
  let ?load = "Load [br_test_backend ''p'' ''prod'' PRIMARY, br_test_backend ''r1'' ''prod'' REPLICA]"
  let ?ops = "concat (map concurrent_ops [0..<2000])"
  have "br_wf (br_apply it ?load br_new)" by (rule br_wf_apply [OF assms br_wf_new])
  moreover have "\<forall>op \<in> set ?ops. (\<forall>bs. op \<noteq> Load bs) \<and> (\<forall>k. op \<noteq> Remove k)"
    by (auto simp: concurrent_ops_def split: if_splits)
  moreover have "reg_map (br_apply it ?load br_new) ''r1'' \<noteq> None" by (simp add: run_registry)
  ultimately have "reg_map (br_run it (?load # ?ops)) ''r1'' \<noteq> None"
    unfolding br_run_def fold_simps comp_def using keeps_backend assms by blast
  then show ?thesis by (auto simp: BackendRegistry_ConcurrentStateUpdatesAndReaders_def Let_def reg_map_def bind_eq_Some_conv)
qed

section \<open>Policies and selector\<close>

definition sel_backend :: "string \<Rightarrow> string \<Rightarrow> BackendRole \<Rightarrow> BackendConfig" where
  "sel_backend k g role = default_BackendConfig\<lparr>bc_id := k, bc_host := ''10.0.0.1'', bc_port := 3306,
     bc_group := g, bc_role := role, bc_user := ''dbmesh'', bc_weight := 100\<rparr>"

definition sel_schema :: "string \<Rightarrow> RoutingPolicy option \<Rightarrow> SchemaConfig" where
  "sel_schema g policy = default_SchemaConfig\<lparr>sc_name := ''billing'', sc_backend_group := g, sc_routing_policy := policy\<rparr>"

definition sel_defaults :: RoutingConfig where
  "sel_defaults = default_RoutingConfig\<lparr>rt_default_policy := ROUND_ROBIN, rt_replication_aware := True,
     rt_max_replica_lag_ms := 500\<rparr>"

text \<open>The candidates that the policy tests take from a registry of replicas of one group.\<close>

definition replicas :: "id_order \<Rightarrow> br_op list \<Rightarrow> BackendEntry list" where
  "replicas it ops = (let reg = br_run it ops in entries reg (br_get_group_by_role reg ''g'' REPLICA))"

definition RoutingPolicies_RoundRobinDistributesEvenly :: "id_order \<Rightarrow> bool" where
  "RoutingPolicies_RoundRobinDistributesEvenly it \<longleftrightarrow>
     (let candidates = replicas it [Load [sel_backend ''r1'' ''g'' REPLICA, sel_backend ''r2'' ''g'' REPLICA]];
          chosen = rr_run 100 0 candidates
      in count_list chosen ''r1'' = 50 \<and> count_list chosen ''r2'' = 50)"

definition RoutingPolicies_EmptyCandidatesReturnsEmpty :: bool where
  "RoutingPolicies_EmptyCandidatesReturnsEmpty \<longleftrightarrow> fst (policy_select ROUND_ROBIN 0 no_context 0 []) = []"

definition RoutingPolicies_SingleCandidateAlwaysChosen :: "id_order \<Rightarrow> nat \<Rightarrow> bool" where
  "RoutingPolicies_SingleCandidateAlwaysChosen it raw \<longleftrightarrow>
     (let candidates = replicas it [Load [sel_backend ''only'' ''g'' REPLICA]]
      in list_all (\<lambda>p. fst (policy_select p raw no_context 0 candidates) = ''only'')
           [ROUND_ROBIN, RANDOM, WEIGHTED, FAILOVER])"

definition RoutingPolicies_LeastConnectionsPicksMinimum :: "id_order \<Rightarrow> nat \<Rightarrow> bool" where
  "RoutingPolicies_LeastConnectionsPicksMinimum it raw \<longleftrightarrow>
     (let candidates = replicas it [Load [sel_backend ''a'' ''g'' REPLICA, sel_backend ''b'' ''g'' REPLICA,
            sel_backend ''c'' ''g'' REPLICA]];
          ctx = no_context\<lparr>active_connections := Some (\<lambda>k. if k = ''a'' then 5 else if k = ''b'' then 2 else 8)\<rparr>
      in fst (policy_select LEAST_CONNECTIONS raw ctx 0 candidates) = ''b'')"

definition RoutingPolicies_FailoverSkipsFailed :: "id_order \<Rightarrow> nat \<Rightarrow> bool" where
  "RoutingPolicies_FailoverSkipsFailed it raw \<longleftrightarrow>
     (let candidates = replicas it [Load [sel_backend ''primary'' ''g'' REPLICA, sel_backend ''standby'' ''g'' REPLICA],
            UpdateState ''primary'' FAILED]
      in fst (policy_select FAILOVER raw no_context 0 candidates) = ''standby'')"

text \<open>What a fresh selector over a registry returns.\<close>

definition selected :: "id_order \<Rightarrow> br_op list \<Rightarrow> nat \<Rightarrow> counters \<Rightarrow> SchemaConfig \<Rightarrow> BackendRole
    \<Rightarrow> (BackendID, RoutingError) result" where
  "selected it ops raw cnt schema role = fst (select (br_run it ops) sel_defaults raw no_context cnt schema role)"

definition prod_pair :: "br_op list" where
  "prod_pair = [Load [sel_backend ''p'' ''prod'' PRIMARY, sel_backend ''r1'' ''prod'' REPLICA]]"

definition BackendSelector_RoutesReplicaRoleToReplica :: "id_order \<Rightarrow> nat \<Rightarrow> counters \<Rightarrow> bool" where
  "BackendSelector_RoutesReplicaRoleToReplica it raw cnt \<longleftrightarrow>
     selected it prod_pair raw cnt (sel_schema ''prod'' None) REPLICA = Ok ''r1''"

definition BackendSelector_RoutesPrimaryRoleToPrimary :: "id_order \<Rightarrow> nat \<Rightarrow> counters \<Rightarrow> bool" where
  "BackendSelector_RoutesPrimaryRoleToPrimary it raw cnt \<longleftrightarrow>
     selected it prod_pair raw cnt (sel_schema ''prod'' None) PRIMARY = Ok ''p''"

definition BackendSelector_FallsBackToPrimaryWhenNoHealthyReplica :: "id_order \<Rightarrow> nat \<Rightarrow> counters \<Rightarrow> bool" where
  "BackendSelector_FallsBackToPrimaryWhenNoHealthyReplica it raw cnt \<longleftrightarrow>
     selected it (prod_pair @ [UpdateState ''r1'' FAILED]) raw cnt (sel_schema ''prod'' None) REPLICA = Ok ''p''"

text \<open>The ten selections of the test differ in the counters only.\<close>

definition BackendSelector_ExcludesReplicaExceedingLag :: "id_order \<Rightarrow> nat \<Rightarrow> counters \<Rightarrow> bool" where
  "BackendSelector_ExcludesReplicaExceedingLag it raw cnt \<longleftrightarrow>
     selected it [Load [sel_backend ''p'' ''prod'' PRIMARY, sel_backend ''r1'' ''prod'' REPLICA,
         sel_backend ''r2'' ''prod'' REPLICA], UpdateLag ''r1'' 1000, UpdateLag ''r2'' 10]
       raw cnt (sel_schema ''prod'' None) REPLICA = Ok ''r2''"

definition BackendSelector_NoBackendsInGroupIsError :: "id_order \<Rightarrow> nat \<Rightarrow> counters \<Rightarrow> bool" where
  "BackendSelector_NoBackendsInGroupIsError it raw cnt \<longleftrightarrow>
     selected it [Load [sel_backend ''p'' ''prod'' PRIMARY]] raw cnt (sel_schema ''nonexistent_group'' None) PRIMARY =
       Err NO_BACKEND_AVAILABLE"

definition BackendSelector_AllReplicasFailedAndNoPrimaryIsError :: "id_order \<Rightarrow> nat \<Rightarrow> counters \<Rightarrow> bool" where
  "BackendSelector_AllReplicasFailedAndNoPrimaryIsError it raw cnt \<longleftrightarrow>
     selected it [Load [sel_backend ''r1'' ''prod'' REPLICA], UpdateState ''r1'' FAILED] raw cnt
       (sel_schema ''prod'' None) REPLICA = Err NO_BACKEND_AVAILABLE"

definition BackendSelector_SchemaPolicyOverridesDefault :: "id_order \<Rightarrow> nat \<Rightarrow> counters \<Rightarrow> bool" where
  "BackendSelector_SchemaPolicyOverridesDefault it raw cnt \<longleftrightarrow>
     selected it [Load [sel_backend ''r1'' ''prod'' REPLICA, sel_backend ''r2'' ''prod'' REPLICA], UpdateState ''r1'' FAILED]
       raw cnt (sel_schema ''prod'' (Some FAILOVER)) REPLICA = Ok ''r2''"

definition BackendSelector_DegradedReplicaExcludedFromReads :: "id_order \<Rightarrow> nat \<Rightarrow> counters \<Rightarrow> bool" where
  "BackendSelector_DegradedReplicaExcludedFromReads it raw cnt \<longleftrightarrow>
     selected it (prod_pair @ [UpdateState ''r1'' DEGRADED]) raw cnt (sel_schema ''prod'' None) REPLICA = Ok ''p''"

lemmas run_selector = run_registry sel_backend_def prod_pair_def

lemma mset_replicas:
  assumes "permutes_entries it"
  shows "mset (replicas it ops) = mset (filter (\<lambda>e. be_group e = ''g'' \<and> be_role e = REPLICA) (all_entries (br_run it ops)))"
  unfolding replicas_def Let_def by (rule entries_group_by_role [OF br_wf_run [OF assms]])

lemma mset_pairE:
  assumes "mset xs = {#a, b#}"
  obtains "xs = [a, b]" | "xs = [b, a]"
proof -
  from assms have "length xs = 2" by (metis size_mset size_add_mset size_empty numeral_2_eq_2)
  then obtain x y where "xs = [x, y]" by (auto simp: length_Suc_conv numeral_2_eq_2)
  with assms that show ?thesis by (auto simp: add_eq_conv_ex)
qed

lemma policy_tests:
  assumes "permutes_entries it"
  shows "RoutingPolicies_RoundRobinDistributesEvenly it"
    and "RoutingPolicies_EmptyCandidatesReturnsEmpty"
    and "RoutingPolicies_SingleCandidateAlwaysChosen it raw"
    and "RoutingPolicies_FailoverSkipsFailed it raw"
proof -
  let ?rs = "[Load [sel_backend ''r1'' ''g'' REPLICA, sel_backend ''r2'' ''g'' REPLICA]]"
  have ids: "mset (map be_id (replicas it ?rs)) = mset [''r1'', ''r2'']"
    unfolding mset_map mset_replicas [OF assms] by (simp add: run_selector)
  from mset_eq_length [OF ids] have l: "length (replicas it ?rs) = 2" by simp
  then have "replicas it ?rs \<noteq> []" by auto
  from rr_run_windows [OF this, of 0 50] ids l
  have "mset (rr_run 100 0 (replicas it ?rs)) = repeat_mset 50 {#''r1'', ''r2''#}" by simp
  then show "RoutingPolicies_RoundRobinDistributesEvenly it"
    by (simp add: RoutingPolicies_RoundRobinDistributesEvenly_def Let_def flip: count_mset)
  show "RoutingPolicies_EmptyCandidatesReturnsEmpty"
    by (simp add: RoutingPolicies_EmptyCandidatesReturnsEmpty_def round_robin_select_def)
  have "mset (replicas it [Load [sel_backend ''only'' ''g'' REPLICA]]) = {#BackendEntry_of (sel_backend ''only'' ''g'' REPLICA)#}"
    unfolding mset_replicas [OF assms] by (simp add: run_selector)
  then have "replicas it [Load [sel_backend ''only'' ''g'' REPLICA]] = [BackendEntry_of (sel_backend ''only'' ''g'' REPLICA)]"
    by simp
  then show "RoutingPolicies_SingleCandidateAlwaysChosen it raw"
    using pol0.total_member [of "[BackendEntry_of (sel_backend ''only'' ''g'' REPLICA)]" _ raw 0]
    by (simp add: RoutingPolicies_SingleCandidateAlwaysChosen_def Let_def sel_backend_def del: policy_select.simps)
  let ?fs = "[Load [sel_backend ''primary'' ''g'' REPLICA, sel_backend ''standby'' ''g'' REPLICA], UpdateState ''primary'' FAILED]"
  have "mset (replicas it ?fs) = {#(BackendEntry_of (sel_backend ''primary'' ''g'' REPLICA))\<lparr>be_state := FAILED\<rparr>,
      BackendEntry_of (sel_backend ''standby'' ''g'' REPLICA)#}"
    unfolding mset_replicas [OF assms] by (simp add: run_selector)
  then show "RoutingPolicies_FailoverSkipsFailed it raw"
    by (rule mset_pairE) (simp_all add: RoutingPolicies_FailoverSkipsFailed_def failover_select_def BackendEntry_of_def sel_backend_def)
qed

lemma least_connections_test:
  assumes "permutes_entries it"
  shows "RoutingPolicies_LeastConnectionsPicksMinimum it raw"
proof -
  let ?ls = "[Load [sel_backend ''a'' ''g'' REPLICA, sel_backend ''b'' ''g'' REPLICA, sel_backend ''c'' ''g'' REPLICA]]"
  have "mset (map be_id (replicas it ?ls)) = mset [''a'', ''b'', ''c'']"
    unfolding mset_map mset_replicas [OF assms] by (simp add: run_selector)
  from mset_eq_setD [OF this] have ids: "be_id ` set (replicas it ?ls) = {''a'', ''b'', ''c''}" by simp
  let ?sig = "\<lambda>k. if k = ''a'' then 5 else if k = ''b'' then 2 else 8 :: u64"
  from ids have "''b'' \<in> be_id ` set (replicas it ?ls)" by simp
  then obtain eb where eb: "eb \<in> set (replicas it ?ls)" "be_id eb = ''b''" by (elim imageE) auto
  then have "\<exists>e \<in> set (replicas it ?ls). ?sig (be_id e) < - 1" by (intro bexI [of _ eb]) simp_all
  from least_loop_min [OF this, of "[]"] obtain e where e: "e \<in> set (replicas it ?ls)"
    "least_loop ?sig [] (- 1) (replicas it ?ls) = be_id e" "\<forall>e' \<in> set (replicas it ?ls). ?sig (be_id e) \<le> ?sig (be_id e')"
    by blast
  from bspec [OF e(3) eb(1)] eb(2) have "?sig (be_id e) \<le> 2" by simp
  moreover from e(1) ids have "be_id e \<in> {''a'', ''b'', ''c''}" by blast
  ultimately have "least_loop ?sig [] (- 1) (replicas it ?ls) = ''b''" unfolding e(2) by auto
  moreover from eb(1) have "replicas it ?ls \<noteq> []" by (intro notI) simp
  ultimately show "RoutingPolicies_LeastConnectionsPicksMinimum it raw"
    by (simp add: RoutingPolicies_LeastConnectionsPicksMinimum_def Let_def least_connections_select_def signal_select_def)
qed

lemma serving_list:
  "serving reg routing schema role =
    (let el = (\<lambda>role. filter (eligible routing (sc_backend_group schema) role) (all_entries reg))
     in set (if role = REPLICA \<and> el REPLICA = [] then el PRIMARY else el role))"
  by (auto simp: serving_def Let_def filter_empty_conv)

lemma selected_serves:
  assumes "permutes_entries it" and "\<forall>e \<in> set (all_entries (br_run it ops)). be_id e \<noteq> []"
  shows "be_id ` serving (br_run it ops) sel_defaults schema role = {b} \<Longrightarrow> selected it ops raw cnt schema role = Ok b"
    and "serving (br_run it ops) sel_defaults schema role = {} \<Longrightarrow> selected it ops raw cnt schema role = Err NO_BACKEND_AVAILABLE"
  using select_available [OF br_wf_run [OF assms(1)] assms(2), of sel_defaults schema role raw cnt]
  by (auto simp: selected_def split: if_splits)

lemmas eval_serving = serving_list eligible_def usable_for_role_def sel_defaults_def default_RoutingConfig_def
  sel_schema_def default_SchemaConfig_def run_selector

lemma backend_selector_tests:
  assumes "permutes_entries it"
  shows "BackendSelector_RoutesReplicaRoleToReplica it raw cnt"
    and "BackendSelector_RoutesPrimaryRoleToPrimary it raw cnt"
    and "BackendSelector_FallsBackToPrimaryWhenNoHealthyReplica it raw cnt"
    and "BackendSelector_ExcludesReplicaExceedingLag it raw cnt"
    and "BackendSelector_SchemaPolicyOverridesDefault it raw cnt"
    and "BackendSelector_DegradedReplicaExcludedFromReads it raw cnt"
  unfolding BackendSelector_RoutesReplicaRoleToReplica_def BackendSelector_RoutesPrimaryRoleToPrimary_def
    BackendSelector_FallsBackToPrimaryWhenNoHealthyReplica_def BackendSelector_ExcludesReplicaExceedingLag_def
    BackendSelector_SchemaPolicyOverridesDefault_def BackendSelector_DegradedReplicaExcludedFromReads_def
  by (rule selected_serves(1) [OF assms]; simp add: eval_serving)+

lemma backend_selector_error_tests:
  assumes "permutes_entries it"
  shows "BackendSelector_NoBackendsInGroupIsError it raw cnt"
    and "BackendSelector_AllReplicasFailedAndNoPrimaryIsError it raw cnt"
  unfolding BackendSelector_NoBackendsInGroupIsError_def BackendSelector_AllReplicasFailedAndNoPrimaryIsError_def
  by (rule selected_serves(2) [OF assms]; simp add: eval_serving)+

section \<open>Routing engine\<close>

definition eng_backend :: "string \<Rightarrow> string \<Rightarrow> BackendRole \<Rightarrow> BackendConfig" where
  "eng_backend k g role = default_BackendConfig\<lparr>bc_id := k, bc_host := ''10.0.0.1'', bc_port := 3306,
     bc_group := g, bc_role := role, bc_user := ''dbmesh''\<rparr>"

definition eng_schema :: "string \<Rightarrow> string \<Rightarrow> bool option \<Rightarrow> SchemaConfig" where
  "eng_schema name g rw_split = default_SchemaConfig\<lparr>sc_name := name, sc_backend_group := g, sc_read_write_split := rw_split\<rparr>"

definition eng_defaults :: RoutingConfig where
  "eng_defaults = default_RoutingConfig\<lparr>rt_default_policy := ROUND_ROBIN, rt_read_write_split := True,
     rt_replication_aware := True, rt_max_replica_lag_ms := 500\<rparr>"

text \<open>The fixture.\<close>

definition eng_load :: br_op where
  "eng_load = Load [eng_backend ''prod-primary'' ''prod'' PRIMARY, eng_backend ''prod-replica-01'' ''prod'' REPLICA,
     eng_backend ''prod-replica-02'' ''prod'' REPLICA, eng_backend ''analytics-primary'' ''analytics'' PRIMARY]"

definition eng_schemas :: SchemaRegistry where
  "eng_schemas = sr_load [eng_schema ''default'' ''prod'' None, eng_schema ''billing'' ''prod'' None,
     eng_schema ''analytics'' ''analytics'' (Some False)] sr_new"

definition eng_session :: "string \<Rightarrow> SessionView" where
  "eng_session cur = \<lparr>sv_current_schema = cur, sv_in_transaction = False, sv_autocommit = True, sv_pinned_backend = None\<rparr>"

definition eng_plan :: "id_order \<Rightarrow> br_op list \<Rightarrow> SchemaRegistry \<Rightarrow> nat \<Rightarrow> counters \<Rightarrow> string \<Rightarrow> SessionView
    \<Rightarrow> (RoutePlan, RoutingError) result" where
  "eng_plan it ops schemas raw cnt sql session =
     fst (plan schemas (br_run it ops) eng_defaults raw no_context cnt sql session)"

definition RoutingEngine_RoutesSelectToReplica :: "id_order \<Rightarrow> nat \<Rightarrow> counters \<Rightarrow> bool" where
  "RoutingEngine_RoutesSelectToReplica it raw cnt \<longleftrightarrow>
     (case eng_plan it [eng_load] eng_schemas raw cnt ''SELECT * FROM billing.users'' (eng_session []) of
        Err _ \<Rightarrow> False
      | Ok p \<Rightarrow> rp_query_type p = SELECT \<and> rp_schema p = ''billing'' \<and> rp_role p = REPLICA \<and>
          (rp_backend_id p = ''prod-replica-01'' \<or> rp_backend_id p = ''prod-replica-02''))"

definition RoutingEngine_RoutesInsertToPrimary :: "id_order \<Rightarrow> nat \<Rightarrow> counters \<Rightarrow> bool" where
  "RoutingEngine_RoutesInsertToPrimary it raw cnt \<longleftrightarrow>
     (case eng_plan it [eng_load] eng_schemas raw cnt ''INSERT INTO billing.orders (id) VALUES (1)'' (eng_session []) of
        Err _ \<Rightarrow> False
      | Ok p \<Rightarrow> rp_query_type p = INSERT \<and> rp_role p = PRIMARY \<and> rp_backend_id p = ''prod-primary'')"

definition RoutingEngine_UsesSessionSchemaWhenSqlUnqualified :: "id_order \<Rightarrow> nat \<Rightarrow> counters \<Rightarrow> bool" where
  "RoutingEngine_UsesSessionSchemaWhenSqlUnqualified it raw cnt \<longleftrightarrow>
     (case eng_plan it [eng_load] eng_schemas raw cnt ''SELECT * FROM users'' (eng_session ''billing'') of
        Err _ \<Rightarrow> False
      | Ok p \<Rightarrow> rp_schema p = ''billing'' \<and> rp_role p = REPLICA)"

definition RoutingEngine_UnknownSchemaFallsBackToDefault :: "id_order \<Rightarrow> nat \<Rightarrow> counters \<Rightarrow> bool" where
  "RoutingEngine_UnknownSchemaFallsBackToDefault it raw cnt \<longleftrightarrow>
     (case eng_plan it [eng_load] eng_schemas raw cnt ''SELECT * FROM mystery.things'' (eng_session []) of
        Err _ \<Rightarrow> False
      | Ok p \<Rightarrow> rp_role p = REPLICA \<and>
          (rp_backend_id p = ''prod-replica-01'' \<or> rp_backend_id p = ''prod-replica-02''))"

definition RoutingEngine_SchemaWithReadWriteSplitDisabledRoutesReadsToPrimary :: "id_order \<Rightarrow> nat \<Rightarrow> counters \<Rightarrow> bool" where
  "RoutingEngine_SchemaWithReadWriteSplitDisabledRoutesReadsToPrimary it raw cnt \<longleftrightarrow>
     (case eng_plan it [eng_load] eng_schemas raw cnt ''SELECT * FROM events'' (eng_session ''analytics'') of
        Err _ \<Rightarrow> False
      | Ok p \<Rightarrow> rp_role p = PRIMARY \<and> rp_backend_id p = ''analytics-primary'')"

definition RoutingEngine_SelectInTransactionGoesToPrimary :: "id_order \<Rightarrow> nat \<Rightarrow> counters \<Rightarrow> bool" where
  "RoutingEngine_SelectInTransactionGoesToPrimary it raw cnt \<longleftrightarrow>
     (case eng_plan it [eng_load] eng_schemas raw cnt ''SELECT * FROM users'' ((eng_session ''billing'')\<lparr>sv_in_transaction := True\<rparr>) of
        Err _ \<Rightarrow> False
      | Ok p \<Rightarrow> rp_role p = PRIMARY \<and> rp_backend_id p = ''prod-primary'')"

definition RoutingEngine_PinnedBackendHonouredForPrimaryWork :: "id_order \<Rightarrow> nat \<Rightarrow> counters \<Rightarrow> bool" where
  "RoutingEngine_PinnedBackendHonouredForPrimaryWork it raw cnt \<longleftrightarrow>
     (case eng_plan it [eng_load] eng_schemas raw cnt ''UPDATE users SET a=1''
        ((eng_session ''billing'')\<lparr>sv_in_transaction := True, sv_pinned_backend := Some ''prod-primary''\<rparr>) of
        Err _ \<Rightarrow> False
      | Ok p \<Rightarrow> rp_backend_id p = ''prod-primary'')"

definition RoutingEngine_DdlGoesToPrimary :: "id_order \<Rightarrow> nat \<Rightarrow> counters \<Rightarrow> bool" where
  "RoutingEngine_DdlGoesToPrimary it raw cnt \<longleftrightarrow>
     (case eng_plan it [eng_load] eng_schemas raw cnt ''CREATE TABLE billing.t (id INT)'' (eng_session ''billing'') of
        Err _ \<Rightarrow> False
      | Ok p \<Rightarrow> rp_query_type p = DDL \<and> rp_role p = PRIMARY)"

definition RoutingEngine_NoBackendAvailableWhenAllReplicasDownAndNoPrimary :: "id_order \<Rightarrow> nat \<Rightarrow> counters \<Rightarrow> bool" where
  "RoutingEngine_NoBackendAvailableWhenAllReplicasDownAndNoPrimary it raw cnt \<longleftrightarrow>
     eng_plan it [eng_load, Load [eng_backend ''r1'' ''lonely'' REPLICA], UpdateState ''r1'' FAILED]
       (sr_upsert (eng_schema ''lonely'' ''lonely'' None) eng_schemas) raw cnt ''SELECT 1 FROM lonely.t'' (eng_session ''lonely'') =
     Err NO_BACKEND_AVAILABLE"

definition RoutingEngine_NoSchemaConfigWhenNoDefaultAndUnknown :: "id_order \<Rightarrow> nat \<Rightarrow> counters \<Rightarrow> bool" where
  "RoutingEngine_NoSchemaConfigWhenNoDefaultAndUnknown it raw cnt \<longleftrightarrow>
     eng_plan it [eng_load] (sr_load [eng_schema ''known'' ''prod'' None] sr_new) raw cnt ''SELECT * FROM unknown.t'' (eng_session []) =
     Err NO_SCHEMA_CONFIG"

definition RoutingEngine_FailoverPromotionReflectedInRouting :: "id_order \<Rightarrow> nat \<Rightarrow> counters \<Rightarrow> bool" where
  "RoutingEngine_FailoverPromotionReflectedInRouting it raw cnt \<longleftrightarrow>
     (case eng_plan it [eng_load, UpdateState ''prod-primary'' FAILED, UpdateRole ''prod-primary'' REPLICA,
          UpdateRole ''prod-replica-01'' PRIMARY] eng_schemas raw cnt
          ''INSERT INTO billing.orders (id) VALUES (1)'' (eng_session []) of
        Err _ \<Rightarrow> False
      | Ok p \<Rightarrow> rp_backend_id p = ''prod-replica-01'')"

text \<open>What each query of the tests is and where it leads.\<close>

lemma test_queries:
  "classify ''SELECT * FROM billing.users'' = SELECT"
  "classify ''INSERT INTO billing.orders (id) VALUES (1)'' = INSERT"
  "classify ''SELECT * FROM users'' = SELECT"
  "classify ''SELECT * FROM mystery.things'' = SELECT"
  "classify ''SELECT * FROM events'' = SELECT"
  "classify ''UPDATE users SET a=1'' = UPDATE"
  "classify ''CREATE TABLE billing.t (id INT)'' = DDL"
  "classify ''SELECT 1 FROM lonely.t'' = SELECT"
  "classify ''SELECT * FROM unknown.t'' = SELECT"
  by code_simp+

lemma test_schemas:
  "extract_or ''SELECT * FROM billing.users'' [] = ''billing''"
  "extract_or ''INSERT INTO billing.orders (id) VALUES (1)'' [] = ''billing''"
  "extract_or ''SELECT * FROM users'' ''billing'' = ''billing''"
  "extract_or ''SELECT * FROM mystery.things'' [] = ''mystery''"
  "extract_or ''SELECT * FROM events'' ''analytics'' = ''analytics''"
  "extract_or ''UPDATE users SET a=1'' ''billing'' = ''billing''"
  "extract_or ''CREATE TABLE billing.t (id INT)'' ''billing'' = ''billing''"
  "extract_or ''SELECT 1 FROM lonely.t'' ''lonely'' = ''lonely''"
  "extract_or ''SELECT * FROM unknown.t'' [] = ''unknown''"
  by code_simp+

lemma test_lookups:
  "sr_lookup eng_schemas ''billing'' = Some (eng_schema ''billing'' ''prod'' None)"
  "sr_lookup eng_schemas ''mystery'' = Some (eng_schema ''default'' ''prod'' None)"
  "sr_lookup eng_schemas ''analytics'' = Some (eng_schema ''analytics'' ''analytics'' (Some False))"
  "sr_lookup (sr_upsert (eng_schema ''lonely'' ''lonely'' None) eng_schemas) ''lonely'' = Some (eng_schema ''lonely'' ''lonely'' None)"
  "sr_lookup (sr_load [eng_schema ''known'' ''prod'' None] sr_new) ''unknown'' = None"
  by code_simp+

lemma eng_plan_test:
  fixes it ops schemas sql session
  assumes "permutes_entries it" and "\<forall>e \<in> set (all_entries (br_run it ops)). be_id e \<noteq> []"
    and "sv_pinned_backend session = None"
    and "case sr_lookup schemas (extract_or sql (sv_current_schema session)) of
           None \<Rightarrow> False
         | Some config \<Rightarrow>
             (let role = plan_role eng_defaults (classify sql) session config;
                  ids = be_id ` serving (br_run it ops) eng_defaults config role
              in ids \<noteq> {} \<and> (\<forall>b \<in> ids. Q \<lparr>rp_query_type = classify sql,
                   rp_schema = extract_or sql (sv_current_schema session), rp_backend_id = b, rp_role = role\<rparr>))"
  shows "case eng_plan it ops schemas raw cnt sql session of Err _ \<Rightarrow> False | Ok p \<Rightarrow> Q p"
  using assms(4) plan_result [OF br_wf_run [OF assms(1)] _ assms(3,2) refl, of schemas sql _ eng_defaults raw cnt]
  by (fastforce simp: eng_plan_def Let_def split: option.splits if_splits)

lemmas eval_plan = test_queries test_schemas test_lookups plan_role_def select_role_def eng_session_def eng_schema_def
  eng_defaults_def eng_load_def eng_backend_def eval_serving

lemma engine_tests:
  assumes "permutes_entries it"
  shows "RoutingEngine_RoutesSelectToReplica it raw cnt"
    and "RoutingEngine_RoutesInsertToPrimary it raw cnt"
    and "RoutingEngine_UsesSessionSchemaWhenSqlUnqualified it raw cnt"
    and "RoutingEngine_UnknownSchemaFallsBackToDefault it raw cnt"
    and "RoutingEngine_SchemaWithReadWriteSplitDisabledRoutesReadsToPrimary it raw cnt"
    and "RoutingEngine_SelectInTransactionGoesToPrimary it raw cnt"
    and "RoutingEngine_DdlGoesToPrimary it raw cnt"
    and "RoutingEngine_FailoverPromotionReflectedInRouting it raw cnt"
  unfolding RoutingEngine_RoutesSelectToReplica_def RoutingEngine_RoutesInsertToPrimary_def
    RoutingEngine_UsesSessionSchemaWhenSqlUnqualified_def RoutingEngine_UnknownSchemaFallsBackToDefault_def
    RoutingEngine_SchemaWithReadWriteSplitDisabledRoutesReadsToPrimary_def
    RoutingEngine_SelectInTransactionGoesToPrimary_def RoutingEngine_DdlGoesToPrimary_def
    RoutingEngine_FailoverPromotionReflectedInRouting_def
  by (rule eng_plan_test [OF assms]; simp add: eval_plan)+

lemma engine_error_tests:
  assumes "permutes_entries it"
  shows "RoutingEngine_NoBackendAvailableWhenAllReplicasDownAndNoPrimary it raw cnt"
    and "RoutingEngine_NoSchemaConfigWhenNoDefaultAndUnknown it raw cnt"
    and "RoutingEngine_PinnedBackendHonouredForPrimaryWork it raw cnt"
proof -
  let ?ops = "[eng_load, Load [eng_backend ''r1'' ''lonely'' REPLICA], UpdateState ''r1'' FAILED]"
  let ?s = "eng_schema ''lonely'' ''lonely'' None"
  have "serving (br_run it ?ops) eng_defaults ?s REPLICA = {}" "\<forall>e \<in> set (all_entries (br_run it ?ops)). be_id e \<noteq> []"
    "REPLICA = plan_role eng_defaults (classify ''SELECT 1 FROM lonely.t'') (eng_session ''lonely'') ?s"
    by (simp_all add: eval_plan)
  with plan_result [OF br_wf_run [OF assms] _ _ this(2,3)] test_lookups(4) test_schemas(8)
  show "RoutingEngine_NoBackendAvailableWhenAllReplicasDownAndNoPrimary it raw cnt"
    by (simp add: RoutingEngine_NoBackendAvailableWhenAllReplicasDownAndNoPrimary_def eng_plan_def eng_session_def)
  show "RoutingEngine_NoSchemaConfigWhenNoDefaultAndUnknown it raw cnt"
    by (simp add: RoutingEngine_NoSchemaConfigWhenNoDefaultAndUnknown_def eng_plan_def plan_def plan_with_def
        eng_session_def test_schemas test_lookups)
  show "RoutingEngine_PinnedBackendHonouredForPrimaryWork it raw cnt"
    by (simp add: RoutingEngine_PinnedBackendHonouredForPrimaryWork_def eng_plan_def eng_session_def
        plan_pin_unchecked test_queries test_schemas test_lookups is_read_def)
qed

end
