(* ===== verification/ProtocolTests.thy ===== *)
theory ProtocolTests
  imports PacketFramer Handshake
begin

unbundle bit_operations_syntax

text \<open>
  The unit tests of the wire format, \<open>protocol/mysql/src/packet_framer_test.cpp\<close> and
  \<open>protocol/mysql/src/handshake_test.cpp\<close>. SHA1 is a parameter: the tests of the native password method
  hold for every hash of 20 bytes, and the random bytes of a salt are arbitrary.
\<close>

section \<open>Codec\<close>

definition Codec_WriteReadU16LE :: bool where
  "Codec_WriteReadU16LE \<longleftrightarrow>
     (let buf = write_u16_le [] 0xABCD
      in length buf = 2 \<and> buf ! 0 = 0xCD \<and> buf ! 1 = 0xAB \<and> read_u16_le buf 0 = Some 0xABCD)"

definition Codec_WriteReadU32LE :: bool where
  "Codec_WriteReadU32LE \<longleftrightarrow>
     (let buf = write_u32_le [] 0xDEADBEEF in length buf = 4 \<and> read_u32_le buf 0 = Some 0xDEADBEEF)"

definition Codec_WriteReadU24LE :: bool where
  "Codec_WriteReadU24LE \<longleftrightarrow>
     (let buf = write_u24_le [] 0x123456
      in length buf = 3 \<and> buf ! 0 = 0x56 \<and> buf ! 1 = 0x34 \<and> buf ! 2 = 0x12 \<and> read_u24_le buf 0 = Some 0x123456)"

definition Codec_LengthEncodedInt_OneByte :: bool where
  "Codec_LengthEncodedInt_OneByte \<longleftrightarrow>
     (let buf = write_lenenc_int [] 42 in length buf = 1 \<and> read_lenenc_int buf 0 = Some (42, 1))"

definition Codec_LengthEncodedInt_TwoBytes :: bool where
  "Codec_LengthEncodedInt_TwoBytes \<longleftrightarrow>
     (let buf = write_lenenc_int [] 300
      in length buf = 3 \<and> buf ! 0 = 0xFC \<and> map_option fst (read_lenenc_int buf 0) = Some 300)"

definition Codec_LengthEncodedInt_ThreeBytes :: bool where
  "Codec_LengthEncodedInt_ThreeBytes \<longleftrightarrow>
     (let buf = write_lenenc_int [] 70000
      in length buf = 4 \<and> buf ! 0 = 0xFD \<and> map_option fst (read_lenenc_int buf 0) = Some 70000)"

definition Codec_LengthEncodedString :: bool where
  "Codec_LengthEncodedString \<longleftrightarrow>
     (let buf = write_lenenc_str [] ''hello''
      in length buf = 6 \<and> buf ! 0 = 5 \<and> read_lenenc_str buf 0 = Some (''hello'', 6))"

definition Codec_NullTerminatedString :: bool where
  "Codec_NullTerminatedString \<longleftrightarrow>
     (let buf = write_null_str [] ''world''
      in length buf = 6 \<and> buf ! 5 = 0 \<and> read_null_str buf 0 = (''world'', 6))"

lemma codec_tests:
  Codec_WriteReadU16LE
  Codec_WriteReadU32LE
  Codec_WriteReadU24LE
  Codec_LengthEncodedInt_OneByte
  Codec_LengthEncodedInt_TwoBytes
  Codec_LengthEncodedInt_ThreeBytes
  Codec_LengthEncodedString
  Codec_NullTerminatedString
  unfolding Codec_WriteReadU16LE_def Codec_WriteReadU32LE_def Codec_WriteReadU24LE_def
    Codec_LengthEncodedInt_OneByte_def Codec_LengthEncodedInt_TwoBytes_def Codec_LengthEncodedInt_ThreeBytes_def
    Codec_LengthEncodedString_def Codec_NullTerminatedString_def
  by (simp_all add: write_u16_le_def write_u24_le_def write_u32_le_def read_u16_le_def read_u24_le_def read_u32_le_def
      write_lenenc_int_def read_lenenc_int_def write_lenenc_str_def read_lenenc_str_def write_null_str_def
      read_null_str_def read_null_loop.simps take_bytes_def rd_def byte_of_def char_at_def char_of_def bit_Suc_0_iff)

section \<open>Packet framer\<close>

definition PacketFramer_EncodeDecodeRoundTrip :: bool where
  "PacketFramer_EncodeDecodeRoundTrip \<longleftrightarrow>
     (let payload = [0x03, 0x53, 0x45, 0x4C, 0x45, 0x43, 0x54]; frame = encode payload 5
      in length frame \<ge> 4 \<and> take 4 frame = [0x07, 0x00, 0x00, 0x05] \<and> length frame = 11 \<and>
         decode frame = Some (Ok \<lparr>pk_length = 7, pk_sequence = 5, pk_payload = payload\<rparr>))"

definition PacketFramer_EncodeEmptyPayload :: bool where
  "PacketFramer_EncodeEmptyPayload \<longleftrightarrow>
     (let frame = encode [] 0
      in frame = [0x00, 0x00, 0x00, 0x00] \<and>
         (case decode frame of Some (Ok pkt) \<Rightarrow> length (pk_payload pkt) = 0 | _ \<Rightarrow> False))"

definition PacketFramer_DecodeFailsOnTruncated :: bool where
  "PacketFramer_DecodeFailsOnTruncated \<longleftrightarrow> (case decode [0xFF, 0xFF, 0xFF] of Some r \<Rightarrow> is_err r | None \<Rightarrow> False)"

definition PacketFramer_SequenceRollover :: bool where
  "PacketFramer_SequenceRollover \<longleftrightarrow>
     list_all (\<lambda>i. let seq = word_of_nat i
                   in case decode (encode [0x01] seq) of Some (Ok pkt) \<Rightarrow> pk_sequence pkt = seq | _ \<Rightarrow> False) [0..<257]"

lemma packet_framer_tests:
  PacketFramer_EncodeDecodeRoundTrip
  PacketFramer_EncodeEmptyPayload
  PacketFramer_DecodeFailsOnTruncated
  using decode_encode [of "[0x03, 0x53, 0x45, 0x4C, 0x45, 0x43, 0x54]" 5 "[]"] decode_encode [of "[]" 0 "[]"]
  by (simp_all add: PacketFramer_EncodeDecodeRoundTrip_def PacketFramer_EncodeEmptyPayload_def
      PacketFramer_DecodeFailsOnTruncated_def MAX_PACKET_SIZE_def)
     (simp_all add: encode_def write_u24_le_def write_u8_def decode_def)

lemma packet_framer_rollover_test: PacketFramer_SequenceRollover
proof -
  have "decode (encode [0x01] seq) = Some (Ok \<lparr>pk_length = 1, pk_sequence = seq, pk_payload = [0x01]\<rparr>)" for seq
    using decode_encode [of "[0x01]" seq "[]"] by (simp add: MAX_PACKET_SIZE_def)
  then show ?thesis by (simp add: PacketFramer_SequenceRollover_def list_all_iff Let_def)
qed

section \<open>Server handshake\<close>

text \<open>The loops of the tests that read a string up to its NUL byte.\<close>

definition text_at :: "bytes \<Rightarrow> nat \<Rightarrow> string" where
  "text_at buf i = map char_at (takeWhile (\<lambda>b. b \<noteq> 0x00) (drop i buf))"

definition filled :: "u32 \<Rightarrow> u8 \<Rightarrow> HandshakeV10" where
  "filled cid b = default_HandshakeV10\<lparr>hs_connection_id := cid, hs_auth_data := replicate 20 b\<rparr>"

definition HandshakeV10_EncodesProtocolVersion :: bool where
  "HandshakeV10_EncodesProtocolVersion \<longleftrightarrow> (let buf = hs_encode (filled 1 0x41) in buf \<noteq> [] \<and> buf ! 0 = 0x0A)"

definition HandshakeV10_EncodesServerVersion :: bool where
  "HandshakeV10_EncodesServerVersion \<longleftrightarrow>
     text_at (hs_encode ((filled 42 0x01)\<lparr>hs_server_version := ''8.0.30-dbmesh''\<rparr>)) 1 = ''8.0.30-dbmesh''"

definition HandshakeV10_EncodesConnectionId :: bool where
  "HandshakeV10_EncodesConnectionId \<longleftrightarrow>
     (let hs = (filled 0xDEADCAFE 0x01)\<lparr>hs_server_version := ''8.0.30''\<rparr>;
          buf = hs_encode hs; off = 1 + length (hs_server_version hs) + 1
      in length buf \<ge> off + 4 \<and>
         ucast (buf ! off) OR push_bit 8 (ucast (buf ! (off + 1))) OR push_bit 16 (ucast (buf ! (off + 2))) OR
         push_bit 24 (ucast (buf ! (off + 3))) = (0xDEADCAFE :: u32))"

definition HandshakeV10_AdvertisesRequiredCapabilities :: bool where
  "HandshakeV10_AdvertisesRequiredCapabilities \<longleftrightarrow>
     (let hs = filled 1 0x01; buf = hs_encode hs;
          cap_off = 1 + length (hs_server_version hs) + 1 + 4 + 8 + 1;
          lower = ucast (buf ! cap_off) OR push_bit 8 (ucast (buf ! (cap_off + 1)));
          upper_off = cap_off + 2 + 1 + 2;
          upper = ucast (buf ! upper_off) OR push_bit 8 (ucast (buf ! (upper_off + 1)));
          cap_flags = lower OR push_bit 16 upper
      in length buf \<ge> cap_off + 4 \<and> length buf \<ge> upper_off + 2 \<and>
         cap_flags AND caps_PROTOCOL_41 \<noteq> 0 \<and> cap_flags AND caps_PLUGIN_AUTH \<noteq> 0 \<and>
         cap_flags AND caps_SECURE_CONNECTION \<noteq> 0)"

definition HandshakeV10_EndsWithPluginName :: bool where
  "HandshakeV10_EndsWithPluginName \<longleftrightarrow>
     (let buf = hs_encode ((filled 1 0x01)\<lparr>hs_auth_plugin_name := NATIVE_PASSWORD\<rparr>)
      in length buf \<ge> length NATIVE_PASSWORD + 1 \<and>
         text_at buf (length buf - length NATIVE_PASSWORD - 1) = NATIVE_PASSWORD)"

definition HandshakeV10_GeneratesNonZeroAuthData :: "bytes \<Rightarrow> bool" where
  "HandshakeV10_GeneratesNonZeroAuthData rand \<longleftrightarrow>
     (case generate_auth_data (Some rand) (default_HandshakeV10\<lparr>hs_connection_id := 1\<rparr>) of
        None \<Rightarrow> False
      | Some hs \<Rightarrow> hs_encode hs \<noteq> [] \<and> \<not> list_all (\<lambda>b. b = 0) (hs_auth_data hs) \<and>
          list_all (\<lambda>b. b \<noteq> 0) (hs_auth_data hs))"

lemma handshake_tests:
  HandshakeV10_EncodesProtocolVersion
  HandshakeV10_EncodesServerVersion
  HandshakeV10_EncodesConnectionId
  HandshakeV10_AdvertisesRequiredCapabilities
  HandshakeV10_EndsWithPluginName
  by code_simp+

lemma handshake_salt_test: "HandshakeV10_GeneratesNonZeroAuthData rand"
proof -
  have "length (fill 20 rand) = 20" by (simp add: fill_def)
  then have "fill 20 rand \<noteq> []" by auto
  then obtain b bs where "fill 20 rand = b # bs" by (cases "fill 20 rand") auto
  then show ?thesis
    by (auto simp: HandshakeV10_GeneratesNonZeroAuthData_def generate_auth_data_def list_all_iff hs_encode_def
        Let_def write_null_str_def)
qed

section \<open>Client response and native password\<close>

definition HandshakeResponse41_ParsesUsernameAndDatabase :: bool where
  "HandshakeResponse41_ParsesUsernameAndDatabase \<longleftrightarrow>
     (let push_u32 = (\<lambda>v :: u32. map (\<lambda>i. ucast (drop_bit (8 * i) v AND 0xFF) :: u8) [0..<4]);
          payload = push_u32 (caps_PROTOCOL_41 OR caps_SECURE_CONNECTION OR caps_CONNECT_WITH_DB OR caps_PLUGIN_AUTH) @
            push_u32 0x01000000 @ [0x21] @ replicate 23 0x00 @ map byte_of ''app'' @ [0x00] @ [20] @
            map word_of_nat [0..<20] @ map byte_of ''billing'' @ [0x00] @ map byte_of NATIVE_PASSWORD @ [0x00]
      in case hr_decode payload of
           Some (Ok resp) \<Rightarrow> hr_username resp = ''app'' \<and> hr_database resp = ''billing'' \<and>
             hr_auth_plugin resp = NATIVE_PASSWORD \<and> length (hr_auth_response resp) = 20
         | _ \<Rightarrow> False)"

definition HandshakeResponse41_RejectsTooShortPayload :: bool where
  "HandshakeResponse41_RejectsTooShortPayload \<longleftrightarrow> (case hr_decode [0x01, 0x02] of Some r \<Rightarrow> is_err r | None \<Rightarrow> False)"

text \<open>The token that the tests compute for a password.\<close>

definition test_token :: "(bytes \<Rightarrow> bytes) \<Rightarrow> bytes \<Rightarrow> bytes" where
  "test_token sha1 salt =
     (let h1 = sha1 (map byte_of ''secret''); h2 = sha1 h1; h3 = sha1 (salt @ h2)
      in map (\<lambda>i. (h1 ! i) XOR (h3 ! i)) [0..<20])"

definition test_salt :: bytes where
  "test_salt = map (\<lambda>i. word_of_nat (i + 1)) [0..<20]"

definition NativePassword_AcceptsCorrectPassword :: "(bytes \<Rightarrow> bytes) \<Rightarrow> bool" where
  "NativePassword_AcceptsCorrectPassword sha1 \<longleftrightarrow>
     verify_native_password sha1 ''secret'' test_salt (test_token sha1 test_salt)"

definition NativePassword_RejectsWrongPassword :: "(bytes \<Rightarrow> bytes) \<Rightarrow> bool" where
  "NativePassword_RejectsWrongPassword sha1 \<longleftrightarrow>
     \<not> verify_native_password sha1 ''wrong'' test_salt (test_token sha1 test_salt)"

definition NativePassword_RejectsWrongLengthToken :: "(bytes \<Rightarrow> bytes) \<Rightarrow> bool" where
  "NativePassword_RejectsWrongLengthToken sha1 \<longleftrightarrow>
     \<not> verify_native_password sha1 ''secret'' (replicate 20 0) (replicate 10 0xAA)"

lemma response_tests:
  HandshakeResponse41_ParsesUsernameAndDatabase
  HandshakeResponse41_RejectsTooShortPayload
proof -
  show HandshakeResponse41_RejectsTooShortPayload
    by (simp add: HandshakeResponse41_RejectsTooShortPayload_def hr_decode_def)
  show HandshakeResponse41_ParsesUsernameAndDatabase
    by code_simp
qed

lemma test_token_scramble:
  assumes "\<And>x. length (sha1 x) = 20"
  shows "test_token sha1 salt = scramble_native_password sha1 ''secret'' salt"
  by (rule nth_equalityI)
     (simp_all add: test_token_def scramble_native_password_def native_hashes_def xor_bytes_def Let_def assms)

text \<open>The second password is rejected unless the hash confuses the two.\<close>

lemma native_password_tests:
  assumes "\<And>x. length (sha1 x) = 20"
  shows "NativePassword_AcceptsCorrectPassword sha1"
    and "NativePassword_RejectsWrongPassword sha1 \<longleftrightarrow>
      scramble_native_password sha1 ''secret'' test_salt \<noteq> scramble_native_password sha1 ''wrong'' test_salt"
    and "NativePassword_RejectsWrongLengthToken sha1"
  using verify_scramble [of sha1 "''secret''" test_salt, OF assms] verify_scramble [of sha1 "''wrong''" test_salt, OF assms]
  by (simp_all add: NativePassword_AcceptsCorrectPassword_def NativePassword_RejectsWrongPassword_def
      test_token_scramble [OF assms])
     (simp add: NativePassword_RejectsWrongLengthToken_def verify_native_password_def)

end
