(* ===== verification/PoolTests.thy ===== *)
theory PoolTests
  imports Mesh
begin

text \<open>
  The unit tests of \<open>pool/src/connection_pool_test.cpp\<close> and \<open>pool/src/pool_manager_test.cpp\<close>. A test is a sequence of
  handlers of the pool, at the times \<open>t\<close> the clock shows; the mock connections are the addresses the test
  gives to \<open>acquire\<close>, and \<open>live\<close> counts the connection objects that exist. \<^const>\<open>None\<close> would be a use of a
  freed connection: a test passes when it ends in \<^term>\<open>Some True\<close>.
\<close>

section \<open>Connection pool\<close>

definition pool_cfg :: "u32 \<Rightarrow> u32 \<Rightarrow> u32 \<Rightarrow> u32 \<Rightarrow> PoolConfig" where
  "pool_cfg mn mx acquire_ms idle_sec = default_PoolConfig\<lparr>pool_min := mn, pool_max := mx, pool_acquire_timeout_ms := acquire_ms,
     pool_idle_timeout_sec := idle_sec, pool_warm := False\<rparr>"

definition live :: "ConnectionPool \<Rightarrow> nat" where
  "live p = card (dom (cp_heap p))"

definition ConnectionPool_AcquireOpensNewConnection :: "time \<Rightarrow> bool option" where
  "ConnectionPool_AcquireOpensNewConnection t = do {
     (r, p) \<leftarrow> acquire 0 (Ok True) t (cp_new ''b1'' (pool_cfg 0 5 200 60));
     Some (is_ok r \<and> cp_active_count p = 1 \<and> cp_total_count p = 1 \<and> live p = 1) }"

definition ConnectionPool_ReleaseReturnsToFreeListAndReuses :: "(nat \<Rightarrow> time) \<Rightarrow> bool option" where
  "ConnectionPool_ReleaseReturnsToFreeListAndReuses t = do {
     (r1, p) \<leftarrow> acquire 0 (Ok True) (t 0) (cp_new ''b1'' (pool_cfg 0 5 200 60));
     c1 \<leftarrow> get_value r1;
     p1 \<leftarrow> release c1 True (t 1) p;
     (r2, p2) \<leftarrow> acquire 1 (Ok True) (t 2) p1;
     Some (cp_free_count p1 = 1 \<and> cp_active_count p1 = 0 \<and> r2 = Ok c1 \<and> cp_total_count p2 = 1 \<and> live p2 = 1) }"

definition ConnectionPool_EnforcesMaxConnections :: "(nat \<Rightarrow> time) \<Rightarrow> bool option" where
  "ConnectionPool_EnforcesMaxConnections t = do {
     (a, p) \<leftarrow> acquire 0 (Ok True) (t 0) (cp_new ''b1'' (pool_cfg 0 2 100 60));
     (b, p) \<leftarrow> acquire 1 (Ok True) (t 1) p;
     (c, p') \<leftarrow> acquire 2 (Ok True) (t 2) p;
     Some (is_ok a \<and> is_ok b \<and> cp_active_count p = 2 \<and> cp_total_count p = 2 \<and> c = Err TIMED_OUT) }"

text \<open>The second task suspends as the waiter \<open>w\<close> and is woken after the release.\<close>

definition ConnectionPool_WaiterIsSatisfiedByRelease :: "(nat \<Rightarrow> time) \<Rightarrow> bool option" where
  "ConnectionPool_WaiterIsSatisfiedByRelease t = do {
     (a, p) \<leftarrow> acquire 0 (Ok True) (t 0) (cp_new ''b1'' (pool_cfg 0 1 2000 60));
     held \<leftarrow> get_value a;
     (o1, p1) \<leftarrow> acquire_start (t 1) p;
     w \<leftarrow> (case o1 of Wait w \<Rightarrow> Some w | _ \<Rightarrow> None);
     p2 \<leftarrow> release held True (t 2) p1;
     (o2, p3) \<leftarrow> Some (acquire_woken w p2);
     Some (cp_waiter_count p1 = 1 \<and> o2 = Acquired held \<and> cp_waiter_count p3 = 0 \<and> live p3 = 1) }"

definition ConnectionPool_UnhealthyReleaseClosesConnection :: "(nat \<Rightarrow> time) \<Rightarrow> bool option" where
  "ConnectionPool_UnhealthyReleaseClosesConnection t = do {
     (r, p) \<leftarrow> acquire 0 (Ok True) (t 0) (cp_new ''b1'' (pool_cfg 0 5 200 60));
     c \<leftarrow> get_value r;
     p \<leftarrow> release c False (t 1) p;
     Some (cp_total_count p = 0 \<and> cp_free_count p = 0 \<and> live p = 0) }"

definition ConnectionPool_AcquirePropagatesConnectFailure :: "time \<Rightarrow> bool option" where
  "ConnectionPool_AcquirePropagatesConnectFailure t = do {
     (r, p) \<leftarrow> acquire 0 (Err CONNECT_FAILED) t (cp_new ''b1'' (pool_cfg 0 5 200 60));
     Some (r = Err CONNECT_FAILED \<and> cp_total_count p = 0) }"

definition ConnectionPool_WarmPreOpensMinConnections :: "factory \<Rightarrow> bool option" where
  "ConnectionPool_WarmPreOpensMinConnections mk = do {
     p \<leftarrow> warm_loop mk 0 (cp_new ''b1'' (pool_cfg 3 10 200 60));
     Some (cp_free_count p = 3 \<and> cp_total_count p = 3 \<and> live p = 3) }"

definition ConnectionPool_DrainClosesEverything :: "(caddr set \<Rightarrow> caddr list) \<Rightarrow> factory \<Rightarrow> time \<Rightarrow> bool option" where
  "ConnectionPool_DrainClosesEverything it mk t = do {
     p \<leftarrow> warm_loop mk 0 (cp_new ''b1'' (pool_cfg 2 10 200 60));
     p1 \<leftarrow> drain it p;
     (r, p2) \<leftarrow> acquire 2 (Ok True) t p1;
     Some (cp_total_count p = 2 \<and> cp_total_count p1 = 0 \<and> live p1 = 0 \<and> r = Err POOL_SHUTDOWN) }"

text \<open>The three connections are released by the time \<open>t\<close>; the second round of the reaper is 2 s later.\<close>

definition ConnectionPool_IdleReaperClosesExcessIdleConnections :: "time \<Rightarrow> time \<Rightarrow> bool option" where
  "ConnectionPool_IdleReaperClosesExcessIdleConnections t tick = do {
     (a, p) \<leftarrow> acquire 0 (Ok True) t (cp_new ''b1'' (pool_cfg 1 10 200 1));
     (b, p) \<leftarrow> acquire 1 (Ok True) t p;
     (c, p) \<leftarrow> acquire 2 (Ok True) t p;
     a \<leftarrow> get_value a; b \<leftarrow> get_value b; c \<leftarrow> get_value c;
     p \<leftarrow> release a True t p;
     p \<leftarrow> release b True t p;
     p \<leftarrow> release c True t p;
     p' \<leftarrow> reap tick p;
     Some (cp_free_count p = 3 \<and> cp_free_count p' = 1 \<and> cp_total_count p' = 1) }"

lemmas run_pool = acquire_def acquire_start_def acquire_created_def acquire_woken_def release_def upd_conn_def
  track_def untrack_def sync_metrics_def cp_new_def pool_cfg_def default_PoolConfig_def live_def

lemma connection_pool_tests:
  "ConnectionPool_AcquireOpensNewConnection t = Some True"
  "ConnectionPool_ReleaseReturnsToFreeListAndReuses ts = Some True"
  "ConnectionPool_EnforcesMaxConnections ts = Some True"
  "ConnectionPool_WaiterIsSatisfiedByRelease ts = Some True"
  "ConnectionPool_UnhealthyReleaseClosesConnection ts = Some True"
  "ConnectionPool_AcquirePropagatesConnectFailure t = Some True"
  by (simp_all add: ConnectionPool_AcquireOpensNewConnection_def ConnectionPool_ReleaseReturnsToFreeListAndReuses_def
      ConnectionPool_EnforcesMaxConnections_def ConnectionPool_WaiterIsSatisfiedByRelease_def
      ConnectionPool_UnhealthyReleaseClosesConnection_def ConnectionPool_AcquirePropagatesConnectFailure_def run_pool)

lemma reaper_test:
  assumes "tick > t + 10 ^ 9"
  shows "ConnectionPool_IdleReaperClosesExcessIdleConnections t tick = Some True"
  using assms by (simp add: ConnectionPool_IdleReaperClosesExcessIdleConnections_def reap_def run_pool)

text \<open>The warmed pool is counted through the invariant, for every factory that connects.\<close>

lemma warmed_counts:
  assumes "warmed cfg p"
  shows "cp_free_count p = min (unat (pool_min cfg)) (unat (pool_max cfg))" "cp_total_count p = cp_free_count p"
    "live p = cp_free_count p"
proof -
  from assms have p: "pool_struct p" "synced p" "cp_active p = {}"
    "length (cp_free_list p) = min (unat (pool_min cfg)) (unat (pool_max cfg))"
    by (auto simp: warmed_def pool_inv_def)
  then show "cp_free_count p = min (unat (pool_min cfg)) (unat (pool_max cfg))" by (simp add: synced_def)
  from p have d: "distinct (cp_all p)" "distinct (cp_free_list p)" "set (cp_all p) = set (cp_free_list p)"
    "dom (cp_heap p) = set (cp_all p)" by (auto simp: pool_struct_def)
  then have "length (cp_all p) = length (cp_free_list p)" by (metis distinct_card)
  then show "cp_total_count p = cp_free_count p" "live p = cp_free_count p"
    using p(2) d by (simp_all add: synced_def live_def distinct_card)
qed

lemma warm_test:
  assumes "connects mk {}"
  shows "ConnectionPool_WarmPreOpensMinConnections mk = Some True"
proof -
  obtain p where p: "warm_loop mk 0 (cp_new ''b1'' (pool_cfg 3 10 200 60)) = Some p" "warmed (pool_cfg 3 10 200 60) p"
    using warm_new [OF assms] by blast
  with warmed_counts [OF p(2)] show ?thesis
    by (simp add: ConnectionPool_WarmPreOpensMinConnections_def pool_cfg_def)
qed

lemma drain_test:
  assumes "connects mk {}" "it {} = []"
  shows "ConnectionPool_DrainClosesEverything it mk t = Some True"
proof -
  obtain p where p: "warm_loop mk 0 (cp_new ''b1'' (pool_cfg 2 10 200 60)) = Some p" "warmed (pool_cfg 2 10 200 60) p"
    using warm_new [OF assms(1)] by blast
  then have "pool_inv p" "cp_active p = {}" by (simp_all add: warmed_def)
  with drain_eq [of p it] assms(2) obtain res where "drain it p = Some (sync_metrics (p\<lparr>cp_shutting_down := True,
      cp_result := res, cp_waiters := [], cp_free_list := [], cp_active := {}, cp_all := [], cp_heap := (\<lambda>_. None)\<rparr>))"
    by auto
  with p(1) warmed_counts [OF p(2)] show ?thesis
    by (simp add: ConnectionPool_DrainClosesEverything_def acquire_def acquire_start_def sync_metrics_def live_def pool_cfg_def)
qed

section \<open>Pool manager\<close>

definition pm_backend :: "string \<Rightarrow> string \<Rightarrow> BackendConfig" where
  "pm_backend k g = default_BackendConfig\<lparr>bc_id := k, bc_host := ''127.0.0.1'', bc_port := 3306, bc_group := g,
     bc_user := ''dbmesh'', bc_pool := default_PoolConfig\<lparr>pool_min := 0, pool_max := 5, pool_warm := False\<rparr>\<rparr>"

definition two_pools :: PoolManager where
  "two_pools = create_pool_with_factory (pm_backend ''b2'' ''prod'') (create_pool_with_factory (pm_backend ''b1'' ''prod'') pm_new)"

definition PoolManager_GetPoolReturnsNullForUnknownBackend :: bool where
  "PoolManager_GetPoolReturnsNullForUnknownBackend \<longleftrightarrow> get_pool ''nope'' pm_new = None"

definition PoolManager_CreatePoolRegistersAndIsRetrievable :: bool where
  "PoolManager_CreatePoolRegistersAndIsRetrievable \<longleftrightarrow>
     (let mgr = create_pool_with_factory (pm_backend ''b1'' ''prod'') pm_new
      in map_option cp_backend_id (get_pool ''b1'' mgr) = Some ''b1'' \<and> pool_count mgr = 1)"

definition PoolManager_DuplicateCreateIsIgnored :: bool where
  "PoolManager_DuplicateCreateIsIgnored \<longleftrightarrow>
     pool_count (create_pool_with_factory (pm_backend ''b1'' ''prod'')
       (create_pool_with_factory (pm_backend ''b1'' ''prod'') pm_new)) = 1"

definition PoolManager_PoolsAreIsolatedPerBackend :: "(caddr set \<Rightarrow> caddr list) \<Rightarrow> BackendID list \<Rightarrow> time \<Rightarrow> bool option" where
  "PoolManager_PoolsAreIsolatedPerBackend it ids t = do {
     p \<leftarrow> get_pool ''b1'' two_pools;
     (r1, p) \<leftarrow> acquire 0 (Ok True) t p;
     let mgr = two_pools\<lparr>pm_pools := (pm_pools two_pools)(''b1'' \<mapsto> p)\<rparr>;
     q1 \<leftarrow> get_pool ''b1'' mgr;
     q2 \<leftarrow> get_pool ''b2'' mgr;
     mgr' \<leftarrow> pm_shutdown it ids mgr;
     Some (is_ok r1 \<and> cp_active_count q1 = 1 \<and> cp_active_count q2 = 0) }"

definition PoolManager_ShutdownDrainsAllPools :: "(caddr set \<Rightarrow> caddr list) \<Rightarrow> BackendID list \<Rightarrow> factory \<Rightarrow> bool option" where
  "PoolManager_ShutdownDrainsAllPools it ids mk = do {
     p \<leftarrow> get_pool ''b1'' two_pools;
     p \<leftarrow> warm_loop mk 0 p;
     mgr \<leftarrow> pm_shutdown it ids (two_pools\<lparr>pm_pools := (pm_pools two_pools)(''b1'' \<mapsto> p)\<rparr>);
     Some (pool_count mgr = 0) }"

lemmas run_manager = create_pool_with_factory_def pm_new_def get_pool_def pool_count_def pm_backend_def
  default_BackendConfig_def two_pools_def

lemma pool_manager_tests:
  PoolManager_GetPoolReturnsNullForUnknownBackend
  PoolManager_CreatePoolRegistersAndIsRetrievable
  PoolManager_DuplicateCreateIsIgnored
  by (simp_all add: PoolManager_GetPoolReturnsNullForUnknownBackend_def PoolManager_CreatePoolRegistersAndIsRetrievable_def
      PoolManager_DuplicateCreateIsIgnored_def run_manager cp_new_def)

lemma two_pools_eq: "pm_pools two_pools = [''b1'' \<mapsto> cp_new ''b1'' (bc_pool (pm_backend ''b1'' ''prod'')),
    ''b2'' \<mapsto> cp_new ''b2'' (bc_pool (pm_backend ''b2'' ''prod''))]"
  by (simp add: two_pools_def create_pool_with_factory_def pm_new_def) (simp add: pm_backend_def)

text \<open>Both tests hold for every order in which the pools and the active connections are visited.\<close>

lemma pool_manager_shutdown_tests:
  assumes "set ids = {''b1'', ''b2''}" "\<And>A. finite A \<Longrightarrow> set (it A) = A"
  shows "PoolManager_PoolsAreIsolatedPerBackend it ids t = Some True"
    and "connects mk {} \<Longrightarrow> PoolManager_ShutdownDrainsAllPools it ids mk = Some True"
proof -
  have sd: "\<exists>m'. pm_shutdown it ids (two_pools\<lparr>pm_pools := (pm_pools two_pools)(''b1'' \<mapsto> p)\<rparr>) = Some m' \<and> pm_pools m' = (\<lambda>_. None)"
    if "pool_inv p" for p
  proof -
    let ?m = "two_pools\<lparr>pm_pools := (pm_pools two_pools)(''b1'' \<mapsto> p)\<rparr>"
    have "\<exists>m'. drain_ids it ids ?m = Some m'"
      using assms that by (intro drain_ids_ok) (auto simp: two_pools_eq pool_inv_new split: if_splits)
    then show ?thesis by (auto simp: pm_shutdown_def)
  qed
  let ?p = "cp_new ''b1'' (bc_pool (pm_backend ''b1'' ''prod''))"
  have "idle ?p" by (simp add: idle_def pool_inv_new) (simp add: cp_new_def)
  from acquire_idle [OF this, of 0 "Ok True" t] obtain r p where
    a: "acquire 0 (Ok True) t ?p = Some (r, p)" "case r of Ok c \<Rightarrow> lent c p | Err _ \<Rightarrow> idle p" by (auto simp: cp_new_def)
  then have p: "acquire 0 (Ok True) t ?p = Some (Ok 0, p)" "cp_active_count p = 1" by (auto simp: run_pool pm_backend_def)
  with a have "pool_inv p" by (auto simp: lent_def)
  from sd [OF this] p show "PoolManager_PoolsAreIsolatedPerBackend it ids t = Some True"
    by (auto simp: PoolManager_PoolsAreIsolatedPerBackend_def get_pool_def two_pools_eq cp_new_def)
  assume "connects mk {}"
  from warm_new [OF this] obtain q where q: "warm_loop mk 0 ?p = Some q" "warmed (bc_pool (pm_backend ''b1'' ''prod'')) q"
    by blast
  then have "pool_inv q" by (simp add: warmed_def)
  from sd [OF this] q(1) show "PoolManager_ShutdownDrainsAllPools it ids mk = Some True"
    by (auto simp: PoolManager_ShutdownDrainsAllPools_def get_pool_def two_pools_eq pool_count_def)
qed

end
