(* ===== verification/CoreTests.thy ===== *)
theory CoreTests
  imports Logger
begin

text \<open>
  The unit tests of \<open>core/src/types_test.cpp\<close> and \<open>core/src/logger_test.cpp\<close>. Session ids take the generator and the
  printer of UUIDs as parameters. \<open>LogDoesNotBlock\<close>, a test of elapsed time, and
  \<open>ToStringIsUuidFormat\<close>, a test of the UUID library, are left out.
\<close>

section \<open>Result and query types\<close>

definition Result_OkHoldsValue :: bool where
  "Result_OkHoldsValue \<longleftrightarrow>
     (let r = Ok 42 :: (int, string) result in is_ok r \<and> \<not> is_err r \<and> get_value r = Some 42)"

definition Result_ErrHoldsError :: bool where
  "Result_ErrHoldsError \<longleftrightarrow>
     (let r = Err ''boom'' :: (int, string) result in \<not> is_ok r \<and> is_err r \<and> get_error r = Some ''boom'')"

text \<open>\<open>std::get_if\<close> is the alternative that is held, or nothing.\<close>

definition Result_GetIfWorksOnVariant :: bool where
  "Result_GetIfWorksOnVariant \<longleftrightarrow>
     (let ok = Ok 7 :: (int, string) result; err = Err ''oops'' :: (int, string) result
      in get_value ok \<noteq> None \<and> get_error ok = None \<and> get_value err = None \<and> get_error err \<noteq> None)"

definition Result_MoveSemantics :: bool where
  "Result_MoveSemantics \<longleftrightarrow>
     (let r = Ok ''hello'' :: (string, int) result; moved = get_value r in get_value r = Some ''hello'' \<and> moved = Some ''hello'')"

definition QueryType_IsRead :: bool where
  "QueryType_IsRead \<longleftrightarrow>
     is_read SELECT \<and> \<not> is_read INSERT \<and> \<not> is_read UPDATE \<and> \<not> is_read DELETE \<and> \<not> is_read DDL"

definition QueryType_IsWrite :: bool where
  "QueryType_IsWrite \<longleftrightarrow>
     is_write INSERT \<and> is_write UPDATE \<and> is_write DELETE \<and> is_write DDL \<and> is_write CALL \<and>
     \<not> is_write SELECT \<and> \<not> is_write BEGIN"

lemma result_tests:
  Result_OkHoldsValue
  Result_ErrHoldsError
  Result_GetIfWorksOnVariant
  Result_MoveSemantics
  QueryType_IsRead
  QueryType_IsWrite
  by code_simp+

section \<open>Session ids\<close>

definition SessionID_GeneratesUniqueIds :: "('g \<Rightarrow> 'u \<times> 'g) \<Rightarrow> ('u \<Rightarrow> string) \<Rightarrow> 'g \<Rightarrow> bool" where
  "SessionID_GeneratesUniqueIds gen print g \<longleftrightarrow> distinct (map (sid_to_string print) (sid_run gen g 1000))"

definition SessionID_EqualityAndOrdering :: "('g \<Rightarrow> 'u \<times> 'g) \<Rightarrow> 'g \<Rightarrow> bool" where
  "SessionID_EqualityAndOrdering gen g \<longleftrightarrow>
     (let (a, g1) = sid_generate gen g; (b, g2) = sid_generate gen g1 in sid_eq a a \<and> sid_ne a b)"

definition SessionID_UsableAsMapKey :: "('g \<Rightarrow> 'u \<times> 'g) \<Rightarrow> 'g \<Rightarrow> bool" where
  "SessionID_UsableAsMapKey gen g \<longleftrightarrow>
     (let (i, g1) = sid_generate gen g; m = (\<lambda>_. None)(i \<mapsto> 42 :: int) in m i = Some 42)"

text \<open>They pass when the generator's UUIDs differ and the printer is injective.\<close>

lemma session_id_tests:
  shows "distinct (uuid_run gen g 1000) \<Longrightarrow> inj print \<Longrightarrow> SessionID_GeneratesUniqueIds gen print g"
    and "distinct (uuid_run gen g 2) \<Longrightarrow> SessionID_EqualityAndOrdering gen g"
    and "SessionID_UsableAsMapKey gen g"
  by (simp_all add: SessionID_GeneratesUniqueIds_def sid_texts_distinct SessionID_EqualityAndOrdering_def
      SessionID_UsableAsMapKey_def sid_eq_def sid_ne_def sid_generate_def numeral_2_eq_2 split: prod.splits)

section \<open>Logger\<close>

definition LogLevel_ParsesAllLevels :: bool where
  "LogLevel_ParsesAllLevels \<longleftrightarrow>
     parse_log_level ''TRACE'' = Ok TRACE \<and> parse_log_level ''DEBUG'' = Ok DEBUG \<and>
     parse_log_level ''INFO'' = Ok INFO \<and> parse_log_level ''WARN'' = Ok WARN \<and>
     parse_log_level ''ERROR'' = Ok ERROR \<and> parse_log_level ''FATAL'' = Ok FATAL"

definition LogLevel_ThrowsOnUnknown :: bool where
  "LogLevel_ThrowsOnUnknown \<longleftrightarrow> is_err (parse_log_level ''VERBOSE'')"

definition LogLevel_StringRepresentation :: bool where
  "LogLevel_StringRepresentation \<longleftrightarrow>
     log_level_str INFO = ''INFO '' \<and> log_level_str WARN = ''WARN '' \<and> log_level_str ERROR = ''ERROR''"

definition logger_fixture :: "LoggingConfig" where
  "logger_fixture = default_LoggingConfig\<lparr>lg_level := ''TRACE'', lg_format := ''text'', lg_output := ''stdout''\<rparr>"

text \<open>A test runs on the dispatcher that the fixture started; \<open>a\<close> and \<open>b\<close> are addresses of loggers it may make.\<close>

definition with_logger :: "LoggingConfig \<Rightarrow> Dispatcher \<Rightarrow> (Dispatcher \<Rightarrow> bool) \<Rightarrow> bool" where
  "with_logger cfg d0 P \<longleftrightarrow> (case logger_init True cfg d0 of Err _ \<Rightarrow> False | Ok d \<Rightarrow> P d)"

definition LoggerTest_GetReturnsSameInstanceForSameComponent :: "Dispatcher \<Rightarrow> nat \<Rightarrow> nat \<Rightarrow> bool" where
  "LoggerTest_GetReturnsSameInstanceForSameComponent d0 a b \<longleftrightarrow> with_logger logger_fixture d0 (\<lambda>d.
     let (x, d1) = logger_get ''pool'' a d; (y, d2) = logger_get ''pool'' b d1 in fst x = fst y)"

definition LoggerTest_GetReturnsDifferentInstancesForDifferentComponents :: "Dispatcher \<Rightarrow> nat \<Rightarrow> nat \<Rightarrow> bool" where
  "LoggerTest_GetReturnsDifferentInstancesForDifferentComponents d0 a b \<longleftrightarrow> with_logger logger_fixture d0 (\<lambda>d.
     let (x, d1) = logger_get ''pool'' a d; (y, d2) = logger_get ''routing'' b d1 in fst x \<noteq> fst y)"

definition LoggerTest_ComponentNamePreserved :: "Dispatcher \<Rightarrow> nat \<Rightarrow> bool" where
  "LoggerTest_ComponentNamePreserved d0 a \<longleftrightarrow> with_logger logger_fixture d0 (\<lambda>d.
     let ((_, logger), d1) = logger_get ''routing'' a d in lo_component logger = ''routing'')"

definition LoggerTest_AllConvenienceMethodsCompile :: "Dispatcher \<Rightarrow> nat \<Rightarrow> nat \<Rightarrow> bool" where
  "LoggerTest_AllConvenienceMethodsCompile d0 a now \<longleftrightarrow> with_logger logger_fixture d0 (\<lambda>d0.
     let ((_, l), d) = logger_get ''test'' a d0;
         d' = lo_fatal l ''fatal'' now (lo_error l ''error'' now (lo_warn l ''warn'' now (lo_info l ''info'' now
                (lo_debug l ''debug'' now (lo_trace l ''trace'' now d)))))
     in map le_message (d_queue d') = map le_message (d_queue d) @ [''trace'', ''debug'', ''info'', ''warn'', ''error'', ''fatal''])"

definition LoggerFiltering_InitWithHighLevelDoesNotCrash :: "Dispatcher \<Rightarrow> nat \<Rightarrow> nat \<Rightarrow> bool" where
  "LoggerFiltering_InitWithHighLevelDoesNotCrash d0 a now \<longleftrightarrow>
     with_logger (default_LoggingConfig\<lparr>lg_level := ''ERROR'', lg_format := ''json'', lg_output := ''stdout''\<rparr>) d0 (\<lambda>d0.
       let ((_, l), d) = logger_get ''filter_test'' a d0;
           d' = logger_shutdown (lo_error l ''should pass'' now (lo_warn l ''should be dropped'' now
                  (lo_info l ''should be dropped'' now (lo_debug l ''should be dropped'' now
                     (lo_trace l ''should be dropped'' now d)))))
       in map le_message (d_queue d') = map le_message (d_queue d) @ [''should pass''])"

lemma log_level_tests:
  LogLevel_ParsesAllLevels
  LogLevel_ThrowsOnUnknown
  LogLevel_StringRepresentation
  by code_simp+

text \<open>The tests hold in every state of the dispatcher they are started in, when the addresses of the
  allocator differ and, for the names, when the registry is empty.\<close>

lemmas run_logger = with_logger_def logger_init_def d_start_on_def logger_fixture_def default_LoggingConfig_def
  parse_log_level_def logger_get_def logger_new_def logger_shutdown_def d_stop_def lo_defs Let_def

lemma logger_tests:
  shows "LoggerTest_GetReturnsSameInstanceForSameComponent d0 a b"
    and "LoggerTest_AllConvenienceMethodsCompile d0 a now"
    and "LoggerFiltering_InitWithHighLevelDoesNotCrash d0 a now"
  by (auto simp: LoggerTest_GetReturnsSameInstanceForSameComponent_def LoggerTest_AllConvenienceMethodsCompile_def
      LoggerFiltering_InitWithHighLevelDoesNotCrash_def run_logger split: option.splits)

lemma logger_registry_tests:
  assumes "d_registry d0 = (\<lambda>_. None)"
  shows "a \<noteq> b \<Longrightarrow> LoggerTest_GetReturnsDifferentInstancesForDifferentComponents d0 a b"
    and "LoggerTest_ComponentNamePreserved d0 a"
  using assms
  by (auto simp: LoggerTest_GetReturnsDifferentInstancesForDifferentComponents_def LoggerTest_ComponentNamePreserved_def
      run_logger)

end
