(* ===== verification/ConfigTests.thy ===== *)
theory ConfigTests
  imports ConfigLoader
begin

text \<open>
  The unit tests of \<open>core/src/config_test.cpp\<close>. A document is the tree that the YAML library reads from the text
  of the test; a text that is not YAML is an error of \<open>YAML::LoadFile\<close>, with an arbitrary message.
\<close>

definition kMinimalConfig :: ynode where
  "kMinimalConfig = YMap [
     (''node'', YMap [(''id'', YScalar ''node-01''), (''mode'', YScalar ''standalone'')]),
     (''listeners'', YMap [(''mysql'', YMap [(''enabled'', YScalar ''true''), (''port'', YScalar ''3306'')])]),
     (''backends'', YSeq [YMap [(''id'', YScalar ''mysql-primary''), (''type'', YScalar ''mysql''),
        (''host'', YScalar ''10.0.1.10''), (''port'', YScalar ''3306''), (''role'', YScalar ''primary''),
        (''group'', YScalar ''prod''), (''user'', YScalar ''dbmesh''), (''password'', YScalar ''secret'')]]),
     (''schemas'', YSeq [YMap [(''name'', YScalar ''default''), (''backend_group'', YScalar ''prod'')]]),
     (''routing'', YMap [(''read_write_split'', YScalar ''true'')]),
     (''session'', YMap [(''recovery_mode'', YScalar ''BASIC'')])]"

definition load_doc :: "(ynode, string) result \<Rightarrow> (Config, string) result" where
  "load_doc doc = load tree_yaml (\<lambda>_. Ok True) (\<lambda>_. doc) ''dbmesh_test.yaml''"

text \<open>\<open>s.find(pat) != npos\<close>\<close>

definition found_in :: "string \<Rightarrow> string \<Rightarrow> bool" where
  "found_in pat s \<longleftrightarrow> list_ex (\<lambda>i. take (length pat) (drop i s) = pat) [0..<Suc (length s)]"

definition fails_with :: "string \<Rightarrow> ynode \<Rightarrow> bool" where
  "fails_with pat doc \<longleftrightarrow> (case load_doc (Ok doc) of Err e \<Rightarrow> found_in pat e | Ok _ \<Rightarrow> False)"

section \<open>Loading\<close>

definition ConfigLoader_LoadsMinimalConfig :: bool where
  "ConfigLoader_LoadsMinimalConfig \<longleftrightarrow>
     (case load_doc (Ok kMinimalConfig) of
        Err _ \<Rightarrow> False
      | Ok cfg \<Rightarrow>
          node_id (cfg_node cfg) = ''node-01'' \<and> node_mode (cfg_node cfg) = STANDALONE \<and>
          lst_enabled (lsts_mysql (cfg_listeners cfg)) \<and> lst_port (lsts_mysql (cfg_listeners cfg)) = 3306 \<and>
          map (\<lambda>b. (bc_id b, bc_host b, bc_role b, bc_group b)) (cfg_backends cfg) =
            [(''mysql-primary'', ''10.0.1.10'', PRIMARY, ''prod'')] \<and>
          map (\<lambda>s. (sc_name s, sc_backend_group s)) (cfg_schemas cfg) = [(''default'', ''prod'')] \<and>
          rt_read_write_split (cfg_routing cfg) \<and> ses_recovery_mode (cfg_session cfg) = BASIC)"

definition ConfigLoader_ReturnsErrorForMissingFile :: "(string \<Rightarrow> (ynode, string) result) \<Rightarrow> bool" where
  "ConfigLoader_ReturnsErrorForMissingFile load_file \<longleftrightarrow>
     (case load tree_yaml (\<lambda>_. Ok False) load_file ''/nonexistent/path/dbmesh.yaml'' of
        Err e \<Rightarrow> found_in ''not found'' e
      | Ok _ \<Rightarrow> False)"

definition ConfigLoader_ReturnsErrorForBadYaml :: "string \<Rightarrow> bool" where
  "ConfigLoader_ReturnsErrorForBadYaml what \<longleftrightarrow> is_err (load_doc (Err what))"

definition ConfigLoader_AppliesDefaults :: bool where
  "ConfigLoader_AppliesDefaults \<longleftrightarrow>
     (case load_doc (Ok kMinimalConfig) of
        Err _ \<Rightarrow> False
      | Ok cfg \<Rightarrow>
          map (\<lambda>b. (pool_min (bc_pool b), pool_max (bc_pool b))) (cfg_backends cfg) = [(10, 100)] \<and>
          hc_interval_ms (fo_health_check (cfg_failover cfg)) = 100 \<and>
          hc_failure_threshold (fo_health_check (cfg_failover cfg)) = 3)"

section \<open>Validation\<close>

definition ConfigValidator_AcceptsValidConfig :: bool where
  "ConfigValidator_AcceptsValidConfig \<longleftrightarrow>
     (case load_doc (Ok kMinimalConfig) of Err _ \<Rightarrow> False | Ok cfg \<Rightarrow> validate cfg = None)"

definition ConfigValidator_RejectsEmptyNodeId :: bool where
  "ConfigValidator_RejectsEmptyNodeId \<longleftrightarrow> fails_with ''node.id'' (YMap [
     (''node'', YMap [(''id'', YScalar []), (''mode'', YScalar ''standalone'')]),
     (''listeners'', YMap [(''mysql'', YMap [(''enabled'', YScalar ''false'')])])])"

definition ConfigValidator_RejectsInvalidRecoveryMode :: bool where
  "ConfigValidator_RejectsInvalidRecoveryMode \<longleftrightarrow> fails_with ''recovery_mode'' (YMap [
     (''node'', YMap [(''id'', YScalar ''node-01''), (''mode'', YScalar ''standalone'')]),
     (''session'', YMap [(''recovery_mode'', YScalar ''BOGUS'')])])"

definition ConfigValidator_RejectsDuplicateBackendIds :: bool where
  "ConfigValidator_RejectsDuplicateBackendIds \<longleftrightarrow> fails_with ''duplicate backend'' (YMap [
     (''node'', YMap [(''id'', YScalar ''node-01''), (''mode'', YScalar ''standalone'')]),
     (''listeners'', YMap [(''mysql'', YMap [(''enabled'', YScalar ''true''), (''port'', YScalar ''3306'')])]),
     (''backends'', YSeq [
        YMap [(''id'', YScalar ''dup''), (''type'', YScalar ''mysql''), (''host'', YScalar ''10.0.0.1''),
          (''port'', YScalar ''3306''), (''role'', YScalar ''primary''), (''group'', YScalar ''prod''), (''user'', YScalar ''dbmesh'')],
        YMap [(''id'', YScalar ''dup''), (''type'', YScalar ''mysql''), (''host'', YScalar ''10.0.0.2''),
          (''port'', YScalar ''3306''), (''role'', YScalar ''replica''), (''group'', YScalar ''prod''), (''user'', YScalar ''dbmesh'')]]),
     (''schemas'', YSeq [YMap [(''name'', YScalar ''default''), (''backend_group'', YScalar ''prod'')]])])"

definition ConfigValidator_RejectsPortZero :: bool where
  "ConfigValidator_RejectsPortZero \<longleftrightarrow> fails_with ''port'' (YMap [
     (''node'', YMap [(''id'', YScalar ''node-01''), (''mode'', YScalar ''standalone'')]),
     (''listeners'', YMap [(''mysql'', YMap [(''enabled'', YScalar ''true''), (''port'', YScalar ''0'')])]),
     (''backends'', YSeq [YMap [(''id'', YScalar ''b1''), (''type'', YScalar ''mysql''), (''host'', YScalar ''10.0.0.1''),
          (''port'', YScalar ''3306''), (''role'', YScalar ''primary''), (''group'', YScalar ''prod''), (''user'', YScalar ''dbmesh'')]]),
     (''schemas'', YSeq [YMap [(''name'', YScalar ''default''), (''backend_group'', YScalar ''prod'')]])])"

section \<open>Reloading\<close>

text \<open>The callback stores the configuration it is called with.\<close>

definition ConfigReloader_CallsCallbackOnValidReload :: bool where
  "ConfigReloader_CallsCallbackOnValidReload \<longleftrightarrow>
     (case reload tree_yaml (\<lambda>_. Ok True) (\<lambda>_. Ok kMinimalConfig) ''dbmesh_test.yaml'' (\<lambda>c _. Some c) None of
        None \<Rightarrow> False
      | Some c \<Rightarrow> node_id (cfg_node c) = ''node-01'')"

definition ConfigReloader_DoesNotCallCallbackOnInvalidConfig :: "string \<Rightarrow> bool" where
  "ConfigReloader_DoesNotCallCallbackOnInvalidConfig what \<longleftrightarrow>
     \<not> reload tree_yaml (\<lambda>_. Ok True) (\<lambda>_. Err what) ''dbmesh_test.yaml'' (\<lambda>_ _. True) False"

section \<open>The suite\<close>

lemma config_loader_tests:
  ConfigLoader_LoadsMinimalConfig
  ConfigLoader_AppliesDefaults
  ConfigValidator_AcceptsValidConfig
  by code_simp+

lemma config_validator_tests:
  ConfigValidator_RejectsEmptyNodeId
  ConfigValidator_RejectsInvalidRecoveryMode
  ConfigValidator_RejectsDuplicateBackendIds
  ConfigValidator_RejectsPortZero
  ConfigReloader_CallsCallbackOnValidReload
  by code_simp+

lemma config_error_tests:
  "ConfigLoader_ReturnsErrorForMissingFile load_file"
  "ConfigLoader_ReturnsErrorForBadYaml what"
  "ConfigReloader_DoesNotCallCallbackOnInvalidConfig what"
proof -
  have "found_in ''not found'' (''config file not found: '' @ ''/nonexistent/path/dbmesh.yaml'')" by code_simp
  then show "ConfigLoader_ReturnsErrorForMissingFile load_file"
    by (simp add: ConfigLoader_ReturnsErrorForMissingFile_def load_def load_body_def)
qed (simp_all add: ConfigLoader_ReturnsErrorForBadYaml_def ConfigReloader_DoesNotCallCallbackOnInvalidConfig_def
    load_doc_def reload_def load_def load_body_def)

end
