(* ===== verification/Spec2Isabelle.thy ===== *)
theory Spec2Isabelle
  imports Proxy Fabric SchemaThreads SelectThreads BackendConnector Application
    QueryTests RoutingTests ProtocolTests PoolTests CoreTests ConfigTests
begin

text \<open>
  DBMesh is a proxy between MySQL clients and a group of MySQL servers. A client speaks the MySQL
  protocol to a session of the proxy; the session classifies each query, asks the routing engine for a
  backend, borrows a connection from the pool of that backend, forwards the query and streams the
  response back. This development models the C++ sources under \<open>src/\<close> that exist at this stage of the
  program and proves what makes them correct.

  \<^bold>\<open>Parts and theories.\<close> Sources are relative to \<open>src/\<close>.

    \<^item> \<open>Prelude\<close>, \<open>Types\<close>, \<open>ConfigTypes\<close>: machine integers as words, \<open>core/result.h\<close>, the ctype
      functions, checked buffer reads; the enumerations of \<open>core/types.h\<close>, \<open>routing/errors.h\<close>,
      \<open>pool/types.h\<close>; every struct of \<open>core/config.h\<close> as a record with its default values.
    \<^item> \<open>QueryClassifier\<close>, \<open>SchemaExtractor\<close>: the scanners of \<open>routing/src\<close> on character lists, one
      function per loop.
    \<^item> \<open>SchemaRegistry\<close>, \<open>BackendRegistry\<close>: the two registries. The second keeps its entries in an
      explicit heap, since snapshots share entries that are mutated in place; the order in which a hash
      map is iterated is a parameter that permutes its argument.
    \<^item> \<open>RoutingPolicies\<close>, \<open>RoutingEngine\<close>: the seven policies, \<open>ReadWriteRouter\<close>, \<open>BackendSelector\<close> and
      \<open>RoutingEngine::plan\<close>.
    \<^item> \<open>Constants\<close>, \<open>Codec\<close>, \<open>Packets\<close>, \<open>PacketFramer\<close>, \<open>Sockets\<close>, \<open>Handshake\<close>: the wire format of
      \<open>protocol/mysql\<close>: constants, fields, packets, frames over a socket, handshake packets and the
      native password method. SHA1 and the random generator are parameters.
    \<^item> \<open>ConnectionPool\<close>, \<open>PoolSystem\<close>, \<open>PoolManager\<close>: \<open>pool/src\<close>. Each handler of a pool between two
      suspension points is a function; \<open>PoolSystem\<close> has the step relation of all interleavings of the
      tasks that use one pool. Connections live in a heap and following a freed one is \<^const>\<open>None\<close>.
    \<^item> \<open>MySqlConnection\<close>, \<open>ClientSession\<close>: \<open>mysql_connection.cpp\<close>, one client session from its handshake
      to its end, and its abstract session machine. The engine, the pools and the backend sockets are
      reached through the record \<open>services\<close>, whose operations thread an arbitrary environment state.
    \<^item> \<open>Mesh\<close>, \<open>Proxy\<close>: the session over the program's own parts. \<open>Mesh\<close> fills \<open>services\<close> with the routing
      engine, the registries and the pools, for a session whose handlers no other task of the same pools
      interleaves; \<open>Proxy\<close> states what a client is promised, the relation \<open>replies\<close> of an ideal proxy.
    \<^item> \<open>Isolation\<close>, \<open>Fabric\<close>: concurrent sessions. \<open>Isolation\<close> has any number of sessions over the pool of one backend, a step
      relation in which acquiring, writing a query, relaying one packet of a response and releasing
      interleave with each other and with the pool; \<open>Fabric\<close> joins these systems for all backends with the
      routing engine and a registry that changes meanwhile.
    \<^item> \<open>SchemaThreads\<close>, \<open>SelectThreads\<close>: the two places where threads share data without a strand. The first has the schema
      registry with its loads, stores, lock and shared pointers; the second the selector with its separate loads of the fields
      of an entry.
    \<^item> \<open>BackendConnector\<close>, \<open>MySqlFrontend\<close>: the client side of the handshake with a backend, and the
      acceptor of the MySQL port.
    \<^item> \<open>ConfigLoader\<close>: \<open>config.cpp\<close>, every section parser, \<open>validate\<close>, \<open>load\<close> and \<open>reload\<close>, over an
      arbitrary YAML library given by the record \<open>yaml\<close>.
    \<^item> \<open>Logger\<close>: \<open>logger.cpp\<close>, formatting, rotation of files, and the queue with its writer thread as a
      step relation.
    \<^item> \<open>Application\<close>: \<open>application.cpp\<close> and \<open>main.cpp\<close>, start-up and shutdown of the parts above, signals and
      the event loop.
    \<^item> \<open>QueryTests\<close>, \<open>RoutingTests\<close>, \<open>ProtocolTests\<close>, \<open>PoolTests\<close>, \<open>CoreTests\<close>, \<open>ConfigTests\<close>: the unit tests of the
      repository as predicates of the model, one definition for each test, and lemmas that the model
      passes them: for every iteration order of a hash map, random draw, clock, allocator and hash
      function that a test depends on. They tie the definitions to what the authors expect of the code.
    \<^item> This theory: properties that span a session, the engine, the registries, the pools and start-up.

  \<^bold>\<open>What is proved.\<close> \<^emph>\<open>Routing\<close>: no write hides in a multi-statement query, classification ignores case,
  a qualified table name yields its schema, planning succeeds exactly when a backend can serve, round robin
  and weighted selection are fair, the backend registry refines a map and keeps its group index exact.
  \<^emph>\<open>Wire format\<close>: frames and handshakes read back as themselves, no decoder of a frame or server handshake
  reads outside its buffer, the client response decoder is unsafe exactly when its bound check wraps.
  \<^emph>\<open>Pools\<close>: in every interleaving no two tasks hold one connection, no handler uses a freed connection,
  a waiter is queued or served, the reaper keeps the minimum; warming fills every pool. \<^emph>\<open>Sessions\<close>: the
  command loop refines an abstract session machine, a session leaks no connection, the incremental prefix
  normalisation equals its description. \<^emph>\<open>The proxy\<close>: a client that logs in, sends any script of session
  statements and queries and quits receives what the ideal proxy may answer, byte for byte, each response
  that of an eligible backend, the session returns and every pool is idle again; whatever clients and
  backends send, a session that ends leaves every pool well-formed and nothing lent. \<^emph>\<open>Concurrency\<close>: sessions that
  interleave packet by packet over the pools, while the registry changes, are served whole answers to their own queries, from
  backends that were eligible when the query was planned, and a session whose pool has a free connection can
  always be served; the schema registry with its threads implements the
  atomic one; a selection between whose loads the registry changes still chooses only what passed its checks.
  \<^emph>\<open>Process\<close>: only well-formed configurations leave the loader, the logger loses no entry at shutdown, a
  termination signal ends the process. \<^emph>\<open>Together\<close>: a query borrows only from a pool of an eligible backend,
  of the primary when it may write, every plan after a start names a backend that has a pool, and after a
  start the registries and pools satisfy what the refinement of the proxy asks of them.
  Some properties state where the code falls short of its intent: the pool can exceed its maximum, a
  shutdown can hand out a freed connection, writing a packet whose size is a multiple of the chunk size
  never ends, a query whose backend
  breaks makes the session write to the connection it has just released and destroyed, a result set that
  ends with an error is never completed, a schema pointer dangles when another thread updates the registry, a
  write can be planned onto a backend that is at no moment a usable primary, the process waits for open sessions; lemmas show that the limit on connections has no effect, that a commented \<open>BEGIN\<close> is forwarded, that \<open>SET AUTOCOMMIT = 0\<close> turns autocommit on and that a logger that is
  shut down and started again stops writing.

  \<^bold>\<open>Interfaces.\<close> The locales are \<open>inductive_invariant\<close> (Prelude; interpreted for the pool system, for the
  sessions over a pool and over all pools, for the threads of the schema registry and for the logger), \<open>field_codec\<close> (Codec; one interpretation for each field, cell and frame), \<open>schema_store\<close>
  (SchemaRegistry), \<open>policy_contract\<close> and \<open>total_policy\<close> (RoutingPolicies; each policy),
  \<open>selector_contract\<close> (RoutingEngine) and \<open>session_relation\<close> (ClientSession; what every query relates, the
  whole session relates: interpreted for the pool calls and, in Mesh, for the states of the pools).
  Contracts of what is not in the sources are predicates that the properties take as hypotheses:
  \<open>reliable_send\<close>, \<open>reliable_recv\<close> and \<open>duplex\<close> for sockets, \<open>hash20\<close> for SHA1,
  \<open>connects\<close> for a backend that accepts, \<open>permutes_entries\<close> and \<open>visits_keys\<close> for iteration orders, \<open>traced\<close>
  for a session's services, \<open>server\<close> for a backend that answers, \<open>one_response\<close> for one that sends nothing after the end of its response
  (the proxy does not ask for \<open>CLIENT_MULTI_RESULTS\<close>), \<open>alloc_ok\<close> for the allocator and
  \<open>environment_ok\<close> for registries and pools that belong together; each has a concrete instance in the witnesses.

  \<^bold>\<open>Loops.\<close> Loops over data are structural or have a measure. The framer's loops, the streaming of a response
  and the command loop may run for ever: they are partial functions whose \<^const>\<open>None\<close> is not returning, and
  the properties about them prove that they return (or that they do not). There is no fuel. The event
  loop and the accept loop run over the list of events they meet.

  \<^bold>\<open>Not modelled.\<close> The text of log messages at their call sites, \<open>TCP_NODELAY\<close> and socket options,
  floating-point values of the configuration beyond being stored, and memory exhaustion. Handlers of
  one pool are atomic because they run on its strand; outside \<open>SchemaThreads\<close> and \<open>SelectThreads\<close> an operation of a registry and a
  plan are one step each, which these two theories relate to the separate loads and stores of the code; \<open>warm_all\<close> is proved for a start-up that no other handler of the
  same pool interleaves, and the refinement of the proxy for one session at a time; \<open>Isolation\<close>
  has concurrent sessions, with the packets of a backend as whole frames. The UUIDs of \<open>SessionID\<close> are
  a parameter. Three unit tests are left out: of elapsed time, of the UUID text format and of the
  distribution of the random generator. The directories \<open>api\<close>, \<open>cluster\<close>,
  \<open>failover\<close>, \<open>metrics\<close>, \<open>security\<close>, \<open>session\<close>, \<open>storage\<close> and \<open>protocol/postgres\<close> hold no code yet.
\<close>


section \<open>Queries, planning and pools together\<close>

text \<open>The services of a connection whose engine is the routing engine over one registry.\<close>

definition engine_services :: "'e services \<Rightarrow> SchemaRegistry \<Rightarrow> BackendRegistry \<Rightarrow> RoutingConfig \<Rightarrow> bool" where
  "engine_services S schemas reg routing \<longleftrightarrow>
     (\<forall>sql v e. \<exists>raw ctx cnt. fst (sv_plan S sql v e) = fst (plan schemas reg routing raw ctx cnt sql v))"

lemma query_acquires:
  assumes "traced S tr" "handle_com_query S send payload c = Some (r, c')"
  shows "tr (mc_ext c') = tr (mc_ext c) \<or>
    (\<exists>pl a h. fst (sv_plan S (map char_at (tl payload)) (mc_view c) (mc_ext c)) = Ok pl \<and>
       tr (mc_ext c') = tr (mc_ext c) @ [Acq (rp_backend_id pl) a, Rel (rp_backend_id pl) a h])"
  using query_cases [OF assms(2)] route_trace [OF assms(1)] by force

text \<open>C2. From the client's packet to the pool, writes never reach a replica: whatever the history of
  the registry, a query that is not a pure read, and every query of a session in a transaction,
  borrows a connection only from the pool of a backend whose current role is \<open>PRIMARY\<close>, and every query
  borrows only from a registered backend that is eligible for its schema.\<close>

theorem query_pool_matches_role:
  assumes "permutes_entries it" and "reg = br_run it ops"
    and "engine_services S schemas reg routing" and "traced S tr"
    and "handle_com_query S send payload c = Some (r, c')"
    and "sql = map char_at (tl payload)"
  shows "\<exists>evs. tr (mc_ext c') = tr (mc_ext c) @ evs \<and>
    (\<forall>b a. Acq b a \<in> set evs \<longrightarrow>
       (\<exists>config e. sr_lookup schemas (extract_or sql (mc_current_db c)) = Some config \<and>
          e \<in> set (all_entries reg) \<and> be_id e = b \<and> eligible routing (sc_backend_group config) (be_role e) e \<and>
          (\<not> is_read (classify sql) \<or> mc_in_transaction c \<longrightarrow> be_role e = PRIMARY)))"
proof (cases "tr (mc_ext c') = tr (mc_ext c)")
  case True
  then show ?thesis by (intro exI [of _ "[]"]) simp
next
  case False
  with query_acquires [OF assms(4,5)] obtain pl a h where
    pl: "fst (sv_plan S sql (mc_view c) (mc_ext c)) = Ok pl"
    and t: "tr (mc_ext c') = tr (mc_ext c) @ [Acq (rp_backend_id pl) a, Rel (rp_backend_id pl) a h]"
    unfolding assms(6) by blast
  from pl assms(3) obtain raw ctx cnt where "fst (plan schemas reg routing raw ctx cnt sql (mc_view c)) = Ok pl"
    unfolding engine_services_def by metis
  from plan_serves [OF _ this] br_wf_run [OF assms(1)] assms(2) obtain config e where
    e: "sr_lookup schemas (extract_or sql (mc_current_db c)) = Some config"
      "rp_role pl = plan_role routing (classify sql) (mc_view c) config"
      "e \<in> serving reg routing config (rp_role pl)" "be_id e = rp_backend_id pl"
    by (auto simp: mc_view_def)
  have "be_role e = PRIMARY" if "\<not> is_read (classify sql) \<or> mc_in_transaction c"
    using that plan_role_REPLICA [of routing "classify sql" "mc_view c" config] serving_role [OF e(3)] e(2)
    by (cases "be_role e") (auto simp: is_read_def mc_view_def)
  then show ?thesis using t e serving_role [OF e(3)] by (intro exI) auto
qed

text \<open>The sample services with the engine over the sample registry.\<close>

definition sample_mesh :: "(bytes \<times> bytes \<times> pool_event list) services" where
  "sample_mesh = sample_services\<lparr>sv_plan := \<lambda>sql v e.
     (fst (plan sample_schemas (br_run rev sample_ops) default_RoutingConfig 0 no_context (\<lambda>_. 0) sql v), e)\<rparr>"

lemma sample_mesh_simps: "sv_bsend sample_mesh = sv_bsend sample_services" "sv_brecv sample_mesh = sv_brecv sample_services"
    "sv_acquire sample_mesh = sv_acquire sample_services" "sv_release sample_mesh = sv_release sample_services"
    "sv_served sample_mesh = sv_served sample_services" "sv_has_pool sample_mesh = sv_has_pool sample_services"
  by (simp_all add: sample_mesh_def)

lemma sample_mesh_traced: "traced sample_mesh (snd \<circ> snd)"
  using sample_traced unfolding traced_def by (simp add: sample_mesh_simps) (simp add: sample_mesh_def)

lemma sample_mesh_engine: "engine_services sample_mesh sample_schemas (br_run rev sample_ops) default_RoutingConfig"
  by (auto simp: engine_services_def sample_mesh_def)

lemma sample_mesh_query:
  "\<exists>c'. handle_com_query sample_mesh pipe_send (query_packet ''DELETE FROM t'') (mc_new [] (frames sample_result, [], []) 1) = Some (Ok (), c')"
proof -
  let ?c = "mc_new ([] :: bytes) (frames sample_result, [] :: bytes, []) 1"
  let ?q = "query_packet ''DELETE FROM t''"
  let ?pl = "\<lparr>rp_query_type = DELETE, rp_schema = [], rp_backend_id = ''a'', rp_role = PRIMARY\<rparr>"
  have pl: "sv_plan sample_mesh ''DELETE FROM t'' (mc_view ?c) (mc_ext ?c) = (Ok ?pl, mc_ext ?c)"
    using sample_plan by (simp add: sample_mesh_def mc_view_def mc_new_def sample_session_def)
  have d: "duplex (sv_bsend sample_mesh 7) (sv_brecv sample_mesh 7) fst (fst \<circ> snd)"
    using sample_duplex by (simp add: sample_mesh_simps)
  have hp: "sv_has_pool sample_mesh (rp_backend_id ?pl) (mc_ext ?c)" by (simp add: sample_mesh_simps sample_services_def)
  have aq: "sv_acquire sample_mesh (rp_backend_id ?pl) (mc_ext ?c) = (Ok 7, (frames sample_result, [], [Acq ''a'' 7]))"
    by (simp add: sample_mesh_simps sample_services_def mc_new_def)
  have sv: "\<exists>e'. sv_served sample_mesh (rp_backend_id ?pl) 7 (sv_release sample_mesh (rp_backend_id ?pl) 7 True e) = Some e'" for e
    by (cases e) (simp add: sample_mesh_simps sample_services_def)
  have n: "length ?q < MAX_PACKET_SIZE" by (simp add: query_packet_def MAX_PACKET_SIZE_def)
  from route_served [OF d pipe_reliable(1) sample_response n pl hp aq _ sv, of "[]"] obtain c' where
    "route_and_forward sample_mesh pipe_send ?q ''DELETE FROM t'' ?c = Some (Ok (), c')" by auto
  moreover have "normalise_prefix ''DELETE FROM t'' = ''DELETE FROM T''" by code_simp
  ultimately show ?thesis by (simp add: handle_com_query_def query_packet_def starts_with_def)
qed

theorem query_pool_matches_role_witness:
  "\<exists>c' evs. handle_com_query sample_mesh pipe_send (query_packet ''DELETE FROM t'') (mc_new [] (frames sample_result, [], []) 1) = Some (Ok (), c') \<and>
     snd (snd (mc_ext c')) = evs \<and>
     (\<forall>b a. Acq b a \<in> set evs \<longrightarrow> (\<exists>e \<in> set (all_entries (br_run rev sample_ops)). be_id e = b \<and> be_role e = PRIMARY))"
proof -
  let ?c = "mc_new ([] :: bytes) (frames sample_result, [] :: bytes, []) 1"
  from sample_mesh_query obtain c' where
    h: "handle_com_query sample_mesh pipe_send (query_packet ''DELETE FROM t'') ?c = Some (Ok (), c')" by blast
  have q: "''DELETE FROM t'' = map char_at (tl (query_packet ''DELETE FROM t''))" by (simp add: query_packet_def)
  have w: "\<not> is_read (classify ''DELETE FROM t'')" by code_simp
  from query_pool_matches_role [OF rev_permutes refl sample_mesh_engine sample_mesh_traced h q] w h show ?thesis
    by (fastforce simp: mc_new_def)
qed

section \<open>Start-up, planning and pools together\<close>

text \<open>The operations with which the monitors change a registry in place.\<close>

fun updates_entry :: "br_op \<Rightarrow> bool" where
  "updates_entry (UpdateState k st) = True"
| "updates_entry (UpdateRole k role) = True"
| "updates_entry (UpdateLag k l) = True"
| "updates_entry _ = False"

lemma updates_dom: "list_all updates_entry ops \<Longrightarrow> dom (fold map_apply ops m) = dom m"
proof (induction ops arbitrary: m)
  case (Cons op ops)
  have "dom (map_apply op m) = dom m" using Cons.prems by (cases op) (auto simp: dom_def)
  with Cons show ?case by simp
qed simp

lemma reg_map_id: "br_wf r \<Longrightarrow> reg_map r k = Some e \<Longrightarrow> be_id e = k"
  by (fastforce simp: reg_map_def br_get_def br_wf_def ids_ok_def bind_eq_Some_conv dest: map_of_SomeD)

lemma started_parts:
  assumes "start_subsystems W a = (None, a')"
  shows "ap_backend_registry a' = Some (br_load (wd_id_order W) (cfg_backends (ap_config a)) br_new) \<and>
    ap_pool_manager a' = Some (fold create_pool_with_factory (cfg_backends (ap_config a)) pm_new) \<and>
    ap_schema_registry a' = Some (sr_load (cfg_schemas (ap_config a)) sr_new) \<and>
    ap_routing a' = Some (cfg_routing (ap_config a))"
  using assms by (auto simp: start_subsystems_def Let_def split: if_splits option.splits)

text \<open>C14. Every plan of the running proxy can be executed: after a start, whatever the monitors have done to
  states, roles and lags since, the backend that a plan of an unpinned session names has a connection
  pool, with the settings of the first configuration entry of that id.\<close>

theorem planned_backend_has_pool:
  assumes "permutes_entries (wd_id_order W)" and "start_subsystems W a = (None, a')"
    and "ap_schema_registry a' = Some schemas" and "ap_backend_registry a' = Some reg"
    and "ap_routing a' = Some routing" and "ap_pool_manager a' = Some pools"
    and "list_all updates_entry ops"
    and "fst (plan schemas (fold (br_apply (wd_id_order W)) ops reg) routing raw ctx cnt sql session) = Ok p"
    and "sv_pinned_backend session = None"
  shows "\<exists>b. find (\<lambda>b. bc_id b = rp_backend_id p) (cfg_backends (ap_config a)) = Some b \<and>
    get_pool (rp_backend_id p) pools = Some (cp_new (rp_backend_id p) (bc_pool b))"
proof -
  let ?bs = "cfg_backends (ap_config a)" and ?it = "wd_id_order W"
  from started_parts [OF assms(2)] assms(4,6) have reg: "reg = br_load ?it ?bs br_new"
    and pools: "pools = fold create_pool_with_factory ?bs pm_new" by simp_all
  have run: "fold (br_apply ?it) ops reg = br_run ?it (Load ?bs # ops)" by (simp add: reg br_run_def)
  let ?r = "br_run ?it (Load ?bs # ops)"
  have wf: "br_wf ?r" using br_wf_run [OF assms(1)] .
  from plan_serves [OF wf assms(8) [unfolded run] assms(9)] obtain config e where
    e: "e \<in> serving ?r routing config (rp_role p)" "be_id e = rp_backend_id p" by blast
  then have "e \<in> ran (reg_map ?r)" using serving_role [OF e(1)] set_all_entries [OF wf] by simp
  then obtain k where k: "reg_map ?r k = Some e" by (auto simp: ran_def)
  then have "rp_backend_id p \<in> dom (reg_map ?r)" using reg_map_id [OF wf] e(2) by auto
  then have "rp_backend_id p \<in> dom (map_apply (Load ?bs) (\<lambda>_. None))"
    using reg_map_run [OF assms(1)] updates_dom [OF assms(7)] by simp
  then show ?thesis by (auto simp: get_pool_def pools create_pools pm_new_def)
qed

definition sample_app :: "(unit, unit) Application" where
  "sample_app = \<lparr>ap_config_path = ''f'',
     ap_config = default_Config\<lparr>cfg_backends := [sample_backend ''a'' PRIMARY, sample_backend ''b'' REPLICA],
       cfg_schemas := [default_SchemaConfig\<lparr>sc_name := ''default'', sc_backend_group := ''g''\<rparr>],
       cfg_routing := default_RoutingConfig, cfg_node := default_NodeConfig\<lparr>node_id := ''n''\<rparr>\<rparr>,
     ap_log = \<lparr>d_queue = [], d_shutdown_flag = False, d_writer = writer.Waiting, d_min_level = INFO, d_json_format = True, d_to_stdout = True,
       d_file_sink = None, d_registry = (\<lambda>_. None), d_fs = (\<lambda>_. None), d_stdout = [], d_stderr = []\<rparr>,
     ap_shutting_down = False, ap_stop_posted = False, ap_armed = True, ap_pid_file_path = [], ap_fs = (\<lambda>_. None), ap_io_threads = 0,
     ap_schema_registry = None, ap_backend_registry = None, ap_routing = None, ap_pool_manager = None, ap_mysql_frontend = None\<rparr>"

lemma sample_app_plan: "fst (plan (sr_load (cfg_schemas (ap_config sample_app)) sr_new)
    (fold (br_apply rev) [UpdateLag ''a'' 5] (br_load rev (cfg_backends (ap_config sample_app)) br_new)) (cfg_routing (ap_config sample_app)) 0 no_context (\<lambda>_. 0) ''DELETE FROM t'' sample_session) =
  Ok \<lparr>rp_query_type = DELETE, rp_schema = [], rp_backend_id = ''a'', rp_role = PRIMARY\<rparr>"
  by code_simp

theorem planned_backend_has_pool_witness:
  "\<exists>a' pools. start_subsystems sample_world sample_app = (None, a') \<and> ap_pool_manager a' = Some pools \<and>
     get_pool ''a'' pools = Some (cp_new ''a'' default_PoolConfig)"
proof -
  have "fst (start_subsystems sample_world sample_app) = None" by code_simp
  then obtain a' where a': "start_subsystems sample_world sample_app = (None, a')" by (metis prod.collapse)
  have it: "wd_id_order sample_world = rev" by (simp add: sample_world_def)
  note parts = started_parts [OF a', unfolded it]
  let ?pools = "fold create_pool_with_factory (cfg_backends (ap_config sample_app)) pm_new"
  have "\<exists>b. find (\<lambda>b. bc_id b = ''a'') (cfg_backends (ap_config sample_app)) = Some b \<and>
      get_pool ''a'' ?pools = Some (cp_new ''a'' (bc_pool b))"
    using planned_backend_has_pool [OF _ a' _ _ _ _ _ sample_app_plan [folded it]] rev_permutes parts
    by (simp add: it sample_session_def)
  then show ?thesis using a' parts by (auto simp: sample_app_def sample_backend_def default_BackendConfig_def)
qed

text \<open>C15. Start-up makes the proxy ready: after a start with a valid configuration whose pools may hold a
  connection, the registries and pools of the application, with quiet sockets and backends that accept
  connections, satisfy everything that a session needs to be served: the registry is well-formed, every
  registered backend has a pool, and every pool is idle and running.\<close>

theorem start_makes_ready:
  fixes E :: "'s environment" and e :: "'s mesh"
  assumes "config_ok (ap_config a)" and "permutes_entries (wd_id_order W)" and "start_subsystems W a = (None, a')"
    and "\<forall>b \<in> set (cfg_backends (ap_config a)). 0 < unat (pool_max (bc_pool b))"
    and "ap_backend_registry a' = Some (en_registry E)" and "ap_pool_manager a' = Some (me_pools e)" and "me_defined e"
    and "alloc_ok E" and "\<forall>b n. en_connect E b n = Ok True" and "en_ctx E = no_context"
    and "\<forall>s. inb (me_sock e s) = []" and "\<forall>b A. b \<in> bc_id ` set (cfg_backends (ap_config a)) \<longrightarrow> who (me_sock e (en_alloc E b A)) = b"
  shows "environment_ok E \<and> pooled E e \<and> serving_mesh E who inb e"
proof -
  let ?bs = "cfg_backends (ap_config a)" and ?it = "wd_id_order W"
  from started_parts [OF assms(3)] assms(5,6) have reg: "en_registry E = br_run ?it [Load ?bs]"
    and pools: "me_pools e = fold create_pool_with_factory ?bs pm_new" by (simp_all add: br_run_def)
  have gp: "get_pool b (me_pools e) = map_option (\<lambda>c. cp_new b (bc_pool c)) (find (\<lambda>c. bc_id c = b) ?bs)" for b
    by (simp add: pools get_pool_def create_pools pm_new_def)
  have wf: "br_wf (en_registry E)" unfolding reg using br_wf_run [OF assms(2)] .
  have en: "\<exists>b. find (\<lambda>c. bc_id c = be_id en) ?bs = Some b" if "en \<in> set (all_entries (en_registry E))" for en
  proof -
    from that set_all_entries [OF wf] obtain k where k: "reg_map (en_registry E) k = Some en" by (auto simp: ran_def)
    then have "be_id en = k" using reg_map_id [OF wf] by blast
    with k show ?thesis unfolding reg reg_map_run [OF assms(2)] by auto
  qed
  have "be_id en \<noteq> []" if "en \<in> set (all_entries (en_registry E))" for en
    using en [OF that] assms(1) by (auto simp: config_ok_def find_Some_iff)
  then have "environment_ok E" using assms(8-10) wf by (simp add: environment_ok_def)
  moreover have "pooled E e" using en by (fastforce simp: pooled_def gp)
  moreover have "running p \<and> idle p \<and> cp_all p = [] \<and> b \<in> bc_id ` set ?bs" if "get_pool b (me_pools e) = Some p" for b p
    using that assms(4) by (auto simp: gp find_Some_iff running_new idle_new) (auto simp: cp_new_def)
  ultimately show ?thesis using assms(7,11,12) by (fastforce simp: serving_mesh_def mesh_ok_def)
qed

theorem start_makes_ready_witness:
  "\<exists>a'. start_subsystems sample_world sample_app = (None, a') \<and> ap_pool_manager a' = Some (me_pools sample_state) \<and>
     serving_mesh sample_env fst snd sample_state"
proof -
  have "fst (start_subsystems sample_world sample_app) = None" by code_simp
  then obtain a' where a': "start_subsystems sample_world sample_app = (None, a')" by (metis prod.collapse)
  have it: "wd_id_order sample_world = rev" by (simp add: sample_world_def)
  note parts = started_parts [OF a', unfolded it]
  have bs: "cfg_backends (ap_config sample_app) = [sample_backend ''a'' PRIMARY, sample_backend ''b'' REPLICA]"
    by (simp add: sample_app_def)
  have ok: "config_ok (ap_config sample_app)" by code_simp
  have "environment_ok sample_env \<and> pooled sample_env sample_state \<and> serving_mesh sample_env fst snd sample_state"
    using parts rev_permutes sample_alloc [of "en_send sample_env"]
    by (intro start_makes_ready [OF ok _ a'])
       (auto simp: it bs sample_backend_def default_BackendConfig_def default_PoolConfig_def sample_env_def sample_state_def
         sample_ops_def br_run_def Let_def)
  then show ?thesis using a' parts by (simp add: sample_state_def bs)
qed

end
